(* ===== verification/Prelude.thy ===== *)
theory Prelude
  imports Main "HOL-Library.Sublist" "HOL-Library.Char_ord" "HOL-Library.List_Lexorder"
begin

text \<open>
  Shared vocabulary of the development.

  \<^item> The exceptions of the program's own \<^verbatim>\<open>raise\<close> statements and of the library calls it
    makes, and the result type \<open>exn + 'a\<close> (\<open>Inl\<close> is a raised exception).
  \<^item> Short-circuit loops over lists whose body may raise (\<^verbatim>\<open>any(...)\<close>, a \<^verbatim>\<open>for\<close>
    loop that returns from inside).
  \<^item> Python dictionaries as association lists in insertion order.
  \<^item> Reachability in a transition system and the interface of an inductive invariant.
  \<^item> The find-or-create contract that several tables of the program share.
\<close>

named_theorems res_simps \<open>equations of the result type\<close>
named_theorems py_simps \<open>equations of the modelled Python string operations\<close>

section \<open>Exceptions and results\<close>

text \<open>
  One constructor per exception class the modelled code raises or lets pass. The
  constructors of the program's own classes that carry more data (a scope decision, a scan
  state) are in the error types of their components.
\<close>

datatype exn =
    Value_Error string
  | Re_Error string
  | Key_Error string
  | Assertion_Error
  | Runtime_Error string
  | Connection_Error string
  | File_Not_Found string
  | Invalid_Token
  | Unicode_Error
  | Type_Error string
  | Other_Error string

type_synonym 'a res = "exn + 'a"

definition bind_res :: "'e + 'a \<Rightarrow> ('a \<Rightarrow> 'e + 'b) \<Rightarrow> 'e + 'b" where
  "bind_res r f = (case r of Inl e \<Rightarrow> Inl e | Inr a \<Rightarrow> f a)"

lemma bind_res_simps [simp, res_simps]:
  "bind_res (Inl e) f = Inl e"
  "bind_res (Inr a) f = f a"
  by (simp_all add: bind_res_def)

lemma bind_res_Inr_iff [res_simps]:
  "bind_res r f = Inr b \<longleftrightarrow> (\<exists>a. r = Inr a \<and> f a = Inr b)"
  by (cases r) simp_all

lemma bind_res_cong [fundef_cong]:
  "r = r' \<Longrightarrow> (\<And>a. r' = Inr a \<Longrightarrow> f a = f' a) \<Longrightarrow> bind_res r f = bind_res r' f'"
  by (cases r') simp_all

text \<open>
  What a call of a network library gives: an answer, an exception of the class the caller catches, of
  which the text matters, or another exception.
\<close>

datatype 'a net_reply =
    Reply 'a
  | Failure string
  | Raises exn

text \<open>\<^verbatim>\<open>[f(x) for x in xs]\<close> with a body that may raise.\<close>

fun map_res :: "('a \<Rightarrow> 'e + 'b) \<Rightarrow> 'a list \<Rightarrow> 'e + 'b list" where
  "map_res f [] = Inr []"
| "map_res f (x # xs) = bind_res (f x) (\<lambda>y. bind_res (map_res f xs) (\<lambda>ys. Inr (y # ys)))"

lemma map_res_Inr_iff [res_simps]: "map_res f xs = Inr ys \<longleftrightarrow> list_all2 (\<lambda>x y. f x = Inr y) xs ys"
  by (induction xs arbitrary: ys) (auto simp: bind_res_Inr_iff list_all2_Cons1)

lemma map_res_total: "(\<And>x. x \<in> set xs \<Longrightarrow> f x = Inr (g x)) \<Longrightarrow> map_res f xs = Inr (map g xs)"
  by (induction xs) simp_all

text \<open>\<^verbatim>\<open>any(f(x) for x in xs)\<close>: stops at the first true value, and at the first exception.\<close>

fun any_res :: "('a \<Rightarrow> 'e + bool) \<Rightarrow> 'a list \<Rightarrow> 'e + bool" where
  "any_res f [] = Inr False"
| "any_res f (x # xs) = bind_res (f x) (\<lambda>b. if b then Inr True else any_res f xs)"

text \<open>A \<^verbatim>\<open>for\<close> loop that returns the first element for which \<open>f\<close> is true.\<close>

fun find_res :: "('a \<Rightarrow> 'e + bool) \<Rightarrow> 'a list \<Rightarrow> 'e + 'a option" where
  "find_res f [] = Inr None"
| "find_res f (x # xs) = bind_res (f x) (\<lambda>b. if b then Inr (Some x) else find_res f xs)"

lemma any_res_False_iff [res_simps]:
  "any_res f xs = Inr False \<longleftrightarrow> (\<forall>x\<in>set xs. f x = Inr False)"
  by (induction xs) (auto simp: bind_res_Inr_iff split: if_splits)

lemma any_res_TrueD: "any_res f xs = Inr True \<Longrightarrow> \<exists>x\<in>set xs. f x = Inr True"
  by (induction xs) (auto simp: bind_res_Inr_iff split: if_splits)

lemma find_res_None_iff [res_simps]:
  "find_res f xs = Inr None \<longleftrightarrow> (\<forall>x\<in>set xs. f x = Inr False)"
  by (induction xs) (auto simp: bind_res_Inr_iff split: if_splits)

lemma find_res_SomeD: "find_res f xs = Inr (Some x) \<Longrightarrow> x \<in> set xs \<and> f x = Inr True"
  by (induction xs) (auto simp: bind_res_Inr_iff split: if_splits)

lemma find_res_total:
  "(\<And>x. x \<in> set xs \<Longrightarrow> f x = Inr (p x)) \<Longrightarrow> find_res f xs = Inr (find p xs)"
  by (induction xs) simp_all

lemma any_res_total:
  "(\<And>x. x \<in> set xs \<Longrightarrow> f x = Inr (p x)) \<Longrightarrow> any_res f xs = Inr (list_ex p xs)"
  by (induction xs) simp_all

lemma find_SomeD: "find P xs = Some x \<Longrightarrow> x \<in> set xs \<and> P x"
  by (auto simp: find_Some_iff)

section \<open>Dictionaries in insertion order\<close>

type_synonym ('k, 'v) dict = "('k \<times> 'v) list"

definition dict_get :: "('k, 'v) dict \<Rightarrow> 'k \<Rightarrow> 'v option" where
  "dict_get d k = map_of d k"

text \<open>\<^verbatim>\<open>d[k] = v\<close>: an existing key keeps its place, a new one goes last.\<close>

fun dict_set :: "'k \<Rightarrow> 'v \<Rightarrow> ('k, 'v) dict \<Rightarrow> ('k, 'v) dict" where
  "dict_set k v [] = [(k, v)]"
| "dict_set k v ((k', v') # d) =
     (if k' = k then (k, v) # d else (k', v') # dict_set k v d)"

text \<open>\<^verbatim>\<open>{**a, **b}\<close>: the entries of \<open>b\<close> overwrite those of \<open>a\<close>.\<close>

definition dict_merge :: "('k, 'v) dict \<Rightarrow> ('k, 'v) dict \<Rightarrow> ('k, 'v) dict" where
  "dict_merge a b = fold (\<lambda>(k, v) d. dict_set k v d) b a"

text \<open>\<^verbatim>\<open>d.setdefault(k, v)\<close>, for its effect on the dictionary.\<close>

definition dict_setdefault :: "'k \<Rightarrow> 'v \<Rightarrow> ('k, 'v) dict \<Rightarrow> ('k, 'v) dict" where
  "dict_setdefault k v d = (if dict_get d k = None then dict_set k v d else d)"

definition dict_ok :: "('k, 'v) dict \<Rightarrow> bool" where
  "dict_ok d \<longleftrightarrow> distinct (map fst d)"

lemma dict_get_set [simp]: "dict_get (dict_set k v d) k' = (if k' = k then Some v else dict_get d k')"
  by (induction d) (auto simp: dict_get_def)

lemma dict_keys_set: "set (map fst (dict_set k v d)) = insert k (set (map fst d))"
  by (induction k v d rule: dict_set.induct) auto

lemma dict_ok_set [intro]: "dict_ok d \<Longrightarrow> dict_ok (dict_set k v d)"
proof (induction k v d rule: dict_set.induct)
  case (2 k v k' v' d)
  then show ?case
    using dict_keys_set [of k v d] by (auto simp: dict_ok_def)
qed (simp add: dict_ok_def)

lemma dict_ok_merge [intro]: "dict_ok a \<Longrightarrow> dict_ok (dict_merge a b)"
  unfolding dict_merge_def
  by (induction b arbitrary: a) (auto split: prod.splits)

lemma dict_ok_setdefault [intro]: "dict_ok d \<Longrightarrow> dict_ok (dict_setdefault k v d)"
  by (auto simp: dict_setdefault_def)

lemma dict_get_setdefault [simp]:
  "dict_get (dict_setdefault k v d) k' =
     (if k' = k \<and> dict_get d k = None then Some v else dict_get d k')"
  by (auto simp: dict_setdefault_def)

lemma dict_get_merge:
  "dict_get (dict_merge a b) k = (case dict_get (rev b) k of None \<Rightarrow> dict_get a k | Some v \<Rightarrow> Some v)"
  unfolding dict_merge_def
proof (induction b arbitrary: a)
  case Nil
  then show ?case by (simp add: dict_get_def)
next
  case (Cons kv b)
  obtain k' v where kv: "kv = (k', v)" by (cases kv)
  have "dict_get (rev b @ [(k', v)]) k =
          (case dict_get (rev b) k of None \<Rightarrow> if k = k' then Some v else None | Some w \<Rightarrow> Some w)"
    by (auto simp: dict_get_def map_add_def split: option.splits)
  then show ?case
    using Cons.IH [of "dict_set k' v a"] by (auto simp: kv split: option.splits)
qed

section \<open>Transition systems\<close>

text \<open>The states reachable from \<open>init\<close> by \<open>step\<close>.\<close>

inductive reach :: "('s \<Rightarrow> bool) \<Rightarrow> ('s \<Rightarrow> 's \<Rightarrow> bool) \<Rightarrow> 's \<Rightarrow> bool"
  for init step where
  reach_init: "init s \<Longrightarrow> reach init step s"
| reach_step: "reach init step s \<Longrightarrow> step s t \<Longrightarrow> reach init step t"

text \<open>
  The interface of a component with an inductive invariant. Every component whose state is
  shared between calls interprets it on its own step relation.
\<close>

locale invariant_system =
  fixes init :: "'s \<Rightarrow> bool"
    and step :: "'s \<Rightarrow> 's \<Rightarrow> bool"
    and inv :: "'s \<Rightarrow> bool"
  assumes inv_init: "init s \<Longrightarrow> inv s"
    and inv_step: "inv s \<Longrightarrow> step s t \<Longrightarrow> inv t"
begin

lemma reach_inv: "reach init step s \<Longrightarrow> inv s"
  by (induction rule: reach.induct) (auto intro: inv_init inv_step)

lemma closure_inv: "step\<^sup>*\<^sup>* s t \<Longrightarrow> inv s \<Longrightarrow> inv t"
  by (induction rule: rtranclp_induct) (auto intro: inv_step)

end

section \<open>The find-or-create contract\<close>

text \<open>
  Several tables of the program are filled by the same protocol: look for a row with a key,
  update that row if there is one, append a fresh row otherwise. \<open>upsert\<close> is the state
  after such a call; the laws say that at most the row of the key changes and that its key
  stays. The lemmas are what the callers rely on: one row per key, no row lost, and the
  creation flag counts the new rows.
\<close>

locale find_or_create =
  fixes key :: "'r \<Rightarrow> 'k"
    and upsert :: "'a \<Rightarrow> 'r list \<Rightarrow> 'r list"
    and key_of :: "'a \<Rightarrow> 'k"
  assumes hit: "key_of a \<in> key ` set rows \<Longrightarrow> map key (upsert a rows) = map key rows"
    and miss: "key_of a \<notin> key ` set rows \<Longrightarrow> map key (upsert a rows) = map key rows @ [key_of a]"
begin

lemma upsert_keys: "key ` set (upsert a rows) = insert (key_of a) (key ` set rows)"
proof (cases "key_of a \<in> key ` set rows")
  case True
  from arg_cong [OF hit [OF True], of set] True show ?thesis by auto
next
  case False
  from arg_cong [OF miss [OF False], of set] show ?thesis by auto
qed

lemma upsert_distinct: "distinct (map key rows) \<Longrightarrow> distinct (map key (upsert a rows))"
  by (cases "key_of a \<in> key ` set rows") (auto simp: hit miss)

lemma upsert_length:
  "length (upsert a rows) = length rows + (if key_of a \<in> key ` set rows then 0 else 1)"
proof (cases "key_of a \<in> key ` set rows")
  case True
  from arg_cong [OF hit [OF True], of length] True show ?thesis by simp
next
  case False
  from arg_cong [OF miss [OF False], of length] False show ?thesis by simp
qed

lemma fold_distinct: "distinct (map key rows) \<Longrightarrow> distinct (map key (fold upsert as rows))"
  by (induction as arbitrary: rows) (auto intro: upsert_distinct)

lemma fold_keys: "key ` set (fold upsert as rows) = key_of ` set as \<union> key ` set rows"
  by (induction as arbitrary: rows) (auto simp: upsert_keys)

end

end
