(* ===== verification/State_Machine.thy ===== *)
theory State_Machine
  imports Prelude
begin

text \<open>
  The scan lifecycle: \<^verbatim>\<open>packages/core/src/sentinel_core/state_machine/states.py\<close> and
  \<^verbatim>\<open>machine.py\<close>. The states, the table of linear transitions, and the class
  \<^verbatim>\<open>ScanStateMachine\<close> with its three fields and its operations \<^verbatim>\<open>is_terminal\<close>,
  \<^verbatim>\<open>can_transition\<close>, \<^verbatim>\<open>transition\<close> and \<^verbatim>\<open>resume\<close>. A call that raises returns
  \<open>Inl\<close> and leaves the machine as it was.
\<close>

section \<open>States and phases\<close>

datatype scan_state =
    QUEUED | SCOPE_VERIFYING | BLOCKED_UNVERIFIED | RECON | AUTH_ESTABLISHING | FAILED_AUTH
  | CRAWLING | SURFACE_MAPPING | PASSIVE_CHECKS | TESTING | VERIFYING | TRIAGING | REPORTING
  | COMPLETE | PAUSED | CANCELLED | FAILED

definition scan_states :: "scan_state list" where
  "scan_states =
     [QUEUED, SCOPE_VERIFYING, BLOCKED_UNVERIFIED, RECON, AUTH_ESTABLISHING, FAILED_AUTH,
      CRAWLING, SURFACE_MAPPING, PASSIVE_CHECKS, TESTING, VERIFYING, TRIAGING, REPORTING,
      COMPLETE, PAUSED, CANCELLED, FAILED]"

lemma scan_states_all [simp]: "s \<in> set scan_states"
  by (cases s) (simp_all add: scan_states_def)

text \<open>The string value of each state, as the enum gives it and the messages show it.\<close>

fun scan_state_value :: "scan_state \<Rightarrow> string" where
  "scan_state_value QUEUED = ''queued''"
| "scan_state_value SCOPE_VERIFYING = ''scope_verifying''"
| "scan_state_value BLOCKED_UNVERIFIED = ''blocked_unverified''"
| "scan_state_value RECON = ''recon''"
| "scan_state_value AUTH_ESTABLISHING = ''auth_establishing''"
| "scan_state_value FAILED_AUTH = ''failed_auth''"
| "scan_state_value CRAWLING = ''crawling''"
| "scan_state_value SURFACE_MAPPING = ''surface_mapping''"
| "scan_state_value PASSIVE_CHECKS = ''passive_checks''"
| "scan_state_value TESTING = ''testing''"
| "scan_state_value VERIFYING = ''verifying''"
| "scan_state_value TRIAGING = ''triaging''"
| "scan_state_value REPORTING = ''reporting''"
| "scan_state_value COMPLETE = ''complete''"
| "scan_state_value PAUSED = ''paused''"
| "scan_state_value CANCELLED = ''cancelled''"
| "scan_state_value FAILED = ''failed''"

definition TERMINAL_STATES :: "scan_state set" where
  "TERMINAL_STATES = {COMPLETE, CANCELLED, FAILED, BLOCKED_UNVERIFIED, FAILED_AUTH}"

definition INTERRUPTIBLE_STATES :: "scan_state set" where
  "INTERRUPTIBLE_STATES = set (filter (\<lambda>s. s \<notin> TERMINAL_STATES \<and> s \<noteq> PAUSED) scan_states)"

datatype scan_phase_name =
    PH_SCOPE_VERIFYING | PH_RECON | PH_AUTH_ESTABLISHING | PH_CRAWLING | PH_SURFACE_MAPPING
  | PH_PASSIVE_CHECKS | PH_ACTIVE_INJECTION | PH_ACCESS_CONTROL | PH_SESSION_CHECKS
  | PH_BUSINESS_LOGIC | PH_VERIFYING | PH_TRIAGING | PH_REPORTING

definition PARALLEL_TESTING_PHASES :: "scan_phase_name set" where
  "PARALLEL_TESTING_PHASES =
     {PH_ACTIVE_INJECTION, PH_ACCESS_CONTROL, PH_SESSION_CHECKS, PH_BUSINESS_LOGIC}"

datatype phase_status = PS_PENDING | PS_RUNNING | PS_COMPLETED | PS_FAILED | PS_SKIPPED

section \<open>The machine\<close>

text \<open>\<^verbatim>\<open>_LINEAR_TRANSITIONS.get(current, set())\<close>.\<close>

fun LINEAR_TRANSITIONS :: "scan_state \<Rightarrow> scan_state set" where
  "LINEAR_TRANSITIONS QUEUED = {SCOPE_VERIFYING}"
| "LINEAR_TRANSITIONS SCOPE_VERIFYING = {RECON, BLOCKED_UNVERIFIED}"
| "LINEAR_TRANSITIONS RECON = {AUTH_ESTABLISHING}"
| "LINEAR_TRANSITIONS AUTH_ESTABLISHING = {CRAWLING, FAILED_AUTH}"
| "LINEAR_TRANSITIONS CRAWLING = {SURFACE_MAPPING}"
| "LINEAR_TRANSITIONS SURFACE_MAPPING = {PASSIVE_CHECKS}"
| "LINEAR_TRANSITIONS PASSIVE_CHECKS = {TESTING}"
| "LINEAR_TRANSITIONS TESTING = {VERIFYING}"
| "LINEAR_TRANSITIONS VERIFYING = {TRIAGING}"
| "LINEAR_TRANSITIONS TRIAGING = {REPORTING}"
| "LINEAR_TRANSITIONS REPORTING = {COMPLETE}"
| "LINEAR_TRANSITIONS _ = {}"

datatype machine_error =
    Invalid_Transition scan_state scan_state
  | Invalid_Resume string

record scan_state_machine =
  current :: scan_state
  paused_from :: "scan_state option"
  fail_reason :: "string option"

definition new_machine :: scan_state_machine where
  "new_machine = \<lparr>current = QUEUED, paused_from = None, fail_reason = None\<rparr>"

definition is_terminal :: "scan_state_machine \<Rightarrow> bool" where
  "is_terminal m \<longleftrightarrow> current m \<in> TERMINAL_STATES"

definition can_transition :: "scan_state_machine \<Rightarrow> scan_state \<Rightarrow> bool" where
  "can_transition m target =
     (if is_terminal m then False
      else if target = PAUSED then current m \<noteq> PAUSED
      else if target = CANCELLED \<or> target = FAILED then True
      else target \<in> LINEAR_TRANSITIONS (current m))"

definition transition ::
  "scan_state_machine \<Rightarrow> scan_state \<Rightarrow> string option \<Rightarrow> machine_error + scan_state_machine" where
  "transition m target reason =
     (if \<not> can_transition m target then Inl (Invalid_Transition (current m) target)
      else
        (let m = (if target = PAUSED then m\<lparr>paused_from := Some (current m)\<rparr> else m);
             m = (if target = FAILED then m\<lparr>fail_reason := reason\<rparr> else m)
         in Inr (m\<lparr>current := target\<rparr>)))"

definition resume :: "scan_state_machine \<Rightarrow> machine_error + scan_state_machine" where
  "resume m =
     (if current m \<noteq> PAUSED then Inl (Invalid_Resume
        (''Cannot resume a scan that is not paused (current='' @ [CHR 0x27] @
         scan_state_value (current m) @ [CHR 0x27] @ '').''))
      else case paused_from m of
             None \<Rightarrow> Inl (Invalid_Resume
               ''Paused scan has no recorded pre-pause state to resume into.'')
           | Some s \<Rightarrow> Inr (m\<lparr>current := s, paused_from := None\<rparr>))"

section \<open>The lifecycle order\<close>

text \<open>
  The states in the order a scan goes through them; a branch that ends the scan is ordered
  after the state it leaves from. Every transition but a pause goes up in it.
\<close>

fun state_rank :: "scan_state \<Rightarrow> nat" where
  "state_rank QUEUED = 0"
| "state_rank SCOPE_VERIFYING = 1"
| "state_rank RECON = 2"
| "state_rank AUTH_ESTABLISHING = 3"
| "state_rank CRAWLING = 4"
| "state_rank SURFACE_MAPPING = 5"
| "state_rank PASSIVE_CHECKS = 6"
| "state_rank TESTING = 7"
| "state_rank VERIFYING = 8"
| "state_rank TRIAGING = 9"
| "state_rank REPORTING = 10"
| "state_rank PAUSED = 11"
| "state_rank BLOCKED_UNVERIFIED = 12"
| "state_rank FAILED_AUTH = 13"
| "state_rank COMPLETE = 14"
| "state_rank CANCELLED = 15"
| "state_rank FAILED = 16"

lemma state_rank_inj [simp]: "state_rank a = state_rank b \<longleftrightarrow> a = b"
  by (cases a; cases b) simp_all

instantiation scan_state :: linorder
begin

definition less_eq_scan_state :: "scan_state \<Rightarrow> scan_state \<Rightarrow> bool" where
  "less_eq_scan_state a b \<longleftrightarrow> state_rank a \<le> state_rank b"

definition less_scan_state :: "scan_state \<Rightarrow> scan_state \<Rightarrow> bool" where
  "less_scan_state a b \<longleftrightarrow> state_rank a < state_rank b"

instance
  by standard (auto simp: less_eq_scan_state_def less_scan_state_def)

end

lemmas machine_defs =
  transition_def resume_def can_transition_def is_terminal_def TERMINAL_STATES_def

section \<open>Steps and reachable machines\<close>

text \<open>One successful call on the machine.\<close>

inductive machine_step :: "scan_state_machine \<Rightarrow> scan_state_machine \<Rightarrow> bool" where
  step_transition: "transition m s r = Inr m' \<Longrightarrow> machine_step m m'"
| step_resume: "resume m = Inr m' \<Longrightarrow> machine_step m m'"

inductive_cases machine_stepE: "machine_step m m'"

text \<open>
  What the code keeps true between its three fields: a paused machine remembers a state that
  a scan can be in, and a state in which a scan can be interrupted at that.
\<close>

definition machine_wf :: "scan_state_machine \<Rightarrow> bool" where
  "machine_wf m \<longleftrightarrow>
     (current m = PAUSED \<longrightarrow> (\<exists>s\<in>INTERRUPTIBLE_STATES. paused_from m = Some s)) \<and>
     (\<forall>s. paused_from m = Some s \<longrightarrow> s \<in> INTERRUPTIBLE_STATES)"

lemma interruptible_iff:
  "s \<in> INTERRUPTIBLE_STATES \<longleftrightarrow> s \<notin> TERMINAL_STATES \<and> s \<noteq> PAUSED"
  by (auto simp: INTERRUPTIBLE_STATES_def)

lemma transition_InrD:
  assumes "transition m s r = Inr m'"
  shows "can_transition m s"
    and "current m' = s"
    and "paused_from m' = (if s = PAUSED then Some (current m) else paused_from m)"
    and "fail_reason m' = (if s = FAILED then r else fail_reason m)"
  using assms by (auto simp: transition_def Let_def split: if_splits)

lemma resume_InrD:
  assumes "resume m = Inr m'"
  shows "current m = PAUSED" and "paused_from m = Some (current m')"
    and "paused_from m' = None" and "fail_reason m' = fail_reason m"
  using assms by (auto simp: resume_def split: if_splits option.splits)

lemma machine_step_wf: "machine_wf m \<Longrightarrow> machine_step m m' \<Longrightarrow> machine_wf m'"
proof (elim machine_stepE)
  fix s r
  assume wf: "machine_wf m" and t: "transition m s r = Inr m'"
  have "s = PAUSED \<Longrightarrow> current m \<in> INTERRUPTIBLE_STATES"
    using transition_InrD(1) [OF t] by (auto simp: can_transition_def is_terminal_def interruptible_iff split: if_splits)
  with wf transition_InrD(2,3) [OF t] show ?thesis
    by (auto simp: machine_wf_def)
next
  assume wf: "machine_wf m" and r: "resume m = Inr m'"
  from wf resume_InrD(1-3) [OF r] show ?thesis
    by (auto simp: machine_wf_def interruptible_iff)
qed

interpretation machine_inv: invariant_system "\<lambda>m. m = new_machine" machine_step machine_wf
proof unfold_locales
  show "machine_wf s" if "s = new_machine" for s
    using that by (simp add: new_machine_def machine_wf_def)
qed (rule machine_step_wf)

section \<open>Properties\<close>

text \<open>
  A scan that is paused can be resumed, whatever happened before: \<^verbatim>\<open>resume()\<close> does not
  raise, it returns to the state the scan was in when it was paused, and that state is not
  terminal.
\<close>

lemma paused_scan_resumes:
  assumes "reach (\<lambda>m. m = new_machine) machine_step m" and "current m = PAUSED"
  shows "\<exists>s. paused_from m = Some s \<and> s \<in> INTERRUPTIBLE_STATES \<and>
             resume m = Inr (m\<lparr>current := s, paused_from := None\<rparr>)"
  using machine_inv.reach_inv [OF assms(1)] assms(2)
  by (auto simp: machine_wf_def resume_def)

text \<open>
  The progress of a scan: the state it is in or, while it is paused, the state it will be
  resumed into.
\<close>

definition effective_state :: "scan_state_machine \<Rightarrow> scan_state" where
  "effective_state m =
     (case (current m, paused_from m) of (PAUSED, Some s) \<Rightarrow> s | (s, _) \<Rightarrow> s)"

lemma effective_not_paused [simp]: "current m \<noteq> PAUSED \<Longrightarrow> effective_state m = current m"
  by (cases "current m") (simp_all add: effective_state_def)

lemma effective_paused [simp]:
  "current m = PAUSED \<Longrightarrow> paused_from m = Some s \<Longrightarrow> effective_state m = s"
  by (simp add: effective_state_def)

lemma linear_rank: "t \<in> LINEAR_TRANSITIONS s \<Longrightarrow> s < t"
  by (cases s) (auto simp: less_scan_state_def)

lemma terminal_rank: "s \<notin> TERMINAL_STATES \<Longrightarrow> s < CANCELLED \<and> s < FAILED"
  by (cases s) (simp_all add: TERMINAL_STATES_def less_scan_state_def)

lemma can_transition_up:
  "can_transition m t \<Longrightarrow> t \<noteq> PAUSED \<Longrightarrow> current m < t"
  using terminal_rank [of "current m"]
  by (auto simp: can_transition_def is_terminal_def dest: linear_rank split: if_splits)

lemma paused_targets:
  "current m = PAUSED \<Longrightarrow> can_transition m t \<Longrightarrow> t = CANCELLED \<or> t = FAILED"
  by (auto simp: can_transition_def split: if_splits)

lemma interruptible_below: "s \<in> INTERRUPTIBLE_STATES \<Longrightarrow> s < PAUSED \<and> s < CANCELLED \<and> s < FAILED"
  by (cases s) (auto simp: interruptible_iff TERMINAL_STATES_def less_scan_state_def)

lemma transition_effective_up:
  assumes wf: "machine_wf m" and t: "transition m s r = Inr m'" and s: "s \<noteq> PAUSED"
  shows "effective_state m < effective_state m'"
proof (cases "current m = PAUSED")
  case True
  from wf True obtain u where u: "u \<in> INTERRUPTIBLE_STATES" "paused_from m = Some u"
    by (auto simp: machine_wf_def)
  have "s = CANCELLED \<or> s = FAILED"
    using paused_targets [OF True transition_InrD(1) [OF t]] .
  with True u s show ?thesis
    using interruptible_below [OF u(1)] transition_InrD(2) [OF t] by auto
next
  case False
  with s show ?thesis
    using can_transition_up [OF transition_InrD(1) [OF t] s] transition_InrD(2) [OF t] by simp
qed

text \<open>
  A scan never goes back: along every call on a well-formed machine its progress stays
  the same or goes up, and it stays the same only for a pause and for a resume. With seventeen
  states this bounds the number of other transitions of one scan.
\<close>

lemma scan_progress_monotone:
  assumes "machine_wf m" and "machine_step m m'"
  shows "effective_state m \<le> effective_state m' \<and>
         (effective_state m = effective_state m' \<longleftrightarrow> current m = PAUSED \<and> current m' \<noteq> CANCELLED \<and> current m' \<noteq> FAILED \<or> current m' = PAUSED)"
  using assms(2)
proof (cases rule: machine_step.cases)
  case (step_transition s r)
  show ?thesis
  proof (cases "s = PAUSED")
    case True
    then show ?thesis
      using transition_InrD [OF step_transition]
      by (auto simp: can_transition_def split: if_splits)
  next
    case False
    note up = transition_effective_up [OF assms(1) step_transition False]
    moreover have "current m = PAUSED \<Longrightarrow> current m' = CANCELLED \<or> current m' = FAILED"
      using paused_targets [OF _ transition_InrD(1) [OF step_transition]]
        transition_InrD(2) [OF step_transition] by auto
    ultimately show ?thesis
      using transition_InrD(2) [OF step_transition] False by auto
  qed
next
  case step_resume
  note r = resume_InrD [OF step_resume]
  with assms(1) have "current m' \<in> INTERRUPTIBLE_STATES"
    by (auto simp: machine_wf_def)
  with r show ?thesis by (auto simp: interruptible_iff TERMINAL_STATES_def)
qed

text \<open>The history of a scan: the states its machine has been in, the present one first.\<close>

inductive machine_run :: "scan_state_machine \<Rightarrow> scan_state list \<Rightarrow> bool" where
  run_new: "machine_run new_machine [QUEUED]"
| run_step: "machine_run m h \<Longrightarrow> machine_step m m' \<Longrightarrow> machine_run m' (current m' # h)"

definition lifecycle :: "scan_state list" where
  "lifecycle = [QUEUED, SCOPE_VERIFYING, RECON, AUTH_ESTABLISHING, CRAWLING, SURFACE_MAPPING,
     PASSIVE_CHECKS, TESTING, VERIFYING, TRIAGING, REPORTING, COMPLETE]"

text \<open>The lifecycle states up to \<open>s\<close>, none for a state off the main line.\<close>

definition passed :: "scan_state \<Rightarrow> scan_state set" where
  "passed s = (if s \<in> set lifecycle then {t \<in> set lifecycle. t \<le> s} else {})"

lemma passed_linear: "t \<in> LINEAR_TRANSITIONS s \<Longrightarrow> passed t \<subseteq> insert t (passed s)"
  by (cases s; cases t) (auto simp: passed_def lifecycle_def less_eq_scan_state_def)

lemma passed_interrupt: "passed CANCELLED = {}" "passed FAILED = {}"
  by (simp_all add: passed_def lifecycle_def)

lemma machine_run_reach: "machine_run m h \<Longrightarrow> machine_wf m"
proof (induction rule: machine_run.induct)
  case run_new
  then show ?case by (simp add: machine_wf_def new_machine_def)
qed (rule machine_step_wf)

lemma machine_run_passed: "machine_run m h \<Longrightarrow> passed (effective_state m) \<subseteq> set h"
proof (induction rule: machine_run.induct)
  case run_new
  then show ?case by (auto simp: passed_def lifecycle_def new_machine_def less_eq_scan_state_def)
next
  case (run_step m h m')
  note wf = machine_run_reach [OF run_step.hyps(1)]
  from run_step.hyps(2) show ?case
  proof (cases rule: machine_step.cases)
    case (step_transition s r)
    note t = transition_InrD [OF step_transition]
    consider "s = PAUSED" | "s = CANCELLED \<or> s = FAILED"
      | "s \<noteq> PAUSED" "s \<in> LINEAR_TRANSITIONS (current m)"
      using t(1) by (auto simp: can_transition_def split: if_splits)
    then show ?thesis
    proof cases
      case 1
      with t run_step.IH show ?thesis by (auto simp: can_transition_def split: if_splits)
    next
      case 2
      with t(2) show ?thesis by (auto simp: passed_interrupt)
    next
      case 3
      from 3(2) have "current m \<noteq> PAUSED" by auto
      with 3 t(2) passed_linear [OF 3(2)] run_step.IH show ?thesis by auto
    qed
  next
    case step_resume
    note r = resume_InrD [OF step_resume]
    with wf have "current m' \<noteq> PAUSED" by (auto simp: machine_wf_def interruptible_iff)
    with r run_step.IH show ?thesis by auto
  qed
qed

text \<open>A run along the table of linear transitions.\<close>

fun linear_path :: "scan_state \<Rightarrow> scan_state list \<Rightarrow> bool" where
  "linear_path s [] = True"
| "linear_path s (t # ts) = (t \<in> LINEAR_TRANSITIONS s \<and> linear_path t ts)"

lemma linear_not_terminal: "t \<in> LINEAR_TRANSITIONS s \<Longrightarrow> s \<notin> TERMINAL_STATES"
  by (cases s) (auto simp: TERMINAL_STATES_def)

lemma linear_targets: "t \<in> LINEAR_TRANSITIONS s \<Longrightarrow> t \<noteq> PAUSED \<and> t \<noteq> CANCELLED \<and> t \<noteq> FAILED"
  by (cases s) auto

lemma machine_run_linear:
  "machine_run (new_machine\<lparr>current := s\<rparr>) h \<Longrightarrow> linear_path s ts \<Longrightarrow>
     machine_run (new_machine\<lparr>current := last (s # ts)\<rparr>) (rev ts @ h)"
proof (induction ts arbitrary: s h)
  case Nil
  then show ?case by simp
next
  case (Cons t ts)
  from Cons.prems(2) have t: "t \<in> LINEAR_TRANSITIONS s" and ts: "linear_path t ts"
    by simp_all
  have "transition (new_machine\<lparr>current := s\<rparr>) t None = Inr (new_machine\<lparr>current := t\<rparr>)"
    using t linear_targets [OF t] linear_not_terminal [OF t]
    by (simp add: transition_def can_transition_def is_terminal_def)
  from run_step [OF Cons.prems(1) step_transition [OF this]]
  have "machine_run (new_machine\<lparr>current := t\<rparr>) (t # h)" by simp
  from Cons.IH [OF this ts] show ?case by (simp split: if_splits)
qed

text \<open>
  C10. No shortcut to success: the history of a scan whose state is COMPLETE holds every state
  of the lifecycle, so it went through scope verification, every testing state and the
  verifier, with pauses and resumes allowed anywhere.
\<close>

theorem complete_scan_went_through_lifecycle:
  assumes "machine_run m h" and "current m = COMPLETE"
  shows "set lifecycle \<subseteq> set h"
proof -
  have "t \<le> COMPLETE" if "t \<in> set lifecycle" for t
    using that by (auto simp: lifecycle_def less_eq_scan_state_def)
  moreover have "COMPLETE \<in> set lifecycle" by (simp add: lifecycle_def)
  ultimately have "passed COMPLETE = set lifecycle"
    unfolding passed_def by auto
  then show ?thesis using machine_run_passed [OF assms(1)] assms(2) by simp
qed

theorem complete_scan_went_through_lifecycle_witness:
  "\<exists>m h. machine_run m h \<and> current m = COMPLETE \<and> set lifecycle \<subseteq> set h"
proof -
  let ?m = "new_machine\<lparr>current := COMPLETE\<rparr>"
  have "machine_run (new_machine\<lparr>current := QUEUED\<rparr>) [QUEUED]"
    using run_new by (simp add: new_machine_def)
  from machine_run_linear [OF this, of "tl lifecycle"]
  have run: "machine_run ?m (rev lifecycle)"
    by (simp add: lifecycle_def)
  from complete_scan_went_through_lifecycle [OF run] run show ?thesis
    by (intro exI [of _ ?m] exI [of _ "rev lifecycle"]) simp
qed

text \<open>
  Terminal states are final: no call on a machine in one of them succeeds, and
  \<^verbatim>\<open>transition\<close> raises \<^verbatim>\<open>InvalidTransition\<close> with the two states.
\<close>

lemma terminal_states_final:
  "is_terminal m \<Longrightarrow>
     transition m s r = Inl (Invalid_Transition (current m) s) \<and> \<not> machine_step m m'"
proof -
  assume t: "is_terminal m"
  then have no: "transition m s r = Inl (Invalid_Transition (current m) s)" for s r
    by (simp add: transition_def can_transition_def)
  have "current m \<noteq> PAUSED"
    using t by (auto simp: is_terminal_def TERMINAL_STATES_def)
  with no have "\<not> machine_step m m'"
    by (auto simp: resume_def elim!: machine_stepE)
  with no show ?thesis by blast
qed

end
