(* ===== verification/Py_Strings.thy ===== *)
theory Py_Strings
  imports Prelude
begin

text \<open>
  The Python string operations the program uses. A \<^typ>\<open>string\<close> is a Python \<^verbatim>\<open>str\<close> whose code
  points are below 256, one \<^typ>\<open>char\<close> per code point; request and response bodies, where any
  code point occurs, are lists of code points instead (theory \<open>Utf8\<close>). \<open>lower\<close>, \<open>strip\<close>,
  \<open>splitlines\<close> and the word characters of regular expressions are exact on this range;
  \<open>upper\<close> is exact but for the two characters whose upper case lies outside it (the micro
  sign and y with diaeresis), which it leaves unchanged.
\<close>

section \<open>Case\<close>

abbreviation ord :: "char \<Rightarrow> nat" where
  "ord c \<equiv> of_char c"

definition lower_char :: "char \<Rightarrow> char" where
  "lower_char c =
     (let n = ord c in
      if 65 \<le> n \<and> n \<le> 90 \<or> 192 \<le> n \<and> n \<le> 222 \<and> n \<noteq> 215 then char_of (n + 32) else c)"

definition lower :: "string \<Rightarrow> string" where
  "lower s = map lower_char s"

definition upper_char :: "char \<Rightarrow> string" where
  "upper_char c =
     (let n = ord c in
      if n = 223 then ''SS''
      else if 97 \<le> n \<and> n \<le> 122 \<or> 224 \<le> n \<and> n \<le> 254 \<and> n \<noteq> 247 then [char_of (n - 32)]
      else [c])"

definition upper :: "string \<Rightarrow> string" where
  "upper s = concat (map upper_char s)"

lemma ord_bound: "ord c < 256"
  by simp

lemma ord_lower_char:
  "ord (lower_char c) =
     (if 65 \<le> ord c \<and> ord c \<le> 90 \<or> 192 \<le> ord c \<and> ord c \<le> 222 \<and> ord c \<noteq> 215
      then ord c + 32 else ord c)"
  by (simp add: lower_char_def Let_def)

lemma lower_char_idem [simp]: "lower_char (lower_char c) = lower_char c"
proof -
  have "ord (lower_char (lower_char c)) = ord (lower_char c)"
    by (auto simp: ord_lower_char)
  then show ?thesis by (metis char_of_char)
qed

lemma lower_idem [simp]: "lower (lower s) = lower s"
  by (simp add: lower_def)

lemma lower_append [simp]: "lower (a @ b) = lower a @ lower b"
  by (simp add: lower_def)

lemma length_lower [simp]: "length (lower s) = length s"
  by (simp add: lower_def)

lemma lower_char_dot [simp]: "lower_char c = CHR ''.'' \<longleftrightarrow> c = CHR ''.''"
proof -
  have "ord (lower_char c) = ord (CHR ''.'') \<longleftrightarrow> ord c = ord (CHR ''.'')"
    by (auto simp: ord_lower_char)
  then show ?thesis by (metis char_of_char)
qed

lemma upper_char_idem: "upper (upper_char c) = upper_char c"
  by (auto simp: upper_char_def upper_def Let_def of_char_of mod_less)

lemma upper_idem [simp]: "upper (upper s) = upper s"
proof (induction s)
  case Nil
  then show ?case by (simp add: upper_def)
next
  case (Cons c s)
  have "upper (c # s) = upper_char c @ upper s" for c s by (simp add: upper_def)
  moreover have "upper (a @ b) = upper a @ upper b" for a b by (simp add: upper_def)
  ultimately show ?case using Cons.IH upper_char_idem [of c] by simp
qed

section \<open>Stripping, splitting and joining\<close>

definition rstrip_by :: "('a \<Rightarrow> bool) \<Rightarrow> 'a list \<Rightarrow> 'a list" where
  "rstrip_by P s = rev (dropWhile P (rev s))"

definition lstrip_by :: "('a \<Rightarrow> bool) \<Rightarrow> 'a list \<Rightarrow> 'a list" where
  "lstrip_by P s = dropWhile P s"

definition is_space :: "char \<Rightarrow> bool" where
  "is_space c = (let n = ord c in
     9 \<le> n \<and> n \<le> 13 \<or> 28 \<le> n \<and> n \<le> 32 \<or> n = 133 \<or> n = 160)"

definition strip :: "string \<Rightarrow> string" where
  "strip s = rstrip_by is_space (lstrip_by is_space s)"

lemma rstrip_by_last: "rstrip_by P s = [] \<or> \<not> P (last (rstrip_by P s))"
  using hd_dropWhile [of P "rev s"]
  by (cases "dropWhile P (rev s) = []") (simp_all add: rstrip_by_def last_rev del: dropWhile_eq_Nil_conv)

lemma rstrip_by_prefix: "prefix (rstrip_by P s) s"
  unfolding rstrip_by_def
  by (metis rev_rev_ident suffix_dropWhile suffix_to_prefix)

lemma rstrip_by_id: "s \<noteq> [] \<Longrightarrow> \<not> P (last s) \<Longrightarrow> rstrip_by P s = s"
  by (cases s rule: rev_cases) (simp_all add: rstrip_by_def)

text \<open>\<^verbatim>\<open>s.split(sep, 1)\<close> and \<^verbatim>\<open>s.partition(sep)\<close> for a one-character separator.\<close>

definition before :: "'a \<Rightarrow> 'a list \<Rightarrow> 'a list" where
  "before c s = takeWhile (\<lambda>x. x \<noteq> c) s"

definition after :: "'a \<Rightarrow> 'a list \<Rightarrow> 'a list" where
  "after c s = tl (dropWhile (\<lambda>x. x \<noteq> c) s)"

text \<open>The last element of \<^verbatim>\<open>s.rpartition(sep)\<close>: all of \<open>s\<close> if there is no separator.\<close>

definition after_last :: "'a \<Rightarrow> 'a list \<Rightarrow> 'a list" where
  "after_last c s = rev (takeWhile (\<lambda>x. x \<noteq> c) (rev s))"

text \<open>\<^verbatim>\<open>s.split(sep)\<close> and \<^verbatim>\<open>sep.join(parts)\<close>.\<close>

fun split_on :: "'a \<Rightarrow> 'a list \<Rightarrow> 'a list list" where
  "split_on c [] = [[]]"
| "split_on c (x # xs) =
     (if x = c then [] # split_on c xs
      else case split_on c xs of [] \<Rightarrow> [[x]] | w # ws \<Rightarrow> (x # w) # ws)"

fun join :: "'a list \<Rightarrow> 'a list list \<Rightarrow> 'a list" where
  "join sep [] = []"
| "join sep [w] = w"
| "join sep (w # ws) = w @ sep @ join sep ws"

lemma split_on_ne [simp]: "split_on c s \<noteq> []"
  by (cases s) (auto split: list.splits)

lemma join_Cons: "ws \<noteq> [] \<Longrightarrow> join sep (w # ws) = w @ sep @ join sep ws"
  by (cases ws) auto

lemma join_split_on: "join [c] (split_on c s) = s"
proof (induction s)
  case (Cons x s)
  obtain w ws where w: "split_on c s = w # ws"
    by (metis neq_Nil_conv split_on_ne)
  have "join [c] ((x # w) # ws) = x # join [c] (w # ws)"
    by (cases ws) simp_all
  with Cons.IH w show ?case by (simp add: join_Cons)
qed simp

lemma split_on_no_sep: "w \<in> set (split_on c s) \<Longrightarrow> c \<notin> set w"
  by (induction s arbitrary: w) (auto split: if_splits list.splits)

lemma split_on_notin: "c \<notin> set w \<Longrightarrow> split_on c w = [w]"
  by (induction w) auto

lemma split_on_append_sep: "c \<notin> set w \<Longrightarrow> split_on c (w @ c # s) = w # split_on c s"
  by (induction w) auto

lemma split_on_join:
  "ws \<noteq> [] \<Longrightarrow> (\<And>w. w \<in> set ws \<Longrightarrow> c \<notin> set w) \<Longrightarrow> split_on c (join [c] ws) = ws"
proof (induction ws)
  case (Cons w ws)
  then show ?case
    by (cases "ws = []") (simp_all add: join_Cons split_on_notin split_on_append_sep)
qed simp

text \<open>\<^verbatim>\<open>s.splitlines()\<close>; CR followed by LF is one boundary.\<close>

definition is_linebreak :: "char \<Rightarrow> bool" where
  "is_linebreak c = (let n = ord c in 10 \<le> n \<and> n \<le> 13 \<or> 28 \<le> n \<and> n \<le> 30 \<or> n = 133)"

fun splitlines_acc :: "string \<Rightarrow> string \<Rightarrow> string list" where
  "splitlines_acc acc [] = (if acc = [] then [] else [rev acc])"
| "splitlines_acc acc (c # cs) =
     (if c = CHR 0x0D then
        (case cs of
           d # ds \<Rightarrow> if d = CHR 0x0A then rev acc # splitlines_acc [] ds
                     else rev acc # splitlines_acc [] cs
         | [] \<Rightarrow> [rev acc])
      else if is_linebreak c then rev acc # splitlines_acc [] cs
      else splitlines_acc (c # acc) cs)"

definition splitlines :: "string \<Rightarrow> string list" where
  "splitlines s = splitlines_acc [] s"

section \<open>Showing strings and numbers\<close>

definition hex_digit :: "nat \<Rightarrow> char" where
  "hex_digit n = (if n < 10 then char_of (48 + n) else char_of (87 + n))"

text \<open>\<^verbatim>\<open>repr(s)\<close>.\<close>

definition repr_char :: "char \<Rightarrow> char \<Rightarrow> string" where
  "repr_char q c =
     (let n = ord c in
      if c = q \<or> c = CHR 0x5C then [CHR 0x5C, c]
      else if n = 9 then [CHR 0x5C, CHR ''t'']
      else if n = 10 then [CHR 0x5C, CHR ''n'']
      else if n = 13 then [CHR 0x5C, CHR ''r'']
      else if n < 32 \<or> 127 \<le> n \<and> n \<le> 160 \<or> n = 173
        then [CHR 0x5C, CHR ''x'', hex_digit (n div 16), hex_digit (n mod 16)]
      else [c])"

definition py_repr :: "string \<Rightarrow> string" where
  "py_repr s =
     (let q = (if CHR 0x27 \<in> set s \<and> CHR 0x22 \<notin> set s then CHR 0x22 else CHR 0x27)
      in [q] @ concat (map (repr_char q) s) @ [q])"

text \<open>\<^verbatim>\<open>str(xs)\<close> for a list of strings.\<close>

definition py_repr_list :: "string list \<Rightarrow> string" where
  "py_repr_list xs = ''['' @ join '', '' (map py_repr xs) @ '']''"

text \<open>\<^verbatim>\<open>str(n)\<close>.\<close>

fun show_nat :: "nat \<Rightarrow> string" where
  "show_nat n = (if n < 10 then [char_of (48 + n)] else show_nat (n div 10) @ [char_of (48 + n mod 10)])"

declare show_nat.simps [simp del]

definition show_int :: "int \<Rightarrow> string" where
  "show_int i = (if i < 0 then CHR ''-'' # show_nat (nat (- i)) else show_nat (nat i))"

fun read_nat :: "string \<Rightarrow> nat \<Rightarrow> nat" where
  "read_nat [] n = n"
| "read_nat (c # cs) n = read_nat cs (10 * n + (ord c - 48))"

lemma read_nat_append: "read_nat (a @ b) n = read_nat b (read_nat a n)"
  by (induction a arbitrary: n) simp_all

lemma read_show_nat: "read_nat (show_nat n) 0 = n"
proof (induction n rule: show_nat.induct)
  case (1 n)
  then show ?case
    by (subst show_nat.simps) (simp add: read_nat_append of_char_of)
qed

lemma show_nat_inj [simp]: "show_nat a = show_nat b \<longleftrightarrow> a = b"
  by (metis read_show_nat)

lemma show_nat_digits: "c \<in> set (show_nat n) \<Longrightarrow> 48 \<le> ord c \<and> ord c \<le> 57"
proof (induction n rule: show_nat.induct)
  case (1 n)
  then show ?case
    by (subst (asm) (2) show_nat.simps) (auto simp: of_char_of split: if_splits)
qed

lemma show_nat_ne [simp]: "show_nat n \<noteq> []"
  by (subst show_nat.simps) simp

lemma show_int_inj [simp]: "show_int a = show_int b \<longleftrightarrow> a = b"
proof -
  have minus: "CHR ''-'' # s \<noteq> show_nat n" for s n
  proof
    assume "CHR ''-'' # s = show_nat n"
    then have "CHR ''-'' \<in> set (show_nat n)" by (metis list.set_intros(1))
    from show_nat_digits [OF this] show False by simp
  qed
  then have "show_nat n \<noteq> CHR ''-'' # s" for s n by (metis minus)
  with minus show ?thesis by (auto simp: show_int_def)
qed

section \<open>Replacing\<close>

text \<open>\<^verbatim>\<open>s.replace(old, new)\<close> for a nonempty \<open>old\<close>: left to right, without overlaps.\<close>

function replace_ne :: "'a list \<Rightarrow> 'a list \<Rightarrow> 'a list \<Rightarrow> 'a list" where
  "replace_ne old new [] = []"
| "replace_ne old new (c # cs) =
     (if old \<noteq> [] \<and> prefix old (c # cs)
      then new @ replace_ne old new (drop (length old) (c # cs))
      else c # replace_ne old new cs)"
  by pat_completeness auto
termination
  by (relation "measure (\<lambda>(old, new, s). length s)") (auto simp: length_greater_0_conv [symmetric] simp del: length_greater_0_conv)

declare replace_ne.simps(2) [simp del]

text \<open>
  Replacing by a marker that opens with \<open>l\<close> and closes with \<open>r\<close>: a text without these two
  characters occurs in the result only if it occurs in the marker or in the original, and
  the replaced text itself only if it occurs in the marker.
\<close>

lemma sublist_sep:
  "sublist p (xs @ c # ys) \<Longrightarrow> c \<notin> set p \<Longrightarrow> sublist p xs \<or> sublist p ys"
proof -
  assume "sublist p (xs @ c # ys)" and c: "c \<notin> set p"
  then obtain ps ss where eq: "xs @ c # ys = ps @ p @ ss"
    by (auto simp: sublist_def)
  then consider us where "xs @ us = ps" "c # ys = us @ p @ ss"
    | us where "xs = ps @ us" "us @ c # ys = p @ ss"
    by (auto simp: append_eq_append_conv2)
  then show ?thesis
  proof cases
    case 1
    then show ?thesis
      using c by (cases us; cases p) (auto simp: sublist_def)
  next
    case 2
    from 2(2) consider vs where "us = p @ vs" | vs where "us @ vs = p" "c # ys = vs @ ss"
      by (auto simp: append_eq_append_conv2)
    then show ?thesis
    proof cases
      case 1
      with 2(1) show ?thesis by (auto simp: sublist_def)
    next
      case (2 vs)
      with c \<open>xs = ps @ us\<close> have "xs = ps @ p @ []" by (cases vs) auto
      then show ?thesis unfolding sublist_def by blast
    qed
  qed
qed

lemma sublist_marker:
  assumes "sublist p ((l # mid @ [r]) @ rest)" and "l \<notin> set p" and "r \<notin> set p" and "p \<noteq> []"
  shows "sublist p mid \<or> sublist p rest"
proof -
  have "sublist p ([] @ l # (mid @ r # rest))" using assms(1) by simp
  from sublist_sep [OF this assms(2)] assms(4) have "sublist p (mid @ r # rest)" by auto
  from sublist_sep [OF this assms(3)] show ?thesis .
qed

lemma prefix_replace_ne:
  "prefix p (replace_ne old (l # m) s) \<Longrightarrow> l \<notin> set p \<Longrightarrow> prefix p s"
proof (induction s arbitrary: p)
  case (Cons c cs)
  show ?case
  proof (cases "old \<noteq> [] \<and> prefix old (c # cs)")
    case True
    with Cons.prems have "p = []"
      by (cases p) (simp_all add: replace_ne.simps(2))
    then show ?thesis by simp
  next
    case False
    with Cons.prems have "prefix p (c # replace_ne old (l # m) cs)"
      by (auto simp: replace_ne.simps(2))
    then show ?thesis
      using Cons.IH Cons.prems(2) by (cases p) auto
  qed
qed simp

lemma sublist_replace_ne:
  assumes "sublist p (replace_ne old (l # mid @ [r]) s)"
    and "l \<notin> set p" and "r \<notin> set p" and "p \<noteq> []"
  shows "sublist p mid \<or> sublist p s \<and> p \<noteq> old"
  using assms(1)
proof (induction old "l # mid @ [r]" s rule: replace_ne.induct)
  case (1 old)
  with assms(4) show ?case by simp
next
  case (2 old c cs)
  show ?case
  proof (cases "old \<noteq> [] \<and> prefix old (c # cs)")
    case True
    with 2(3) have "sublist p ((l # mid @ [r]) @ replace_ne old (l # mid @ [r]) (drop (length old) (c # cs)))"
      by (simp add: replace_ne.simps(2))
    from sublist_marker [OF this assms(2-4)] 2(1) [OF True]
    show ?thesis
      by (meson sublist_order.order.trans sublist_drop)
  next
    case False
    then have eq: "replace_ne old (l # mid @ [r]) (c # cs) = c # replace_ne old (l # mid @ [r]) cs"
      by (simp only: replace_ne.simps(2) if_not_P if_False)
    from 2(3) consider "prefix p (replace_ne old (l # mid @ [r]) (c # cs))"
      | "sublist p (replace_ne old (l # mid @ [r]) cs)"
      unfolding eq by (auto simp: sublist_Cons_right)
    then show ?thesis
    proof cases
      case 1
      then have "prefix p (c # cs)" by (rule prefix_replace_ne) (rule assms(2))
      with False assms(4) show ?thesis by (auto simp: prefix_imp_sublist)
    next
      case 2
      from "2.hyps"(2) [OF False this] show ?thesis by (auto simp: sublist_Cons_right)
    qed
  qed
qed

end
