(* ===== verification/Urls.thy ===== *)
theory Urls
  imports Py_Strings Complex_Main
begin

text \<open>
  \<^verbatim>\<open>urllib.parse.urlsplit\<close> and the \<^verbatim>\<open>hostname\<close> attribute of its result, which the scope guard,
  the destructive-action guard, the crawler and the surface mapper all use to read a URL.

  The record \<open>py_lib\<close> holds the library functions the model takes as parameters: compiling a
  regular expression that the customer wrote (a \<open>path_regex\<close> scope rule, an extra destructive
  pattern), where \<open>None\<close> is \<^verbatim>\<open>re.error\<close>, the check of a bracketed IPv6 host, the Unicode
  database's answer which code points from 256 on are word characters, and the shortest
  decimal text of a float.
\<close>

record py_lib =
  re_compile :: "string \<Rightarrow> (string \<Rightarrow> bool) option"
  re_icompile :: "string \<Rightarrow> (string \<Rightarrow> bool) option"
  bracketed_netloc_ok :: "string \<Rightarrow> bool"
  unicode_word :: "nat \<Rightarrow> bool"
  float_repr :: "rat \<Rightarrow> string"

record split_result =
  url_scheme :: string
  url_netloc :: string
  url_path :: string
  url_query :: string
  url_fragment :: string

definition scheme_char :: "char \<Rightarrow> bool" where
  "scheme_char c = (let n = ord c in
     48 \<le> n \<and> n \<le> 57 \<or> 65 \<le> n \<and> n \<le> 90 \<or> 97 \<le> n \<and> n \<le> 122 \<or> c \<in> set ''+-.'')"

definition ascii_alpha :: "char \<Rightarrow> bool" where
  "ascii_alpha c = (let n = ord c in 65 \<le> n \<and> n \<le> 90 \<or> 97 \<le> n \<and> n \<le> 122)"

definition unsafe_url_char :: "char \<Rightarrow> bool" where
  "unsafe_url_char c \<longleftrightarrow> ord c \<in> {9, 10, 13}"

text \<open>The scheme and the rest of the URL.\<close>

definition split_scheme :: "string \<Rightarrow> string \<times> string" where
  "split_scheme url =
     (let i = before CHR '':'' url in
      if CHR '':'' \<in> set url \<and> i \<noteq> [] \<and> ascii_alpha (hd i) \<and> list_all scheme_char i
      then (lower i, after CHR '':'' url) else ([], url))"

definition netloc_end :: "char \<Rightarrow> bool" where
  "netloc_end c \<longleftrightarrow> c \<in> set ''/?#''"

definition split_netloc :: "string \<Rightarrow> string \<times> string" where
  "split_netloc url =
     (if take 2 url = ''//''
      then (takeWhile (\<lambda>c. \<not> netloc_end c) (drop 2 url), dropWhile (\<lambda>c. \<not> netloc_end c) (drop 2 url))
      else ([], url))"

definition netloc_ok :: "py_lib \<Rightarrow> string \<Rightarrow> bool" where
  "netloc_ok py n =
     (let op = CHR ''['' \<in> set n; cl = CHR '']'' \<in> set n
      in op = cl \<and> (op \<longrightarrow> bracketed_netloc_ok py n))"

definition urlsplit :: "py_lib \<Rightarrow> string \<Rightarrow> split_result res" where
  "urlsplit py url0 =
     (let url = filter (\<lambda>c. \<not> unsafe_url_char c) (lstrip_by (\<lambda>c. ord c \<le> 32) url0);
          (scheme, url) = split_scheme url;
          (netloc, url) = split_netloc url;
          fragment = (if CHR ''#'' \<in> set url then after CHR ''#'' url else []);
          url = before CHR ''#'' url;
          query = (if CHR ''?'' \<in> set url then after CHR ''?'' url else []);
          path = before CHR ''?'' url
      in if netloc_ok py netloc
         then Inr \<lparr>url_scheme = scheme, url_netloc = netloc, url_path = path,
                   url_query = query, url_fragment = fragment\<rparr>
         else Inl (Value_Error ''Invalid IPv6 URL''))"

text \<open>\<^verbatim>\<open>parts.hostname or ""\<close>.\<close>

definition hostname :: "split_result \<Rightarrow> string" where
  "hostname u =
     (let hostinfo = after_last CHR ''@'' (url_netloc u);
          h = (if CHR ''['' \<in> set hostinfo
               then before CHR '']'' (after CHR ''['' hostinfo)
               else before CHR '':'' hostinfo)
      in lower (before CHR ''%'' h) @ dropWhile (\<lambda>c. c \<noteq> CHR ''%'') h)"

text \<open>Library parameters for the examples: no customer pattern compiles.\<close>

definition no_lib :: py_lib where
  "no_lib = \<lparr>re_compile = (\<lambda>_. None), re_icompile = (\<lambda>_. None), bracketed_netloc_ok = (\<lambda>_. True),
     unicode_word = (\<lambda>_. False), float_repr = (\<lambda>_. ''0.0'')\<rparr>"

section \<open>Plain URLs\<close>

text \<open>
  A plain host has no character that delimits a part of a URL, so that the URL the program
  builds from it has it as its host. A plain network location may have user information and
  a port as well.
\<close>

definition plain_host :: "string \<Rightarrow> bool" where
  "plain_host d \<longleftrightarrow> list_all (\<lambda>c. 32 < ord c \<and> c \<notin> set ''/?#@:[]%'') d"

definition plain_netloc :: "string \<Rightarrow> bool" where
  "plain_netloc d \<longleftrightarrow> list_all (\<lambda>c. 32 < ord c \<and> c \<notin> set ''/?#[]'') d"

definition plain_path :: "string \<Rightarrow> bool" where
  "plain_path p \<longleftrightarrow> list_all (\<lambda>c. 32 < ord c \<and> c \<notin> set ''?#'') p"

lemma plain_host_netloc: "plain_host d \<Longrightarrow> plain_netloc d"
  by (auto simp: plain_host_def plain_netloc_def list_all_iff)

lemma plain_netloc_append [simp]: "plain_netloc (a @ b) \<longleftrightarrow> plain_netloc a \<and> plain_netloc b"
  by (simp add: plain_netloc_def)

lemma takeWhile_all: "(\<And>c. c \<in> set d \<Longrightarrow> P c) \<Longrightarrow> \<not> P x \<Longrightarrow> takeWhile P (d @ x # s) = d"
  by (induction d) auto

lemma dropWhile_all: "(\<And>c. c \<in> set d \<Longrightarrow> P c) \<Longrightarrow> \<not> P x \<Longrightarrow> dropWhile P (d @ x # s) = x # s"
  by (induction d) auto

lemma before_id [simp]: "c \<notin> set s \<Longrightarrow> before c s = s"
  by (auto simp: before_def takeWhile_eq_all_conv)

lemma after_last_id [simp]: "c \<notin> set s \<Longrightarrow> after_last c s = s"
proof -
  assume "c \<notin> set s"
  then have "takeWhile (\<lambda>x. x \<noteq> c) (rev s) = rev s"
    by (auto simp: takeWhile_eq_all_conv)
  then show ?thesis unfolding after_last_def by (simp only: rev_rev_ident)
qed

lemma plain_hostD: "plain_host d \<Longrightarrow> c \<in> set d \<Longrightarrow> 32 < ord c \<and> c \<notin> set ''/?#@:[]%''"
  by (auto simp: plain_host_def list_all_iff)

lemma plain_host_parts:
  assumes "plain_host d"
  shows "CHR ''@'' \<notin> set d" "CHR '':'' \<notin> set d" "CHR ''['' \<notin> set d" "CHR '']'' \<notin> set d"
    "CHR ''%'' \<notin> set d" "CHR ''/'' \<notin> set d" "CHR ''?'' \<notin> set d" "CHR ''#'' \<notin> set d"
  by (auto dest: plain_hostD [OF assms])

lemma plain_netlocD: "plain_netloc d \<Longrightarrow> c \<in> set d \<Longrightarrow> 32 < ord c \<and> c \<notin> set ''/?#[]''"
  by (auto simp: plain_netloc_def list_all_iff)

lemma plain_netloc_brackets:
  assumes "plain_netloc d"
  shows "CHR ''['' \<notin> set d" "CHR '']'' \<notin> set d"
  by (auto dest: plain_netlocD [OF assms])

text \<open>The clean-up at the start of \<^verbatim>\<open>urlsplit\<close> leaves a URL without control characters alone.\<close>

definition printable :: "string \<Rightarrow> bool" where
  "printable s \<longleftrightarrow> list_all (\<lambda>c. 32 < ord c) s"

lemma printable_append [simp]: "printable (a @ b) \<longleftrightarrow> printable a \<and> printable b"
  by (simp add: printable_def)

lemma printable_plain: "plain_netloc d \<Longrightarrow> printable d" "plain_path p \<Longrightarrow> printable p"
  by (auto simp: printable_def plain_netloc_def plain_path_def list_all_iff)

lemma printable_clean:
  assumes "printable s"
  shows "filter (\<lambda>c. \<not> unsafe_url_char c) (lstrip_by (\<lambda>c. ord c \<le> 32) s) = s"
proof -
  have big: "32 < ord c" if "c \<in> set s" for c
    using assms that by (auto simp: printable_def list_all_iff)
  then have "lstrip_by (\<lambda>c. ord c \<le> 32) s = s"
    by (cases s) (force simp: lstrip_by_def)+
  moreover have "filter (\<lambda>c. \<not> unsafe_url_char c) s = s"
    by (rule filter_True) (auto simp: unsafe_url_char_def dest!: big)
  ultimately show ?thesis by simp
qed

lemma split_scheme_https: "split_scheme (''https:'' @ s) = (''https'', s)"
  by (simp add: split_scheme_def before_def after_def ascii_alpha_def scheme_char_def lower_def lower_char_def Let_def)

lemma urlsplit_https:
  assumes d: "plain_netloc d" and p: "plain_path p"
  shows "urlsplit py (''https://'' @ d @ ''/'' @ p) =
           Inr \<lparr>url_scheme = ''https'', url_netloc = d, url_path = ''/'' @ p,
                url_query = [], url_fragment = []\<rparr>"
proof -
  let ?u = "''https://'' @ d @ ''/'' @ p"
  have "printable ''https://''" "printable ''/''" by (simp_all add: printable_def)
  with printable_plain(1) [OF d] printable_plain(2) [OF p] have "printable ?u"
    by (simp only: printable_append simp_thms)
  note strip = printable_clean [OF this]
  have ne: "\<not> netloc_end c" if "c \<in> set d" for c
    using plain_netlocD [OF d that] by (auto simp: netloc_end_def)
  have netloc: "split_netloc (''//'' @ d @ ''/'' @ p) = (d, ''/'' @ p)"
    using takeWhile_all [of d "\<lambda>c. \<not> netloc_end c" "CHR ''/''" p]
      dropWhile_all [of d "\<lambda>c. \<not> netloc_end c" "CHR ''/''" p] ne
    by (simp add: split_netloc_def netloc_end_def)
  have "CHR ''#'' \<notin> set (''/'' @ p)" "CHR ''?'' \<notin> set (''/'' @ p)"
    using p by (auto simp: plain_path_def list_all_iff)
  moreover have "netloc_ok py d"
    using plain_netloc_brackets [OF d] by (simp add: netloc_ok_def)
  ultimately show ?thesis
    using split_scheme_https [of "''//'' @ d @ ''/'' @ p"] netloc
    unfolding urlsplit_def strip by (simp add: Let_def)
qed

lemma after_last_append: "c \<notin> set d \<Longrightarrow> after_last c (a @ c # d) = d"
proof -
  assume "c \<notin> set d"
  then have "takeWhile (\<lambda>x. x \<noteq> c) (rev d @ c # rev a) = rev d"
    by (intro takeWhile_all) auto
  then show ?thesis unfolding after_last_def by simp
qed

lemma hostname_userinfo:
  "plain_host d \<Longrightarrow> url_netloc u = a @ ''@'' @ d \<Longrightarrow> hostname u = lower d"
  using plain_host_parts [of d] by (auto simp: hostname_def Let_def after_last_append dropWhile_eq_Nil_conv)

lemma hostname_plain: "plain_host d \<Longrightarrow> url_netloc u = d \<Longrightarrow> hostname u = lower d"
  using plain_host_parts [of d] by (auto simp: hostname_def Let_def dropWhile_eq_Nil_conv)

end
