(* ===== verification/Scope_Guard.thy ===== *)
theory Scope_Guard
  imports Urls
begin

text \<open>
  The pre-flight check of every outbound request:
  \<^verbatim>\<open>packages/core/src/sentinel_core/scope_guard/models.py\<close> and \<^verbatim>\<open>guard.py\<close>. Rules and
  decisions are the source's data classes; \<open>evaluate\<close> is \<^verbatim>\<open>ScopeGuard.evaluate\<close>, with a
  result \<open>Inl\<close> where \<^verbatim>\<open>urlsplit\<close> or the compilation of a customer's regular expression
  raises. The locale \<open>outbound_policy\<close> is what the HTTP engine and the crawler rely on.
\<close>

section \<open>Rules, verdicts and decisions\<close>

record scope_rule =
  rule_kind :: string
  rule_pattern :: string
  rule_effect :: string
  rule_label :: string

datatype scope_verdict =
    ALLOWED | BLOCKED_HOST | BLOCKED_PATH_EXCLUDED | BLOCKED_PATH_NOT_INCLUDED
  | BLOCKED_METHOD | BLOCKED_UNVERIFIED_TARGET

record scope_decision =
  verdict :: scope_verdict
  reason :: string
  matched_rule :: "scope_rule option"

definition allowed :: "scope_decision \<Rightarrow> bool" where
  "allowed d \<longleftrightarrow> verdict d = ALLOWED"

definition decision :: "scope_verdict \<Rightarrow> string \<Rightarrow> scope_rule option \<Rightarrow> scope_decision" where
  "decision v r m = \<lparr>verdict = v, reason = r, matched_rule = m\<rparr>"

lemma allowed_decision [simp]: "allowed (decision v r m) \<longleftrightarrow> v = ALLOWED"
  by (simp add: allowed_def decision_def)

section \<open>Host patterns\<close>

abbreviation is_dot :: "char \<Rightarrow> bool" where
  "is_dot c \<equiv> c = CHR ''.''"

text \<open>\<^verbatim>\<open>host.lower().rstrip(".")\<close>.\<close>

definition norm_host :: "string \<Rightarrow> string" where
  "norm_host h = rstrip_by is_dot (lower h)"

lemma lower_rstrip_dot: "lower (rstrip_by is_dot s) = rstrip_by is_dot (lower s)"
proof -
  have "map lower_char (dropWhile is_dot t) = dropWhile is_dot (map lower_char t)" for t
    by (induction t) auto
  then show ?thesis by (simp add: lower_def rstrip_by_def flip: rev_map)
qed

lemma lower_norm_host [simp]: "lower (norm_host h) = norm_host h"
  by (simp add: norm_host_def lower_rstrip_dot)

definition host_matches :: "string \<Rightarrow> string \<Rightarrow> bool" where
  "host_matches host0 pattern0 =
     (let host = norm_host host0; pattern = norm_host pattern0
      in if prefix ''*.'' pattern
         then let sfx = drop 1 pattern
              in suffix sfx host \<and> host \<noteq> lstrip_by is_dot sfx
         else host = pattern)"

section \<open>The guard\<close>

record scope_guard =
  allowed_hosts :: "string set"
  rules :: "scope_rule list"
  target_ownership_verified :: bool
  default_allowed_methods :: "string set"

text \<open>
  The constructor: an empty or missing method set means the seven default methods.
\<close>

definition DEFAULT_METHODS :: "string set" where
  "DEFAULT_METHODS =
     {''GET'', ''HEAD'', ''OPTIONS'', ''POST'', ''PUT'', ''PATCH'', ''DELETE''}"

definition new_scope_guard ::
  "string set \<Rightarrow> scope_rule list option \<Rightarrow> bool \<Rightarrow> string set option \<Rightarrow> scope_guard" where
  "new_scope_guard hosts rls verified methods =
     \<lparr>allowed_hosts = hosts,
      rules = (case rls of None \<Rightarrow> [] | Some rs \<Rightarrow> rs),
      target_ownership_verified = verified,
      default_allowed_methods =
        (case methods of None \<Rightarrow> DEFAULT_METHODS
         | Some ms \<Rightarrow> if ms = {} then DEFAULT_METHODS else ms)\<rparr>"

definition path_rule_matches :: "py_lib \<Rightarrow> scope_rule \<Rightarrow> string \<Rightarrow> bool res" where
  "path_rule_matches py r path =
     (if rule_kind r = ''path_prefix'' then Inr (prefix (rule_pattern r) path)
      else if rule_kind r = ''path_regex'' then
        (case re_compile py (rule_pattern r) of
           None \<Rightarrow> Inl (Re_Error (rule_pattern r))
         | Some search \<Rightarrow> Inr (search path))
      else Inr False)"

definition is_path_rule :: "scope_rule \<Rightarrow> bool" where
  "is_path_rule r \<longleftrightarrow> rule_kind r \<in> {''path_prefix'', ''path_regex''}"

definition path_rules :: "string \<Rightarrow> scope_guard \<Rightarrow> scope_rule list" where
  "path_rules eff g = filter (\<lambda>r. is_path_rule r \<and> rule_effect r = eff) (rules g)"

definition method_rules :: "string \<Rightarrow> scope_guard \<Rightarrow> scope_rule list" where
  "method_rules eff g = filter (\<lambda>r. rule_kind r = ''method'' \<and> rule_effect r = eff) (rules g)"

definition rule_name :: "scope_rule \<Rightarrow> string" where
  "rule_name r = (if rule_label r = [] then rule_pattern r else rule_label r)"

definition covers :: "scope_guard \<Rightarrow> string \<Rightarrow> bool" where
  "covers g host \<longleftrightarrow> (\<exists>h\<in>allowed_hosts g. host_matches host h)"

definition effective_methods :: "scope_guard \<Rightarrow> string set" where
  "effective_methods g =
     (let inc = set (map (\<lambda>r. upper (rule_pattern r)) (method_rules ''include'' g))
      in if inc = {} then default_allowed_methods g else inc)"

text \<open>The texts of the decisions.\<close>

definition quoted :: "string \<Rightarrow> string" where
  "quoted s = [CHR 0x27] @ s @ [CHR 0x27]"

definition unverified_text :: string where
  "unverified_text = ''Target ownership has not been verified; no request may be sent. '' @
     ''See docs/06-safety-legal-abuse.md '' @ [CHR 0xA7] @ ''1.''"

definition host_text :: "string \<Rightarrow> string" where
  "host_text host = ''Host '' @ quoted host @ '' is not in the verified scope for this target.''"

definition excluded_path_text :: "string \<Rightarrow> scope_rule \<Rightarrow> string" where
  "excluded_path_text path r =
     ''Path '' @ quoted path @ '' matches exclude rule '' @ quoted (rule_name r) @ ''.''"

definition not_included_text :: "string \<Rightarrow> string" where
  "not_included_text path = ''Path '' @ quoted path @
     '' does not match any configured include rule, and '' @
     ''include rules are present (allow-listing mode).''"

definition excluded_method_text :: "string \<Rightarrow> scope_rule \<Rightarrow> string" where
  "excluded_method_text method r = ''Method '' @ quoted method @
     '' is explicitly excluded ('' @ quoted (rule_name r) @ '').''"

definition method_text :: "string \<Rightarrow> string set \<Rightarrow> string" where
  "method_text method ms = ''Method '' @ quoted method @ '' is not in the allowed method set '' @
     py_repr_list (sorted_list_of_set ms) @ ''.''"

text \<open>\<^verbatim>\<open>parts.path or "/"\<close>.\<close>

definition path_or_root :: "split_result \<Rightarrow> string" where
  "path_or_root parts = (if url_path parts = [] then ''/'' else url_path parts)"

definition evaluate_method :: "scope_guard \<Rightarrow> string \<Rightarrow> scope_decision" where
  "evaluate_method g method =
     (case find (\<lambda>r. method = upper (rule_pattern r)) (method_rules ''exclude'' g) of
        Some r \<Rightarrow> decision BLOCKED_METHOD (excluded_method_text method r) (Some r)
      | None \<Rightarrow>
          if method \<notin> effective_methods g
          then decision BLOCKED_METHOD (method_text method (effective_methods g)) None
          else decision ALLOWED ''In scope.'' None)"

definition evaluate :: "py_lib \<Rightarrow> scope_guard \<Rightarrow> string \<Rightarrow> string \<Rightarrow> scope_decision res" where
  "evaluate py g method url =
     (if \<not> target_ownership_verified g
      then Inr (decision BLOCKED_UNVERIFIED_TARGET unverified_text None)
      else bind_res (urlsplit py url) (\<lambda>parts.
        let host = hostname parts; path = path_or_root parts
        in if \<not> covers g host then Inr (decision BLOCKED_HOST (host_text host) None)
           else bind_res (find_res (\<lambda>r. path_rule_matches py r path) (path_rules ''exclude'' g)) (\<lambda>hit.
             case hit of
               Some r \<Rightarrow> Inr (decision BLOCKED_PATH_EXCLUDED (excluded_path_text path r) (Some r))
             | None \<Rightarrow>
                 bind_res
                   (if path_rules ''include'' g = [] then Inr True
                    else any_res (\<lambda>r. path_rule_matches py r path) (path_rules ''include'' g)) (\<lambda>included.
                   if \<not> included
                   then Inr (decision BLOCKED_PATH_NOT_INCLUDED (not_included_text path) None)
                   else Inr (evaluate_method g (upper method))))))"

section \<open>Specification\<close>

text \<open>
  What being in scope means, as a condition on the request and the guard's configuration and
  not as an order of checks.
\<close>

definition in_scope :: "py_lib \<Rightarrow> scope_guard \<Rightarrow> string \<Rightarrow> string \<Rightarrow> bool" where
  "in_scope py g method url \<longleftrightarrow>
     target_ownership_verified g \<and>
     (\<exists>parts. urlsplit py url = Inr parts \<and>
        covers g (hostname parts) \<and>
        (\<forall>r\<in>set (path_rules ''exclude'' g). path_rule_matches py r (path_or_root parts) = Inr False) \<and>
        (path_rules ''include'' g = [] \<or>
           any_res (\<lambda>r. path_rule_matches py r (path_or_root parts)) (path_rules ''include'' g) = Inr True)) \<and>
     (\<forall>r\<in>set (method_rules ''exclude'' g). upper method \<noteq> upper (rule_pattern r)) \<and>
     upper method \<in> effective_methods g"

definition permits :: "py_lib \<Rightarrow> scope_guard \<Rightarrow> string \<Rightarrow> string \<Rightarrow> bool" where
  "permits py g method url \<longleftrightarrow> (\<exists>d. evaluate py g method url = Inr d \<and> allowed d)"

lemma find_None_ball: "find P xs = None \<longleftrightarrow> (\<forall>x\<in>set xs. \<not> P x)"
  by (auto simp: find_None_iff)

lemma evaluate_method_allowed:
  "allowed (evaluate_method g method) \<longleftrightarrow>
     (\<forall>r\<in>set (method_rules ''exclude'' g). method \<noteq> upper (rule_pattern r)) \<and>
     method \<in> effective_methods g"
  unfolding find_None_ball [symmetric] evaluate_method_def by (simp split: option.split)

lemma permits_iff_in_scope: "permits py g method url \<longleftrightarrow> in_scope py g method url"
proof (cases "target_ownership_verified g")
  case False
  then show ?thesis by (simp add: permits_def in_scope_def evaluate_def)
next
  case verified: True
  show ?thesis
  proof (cases "urlsplit py url")
    case (Inl e)
    with verified show ?thesis by (simp add: permits_def in_scope_def evaluate_def)
  next
    case (Inr parts)
    let ?m = "\<lambda>r. path_rule_matches py r (path_or_root parts)"
    let ?inc = "if path_rules ''include'' g = [] then Inr True else any_res ?m (path_rules ''include'' g)"
    have inc: "?inc = Inr True \<longleftrightarrow>
        path_rules ''include'' g = [] \<or> any_res ?m (path_rules ''include'' g) = Inr True"
      by simp
    have "permits py g method url \<longleftrightarrow>
        covers g (hostname parts) \<and> find_res ?m (path_rules ''exclude'' g) = Inr None \<and>
        ?inc = Inr True \<and> allowed (evaluate_method g (upper method))"
      using verified Inr
      by (cases "find_res ?m (path_rules ''exclude'' g)"; cases ?inc)
        (simp_all add: permits_def evaluate_def Let_def split: option.split)
    then show ?thesis
      unfolding inc evaluate_method_allowed find_res_None_iff
      using verified Inr by (simp add: in_scope_def)
  qed
qed

section \<open>The interface of an outbound policy\<close>

text \<open>
  What the components that send requests rely on: a request the policy permits goes to a host
  that the verified target covers, and nothing is permitted for an unverified target.
\<close>

locale outbound_policy =
  fixes policy :: "'g \<Rightarrow> string \<Rightarrow> string \<Rightarrow> bool"
    and verified :: "'g \<Rightarrow> bool"
    and host_covered :: "'g \<Rightarrow> string \<Rightarrow> bool"
  assumes policy_verified: "policy g m u \<Longrightarrow> verified g"
    and policy_covered: "policy g m u \<Longrightarrow> host_covered g u"
begin

lemma sent_within_scope:
  "list_all (\<lambda>(m, u). policy g m u) sent \<Longrightarrow> (m, u) \<in> set sent \<Longrightarrow> verified g \<and> host_covered g u"
  by (auto simp: list_all_iff dest: policy_verified policy_covered)

lemma unverified_sent_empty:
  "list_all (\<lambda>(m, u). policy g m u) sent \<Longrightarrow> \<not> verified g \<Longrightarrow> sent = []"
  by (cases sent) (auto dest: policy_verified)

end

definition url_covered :: "py_lib \<Rightarrow> scope_guard \<Rightarrow> string \<Rightarrow> bool" where
  "url_covered py g url \<longleftrightarrow> (\<exists>parts. urlsplit py url = Inr parts \<and> covers g (hostname parts))"

interpretation scope_policy: outbound_policy "permits py" target_ownership_verified "url_covered py"
  for py
  by unfold_locales (auto simp: permits_iff_in_scope in_scope_def url_covered_def)

section \<open>Properties\<close>


text \<open>
  The verified hosts are a hard boundary that no rule can widen: an allowed request,
  under any rules and whatever user information its URL carries before an \<^verbatim>\<open>@\<close>, is for a
  verified target and for a host that one of the verified host patterns matches.
\<close>

lemma rules_never_widen_hosts:
  assumes "plain_host d" and "plain_netloc u" and "plain_path p"
    and "evaluate py g method (''https://'' @ (u @ ''@'' @ d) @ ''/'' @ p) = Inr dec"
    and "allowed dec"
  shows "target_ownership_verified g \<and> (\<exists>h\<in>allowed_hosts g. host_matches (lower d) h)"
proof -
  let ?url = "''https://'' @ (u @ ''@'' @ d) @ ''/'' @ p"
  have net: "plain_netloc (u @ ''@'' @ d)"
    using assms(2) plain_host_netloc [OF assms(1)] by (simp add: plain_netloc_def)
  have "permits py g method ?url" using assms(4,5) by (auto simp: permits_def)
  then have v: "target_ownership_verified g" and c: "url_covered py g ?url"
    by (rule scope_policy.policy_verified, rule scope_policy.policy_covered)
  from c obtain parts where parts: "urlsplit py ?url = Inr parts" "covers g (hostname parts)"
    by (auto simp: url_covered_def)
  from parts(1) urlsplit_https [OF net assms(3)] have "url_netloc parts = u @ ''@'' @ d"
    by auto
  with v parts(2) hostname_userinfo [OF assms(1)] show ?thesis by (auto simp: covers_def)
qed

text \<open>Guards for the examples.\<close>

definition shop_guard :: "scope_rule list \<Rightarrow> scope_guard" where
  "shop_guard rs = new_scope_guard {''*.shop.io'', ''shop.io''} (Some rs) True None"

lemmas scope_eval =
  evaluate_def evaluate_method_def shop_guard_def new_scope_guard_def no_lib_def urlsplit_def
  split_scheme_def split_netloc_def netloc_ok_def netloc_end_def hostname_def lstrip_by_def
  rstrip_by_def before_def after_def after_last_def ascii_alpha_def scheme_char_def
  unsafe_url_char_def lower_def lower_char_def upper_def upper_char_def Let_def
  path_or_root_def covers_def host_matches_def norm_host_def path_rules_def method_rules_def
  is_path_rule_def path_rule_matches_def effective_methods_def DEFAULT_METHODS_def
  suffix_to_prefix char_of_def bit_0

text \<open>
  A wildcard stops at a label boundary: \<^verbatim>\<open>*.d\<close> matches a host exactly if the host, up to
  case and trailing dots, is some labels followed by a dot and \<open>d\<close>; so neither \<open>d\<close> itself
  nor a longer name that merely ends in the letters of \<open>d\<close> matches.
\<close>

lemma wildcard_needs_label_boundary:
  assumes "d = norm_host d" and "d \<noteq> []" and "hd d \<noteq> CHR ''.''"
  shows "host_matches host (''*.'' @ d) \<longleftrightarrow> (\<exists>labels. norm_host host = labels @ ''.'' @ d)"
proof -
  from assms(1,2) have "lower d = d" and last: "last d \<noteq> CHR ''.''"
    using rstrip_by_last [of is_dot "lower d"] lower_norm_host [of d] by (auto simp: norm_host_def)
  then have pat: "norm_host (''*.'' @ d) = ''*.'' @ d"
    using assms(2) rstrip_by_id [of "''*.'' @ d" is_dot]
    by (simp add: norm_host_def lower_def lower_char_def)
  have "lstrip_by is_dot (''.'' @ d) = d"
    using assms(2,3) by (cases d) (simp_all add: lstrip_by_def)
  then show ?thesis
    unfolding host_matches_def pat by (auto simp: Let_def suffix_def)
qed

text \<open>
  Exclude rules only narrow the scope: what is allowed with an exclude rule anywhere in
  the list is allowed without it.
\<close>

lemma exclude_rules_only_narrow:
  assumes "rule_effect r = ''exclude''"
    and "permits py (g\<lparr>rules := as @ r # bs\<rparr>) method url"
  shows "permits py (g\<lparr>rules := as @ bs\<rparr>) method url"
proof -
  let ?g = "g\<lparr>rules := as @ r # bs\<rparr>" and ?h = "g\<lparr>rules := as @ bs\<rparr>"
  have inc: "path_rules ''include'' ?g = path_rules ''include'' ?h"
    "method_rules ''include'' ?g = method_rules ''include'' ?h"
    using assms(1) by (simp_all add: path_rules_def method_rules_def)
  have exc: "set (path_rules ''exclude'' ?h) \<subseteq> set (path_rules ''exclude'' ?g)"
    "set (method_rules ''exclude'' ?h) \<subseteq> set (method_rules ''exclude'' ?g)"
    by (auto simp: path_rules_def method_rules_def)
  have "effective_methods ?g = effective_methods ?h" "covers ?g = covers ?h"
    using inc by (simp_all add: effective_methods_def covers_def fun_eq_iff)
  with assms(2) inc exc show ?thesis
    unfolding permits_iff_in_scope in_scope_def by (simp add: subset_iff) blast
qed

text \<open>
  A rule of kind \<^verbatim>\<open>host\<close>, which the rule type and the API admit, has no effect: the
  guard decides every request as if the rule were not there, so that a customer who excludes
  a host does not exclude it.
\<close>

lemma host_rules_have_no_effect:
  assumes "rule_kind r = ''host''"
  shows "evaluate py (g\<lparr>rules := as @ r # bs\<rparr>) m url = evaluate py (g\<lparr>rules := as @ bs\<rparr>) m url"
proof -
  let ?g = "g\<lparr>rules := as @ r # bs\<rparr>" and ?h = "g\<lparr>rules := as @ bs\<rparr>"
  have "path_rules e ?g = path_rules e ?h" "method_rules e ?g = method_rules e ?h" for e
    using assms by (simp_all add: path_rules_def method_rules_def is_path_rule_def)
  note same = this
  have eff: "effective_methods ?g = effective_methods ?h" and cov: "covers ?g = covers ?h"
    using same by (simp_all add: effective_methods_def covers_def fun_eq_iff)
  have em: "evaluate_method ?g m = evaluate_method ?h m" for m
    unfolding evaluate_method_def same eff ..
  show ?thesis
    unfolding evaluate_def same cov em by simp
qed

end
