(* ===== verification/Regex.thy ===== *)
theory Regex
  imports Py_Strings
begin

text \<open>
  The part of Python's \<^verbatim>\<open>re\<close> that the program's own patterns use: character classes,
  greedy and lazy runs of one class, sequence, alternative, word boundaries, one-character
  lookaround and the end anchor. A position is the pair of the text before it, reversed, and
  the text after it. \<open>rx_ms r p\<close> lists the positions at which a match from \<open>p\<close> can end, in
  the order in which the backtracking matcher of \<^verbatim>\<open>re\<close> tries them, so that the first one is
  the match that \<^verbatim>\<open>re\<close> reports. Patterns are over any character type: \<^typ>\<open>char\<close> for
  strings, code points for decoded bodies.
\<close>

section \<open>Patterns and the matcher\<close>

type_synonym 'a pos = "'a list \<times> 'a list"

datatype 'a rx =
    RCls "'a \<Rightarrow> bool"
  | RRun "'a \<Rightarrow> bool" nat "nat option"
  | RLazy "'a \<Rightarrow> bool"
  | REps
  | RSeq "'a rx" "'a rx"
  | RAlt "'a rx" "'a rx"
  | RBound "'a \<Rightarrow> bool"
  | RNotBehind "'a \<Rightarrow> bool"
  | RNotAhead "'a \<Rightarrow> bool"
  | REnd "'a \<Rightarrow> bool"

definition advance :: "nat \<Rightarrow> 'a pos \<Rightarrow> 'a pos" where
  "advance k p = (rev (take k (snd p)) @ fst p, drop k (snd p))"

definition run_length :: "('a \<Rightarrow> bool) \<Rightarrow> nat option \<Rightarrow> 'a list \<Rightarrow> nat" where
  "run_length P hi s =
     (let n = length (takeWhile P s) in case hi of None \<Rightarrow> n | Some h \<Rightarrow> min h n)"

definition starts_with_in :: "('a \<Rightarrow> bool) \<Rightarrow> 'a list \<Rightarrow> bool" where
  "starts_with_in P s = (case s of [] \<Rightarrow> False | c # _ \<Rightarrow> P c)"

text \<open>
  \<open>RRun P lo hi\<close> is the greedy \<^verbatim>\<open>[P]{lo,hi}\<close> (longest first), \<open>RLazy P\<close> the lazy
  \<^verbatim>\<open>[P]*?\<close>, \<open>RBound w\<close> is \<^verbatim>\<open>\b\<close> for the word characters \<open>w\<close>, \<open>RNotBehind P\<close> and
  \<open>RNotAhead P\<close> are \<^verbatim>\<open>(?<![P])\<close> and \<^verbatim>\<open>(?![P])\<close>, and \<open>REnd nl\<close> is \<^verbatim>\<open>$\<close>: the end, or
  before a final newline.
\<close>

fun rx_ms :: "'a rx \<Rightarrow> 'a pos \<Rightarrow> 'a pos list" where
  "rx_ms (RCls P) p = (if starts_with_in P (snd p) then [advance 1 p] else [])"
| "rx_ms (RRun P lo hi) p =
     map (\<lambda>k. advance k p) (rev [lo..<Suc (run_length P hi (snd p))])"
| "rx_ms (RLazy P) p = map (\<lambda>k. advance k p) [0..<Suc (run_length P None (snd p))]"
| "rx_ms REps p = [p]"
| "rx_ms (RSeq r q) p = concat (map (rx_ms q) (rx_ms r p))"
| "rx_ms (RAlt r q) p = rx_ms r p @ rx_ms q p"
| "rx_ms (RBound w) p =
     (if starts_with_in w (fst p) \<noteq> starts_with_in w (snd p) then [p] else [])"
| "rx_ms (RNotBehind P) p = (if starts_with_in P (fst p) then [] else [p])"
| "rx_ms (RNotAhead P) p = (if starts_with_in P (snd p) then [] else [p])"
| "rx_ms (REnd nl) p =
     (if snd p = [] \<or> (length (snd p) = 1 \<and> starts_with_in nl (snd p)) then [p] else [])"

text \<open>\<^verbatim>\<open>pattern.match(s)\<close> and \<^verbatim>\<open>pattern.search(s)\<close>, as truth values.\<close>

definition rx_match :: "'a rx \<Rightarrow> 'a list \<Rightarrow> bool" where
  "rx_match r s \<longleftrightarrow> rx_ms r ([], s) \<noteq> []"

fun rx_search_from :: "'a rx \<Rightarrow> 'a list \<Rightarrow> 'a list \<Rightarrow> bool" where
  "rx_search_from r b [] = (rx_ms r (b, []) \<noteq> [])"
| "rx_search_from r b (c # cs) = (rx_ms r (b, c # cs) \<noteq> [] \<or> rx_search_from r (c # b) cs)"

definition rx_search :: "'a rx \<Rightarrow> 'a list \<Rightarrow> bool" where
  "rx_search r s = rx_search_from r [] s"

text \<open>
  \<^verbatim>\<open>pattern.sub(new, s)\<close> for a pattern that matches no empty text: leftmost matches, without
  overlaps, each replaced by \<open>new\<close>. The text before a position is the original one.
\<close>

function rx_sub_from :: "'a rx \<Rightarrow> 'a list \<Rightarrow> 'a list \<Rightarrow> 'a list \<Rightarrow> 'a list" where
  "rx_sub_from r new b [] = []"
| "rx_sub_from r new b (c # cs) =
     (case rx_ms r (b, c # cs) of
        q # _ \<Rightarrow> if length (snd q) \<le> length cs
                 then new @ rx_sub_from r new (fst q) (snd q)
                 else c # rx_sub_from r new (c # b) cs
      | [] \<Rightarrow> c # rx_sub_from r new (c # b) cs)"
  by pat_completeness auto
termination
  by (relation "measure (\<lambda>(r, new, b, s). length s)") auto

definition rx_sub :: "'a rx \<Rightarrow> 'a list \<Rightarrow> 'a list \<Rightarrow> 'a list" where
  "rx_sub r new s = rx_sub_from r new [] s"

declare rx_sub_from.simps(2) [simp del]

text \<open>
  A search with one group: the pattern is \<open>pre\<close>, the group \<open>g\<close>, then \<open>post\<close>, and the result
  the text of the group in the first match.
\<close>

definition group_at :: "'a rx \<Rightarrow> 'a rx \<Rightarrow> 'a rx \<Rightarrow> 'a pos \<Rightarrow> 'a list option" where
  "group_at pre g post p =
     (case [(q1, q2). q1 \<leftarrow> rx_ms pre p, q2 \<leftarrow> rx_ms g q1, rx_ms post q2 \<noteq> []] of
        [] \<Rightarrow> None
      | (q1, q2) # _ \<Rightarrow> Some (take (length (snd q1) - length (snd q2)) (snd q1)))"

fun group_search_from :: "'a rx \<Rightarrow> 'a rx \<Rightarrow> 'a rx \<Rightarrow> 'a list \<Rightarrow> 'a list \<Rightarrow> 'a list option" where
  "group_search_from pre g post b [] = group_at pre g post (b, [])"
| "group_search_from pre g post b (c # cs) =
     (case group_at pre g post (b, c # cs) of
        None \<Rightarrow> group_search_from pre g post (c # b) cs
      | Some t \<Rightarrow> Some t)"

definition group_search :: "'a rx \<Rightarrow> 'a rx \<Rightarrow> 'a rx \<Rightarrow> 'a list \<Rightarrow> 'a list option" where
  "group_search pre g post s = group_search_from pre g post [] s"

section \<open>Building patterns\<close>

definition rseq :: "'a rx list \<Rightarrow> 'a rx" where
  "rseq rs = foldr RSeq rs REps"

text \<open>A literal, exactly and (on strings) without regard to case.\<close>

definition rlit :: "'a list \<Rightarrow> 'a rx" where
  "rlit w = rseq (map (\<lambda>x. RCls (\<lambda>c. c = x)) w)"

definition rlit_i :: "string \<Rightarrow> char rx" where
  "rlit_i w = rseq (map (\<lambda>x. RCls (\<lambda>c. lower_char c = lower_char x)) w)"

text \<open>The word characters of \<^verbatim>\<open>\w\<close> and \<^verbatim>\<open>\b\<close> below code point 256: alphanumerics and underscore.\<close>

definition word_code :: "nat \<Rightarrow> bool" where
  "word_code n \<longleftrightarrow>
     48 \<le> n \<and> n \<le> 57 \<or> 65 \<le> n \<and> n \<le> 90 \<or> n = 95 \<or> 97 \<le> n \<and> n \<le> 122 \<or>
     n = 170 \<or> n = 178 \<or> n = 179 \<or> n = 181 \<or> n = 185 \<or> n = 186 \<or> 188 \<le> n \<and> n \<le> 190 \<or>
     192 \<le> n \<and> n \<le> 214 \<or> 216 \<le> n \<and> n \<le> 246 \<or> 248 \<le> n \<and> n \<le> 255"

definition word_char :: "char \<Rightarrow> bool" where
  "word_char c = word_code (ord c)"

section \<open>Facts about the matcher\<close>

text \<open>A match consumes a piece of the text and nothing else.\<close>

definition splits :: "'a pos \<Rightarrow> 'a pos \<Rightarrow> 'a list \<Rightarrow> bool" where
  "splits p q u \<longleftrightarrow> fst q = rev u @ fst p \<and> snd p = u @ snd q"

lemma advance_splits: "\<exists>u. splits p (advance k p) u"
  by (rule exI [of _ "take k (snd p)"]) (simp add: splits_def advance_def)

lemma splits_trans: "splits p q u \<Longrightarrow> splits q t v \<Longrightarrow> splits p t (u @ v)"
  by (simp add: splits_def)

lemma splits_refl: "\<exists>u. splits p p u"
  by (rule exI [of _ "[]"]) (simp add: splits_def)

lemma rx_ms_splits: "q \<in> set (rx_ms r p) \<Longrightarrow> \<exists>u. splits p q u"
proof (induction r arbitrary: p q)
  case (RSeq r1 r2)
  then show ?case by (auto dest!: RSeq.IH) (blast intro: splits_trans)
qed (auto intro: advance_splits splits_refl split: if_splits)

lemma rx_ms_seq_iff:
  "rx_ms (RSeq r q) p \<noteq> [] \<longleftrightarrow> (\<exists>p'\<in>set (rx_ms r p). rx_ms q p' \<noteq> [])"
  by auto

lemma split_Cons_ex:
  "(\<exists>x y. c # cs = x @ y \<and> Q x y) \<longleftrightarrow> Q [] (c # cs) \<or> (\<exists>x y. cs = x @ y \<and> Q (c # x) y)"
proof
  assume "\<exists>x y. c # cs = x @ y \<and> Q x y"
  then obtain x y where "c # cs = x @ y" "Q x y" by blast
  then show "Q [] (c # cs) \<or> (\<exists>x y. cs = x @ y \<and> Q (c # x) y)"
    by (cases x) auto
next
  assume "Q [] (c # cs) \<or> (\<exists>x y. cs = x @ y \<and> Q (c # x) y)"
  then show "\<exists>x y. c # cs = x @ y \<and> Q x y"
    by (metis append_Cons append_Nil)
qed

lemma rx_search_from_iff:
  "rx_search_from r b s \<longleftrightarrow> (\<exists>x y. s = x @ y \<and> rx_ms r (rev x @ b, y) \<noteq> [])"
proof (induction s arbitrary: b)
  case Nil
  then show ?case by simp
next
  case (Cons c cs)
  show ?case
    unfolding split_Cons_ex [of c cs "\<lambda>x y. rx_ms r (rev x @ b, y) \<noteq> []"]
    using Cons.IH by simp
qed

lemma rx_search_iff:
  "rx_search r s \<longleftrightarrow> (\<exists>x y. s = x @ y \<and> rx_ms r (rev x, y) \<noteq> [])"
  by (simp add: rx_search_def rx_search_from_iff)

text \<open>A pattern matches a text where it can end right after it.\<close>

lemma rx_ms_cls: "P c \<Longrightarrow> (c # b, s) \<in> set (rx_ms (RCls P) (b, c # s))"
  by (simp add: starts_with_in_def advance_def)

lemma takeWhile_run: "(\<forall>c\<in>set u. P c) \<Longrightarrow> length u \<le> length (takeWhile P (u @ s))"
  by (induction u) auto

lemma rx_ms_run:
  assumes "\<forall>c\<in>set u. P c" and "lo \<le> length u" and "\<And>h. hi = Some h \<Longrightarrow> length u \<le> h"
  shows "(rev u @ b, s) \<in> set (rx_ms (RRun P lo hi) (b, u @ s))"
proof -
  have "length u \<le> run_length P hi (u @ s)"
    using takeWhile_run [OF assms(1), of s] assms(3)
    by (auto simp: run_length_def Let_def split: option.splits)
  moreover have "advance (length u) (b, u @ s) = (rev u @ b, s)"
    by (simp add: advance_def)
  ultimately show ?thesis using assms(2) by (force simp: image_iff)
qed

lemma rx_ms_bound:
  "starts_with_in w b \<noteq> starts_with_in w s \<Longrightarrow> (b, s) \<in> set (rx_ms (RBound w) (b, s))"
  by simp

lemma rx_ms_seqI:
  "p' \<in> set (rx_ms r p) \<Longrightarrow> q \<in> set (rx_ms r' p') \<Longrightarrow> q \<in> set (rx_ms (RSeq r r') p)"
  by auto

lemma rx_ms_eps: "p \<in> set (rx_ms REps p)"
  by simp

lemma rseq_Cons [simp]: "rseq (r # rs) = RSeq r (rseq rs)" and rseq_Nil [simp]: "rseq [] = REps"
  by (simp_all add: rseq_def)

lemma rx_ms_lit_i:
  "lower u = lower w \<Longrightarrow> (rev u @ b, s) \<in> set (rx_ms (rlit_i w) (b, u @ s))"
proof (induction w arbitrary: u b)
  case Nil
  then show ?case by (simp add: rlit_i_def lower_def)
next
  case (Cons x w)
  then obtain c u' where u: "u = c # u'" "lower_char c = lower_char x" "lower u' = lower w"
    by (auto simp: lower_def map_eq_Cons_conv)
  from Cons.IH [OF u(3), of "c # b"]
  have "(rev u' @ c # b, s) \<in> set (rx_ms (rlit_i w) (c # b, u' @ s))" .
  then show ?case
    using rx_ms_cls [of "\<lambda>c. lower_char c = lower_char x" c b "u' @ s"] u(1,2)
    by (auto simp: rlit_i_def starts_with_in_def advance_def)
qed

text \<open>
  Substituting a marker that opens with \<open>l\<close> and closes with \<open>r\<close>: a text without these
  characters occurs in the result only if it occurs in the marker or in the original.
\<close>

lemma rx_sub_from_Cons_cases:
  obtains (hit) q qs where "rx_ms rx (b, c # cs) = q # qs" "length (snd q) \<le> length cs"
      "rx_sub_from rx new b (c # cs) = new @ rx_sub_from rx new (fst q) (snd q)"
    | (miss) "rx_sub_from rx new b (c # cs) = c # rx_sub_from rx new (c # b) cs"
proof (cases "rx_ms rx (b, c # cs)")
  case Nil
  then show ?thesis by (intro miss) (simp add: rx_sub_from.simps(2))
next
  case (Cons q qs)
  then show ?thesis
    by (cases "length (snd q) \<le> length cs") (intro hit miss; simp add: rx_sub_from.simps(2))+
qed

lemma prefix_rx_sub_from:
  "prefix p (rx_sub_from rx (l # m) b s) \<Longrightarrow> l \<notin> set p \<Longrightarrow> prefix p s"
proof (induction s arbitrary: p b)
  case (Cons c cs)
  show ?case
  proof (cases rule: rx_sub_from_Cons_cases [of rx b c cs "l # m"])
    case (hit q qs)
    with Cons.prems have "p = []" by (cases p) simp_all
    then show ?thesis by simp
  next
    case miss
    with Cons.prems(1) have "prefix p (c # rx_sub_from rx (l # m) (c # b) cs)" by simp
    then show ?thesis using Cons.IH Cons.prems(2) by (cases p) auto
  qed
qed simp

lemma sublist_rx_sub_from:
  assumes "sublist p (rx_sub_from rx (l # mid @ [r]) b s)"
    and "l \<notin> set p" and "r \<notin> set p" and "p \<noteq> []"
  shows "sublist p mid \<or> sublist p s"
  using assms(1)
proof (induction "length s" arbitrary: b s rule: less_induct)
  case less
  show ?case
  proof (cases s)
    case Nil
    with less.prems assms(4) show ?thesis by simp
  next
    case (Cons c cs)
    show ?thesis
    proof (cases rule: rx_sub_from_Cons_cases [of rx b c cs "l # mid @ [r]"])
      case (hit q qs)
      with less.prems Cons
      have "sublist p ((l # mid @ [r]) @ rx_sub_from rx (l # mid @ [r]) (fst q) (snd q))" by simp
      from sublist_marker [OF this assms(2-4)] less.hyps [of "snd q" "fst q"] hit(2) Cons
      have "sublist p mid \<or> sublist p (snd q)" by auto
      moreover have "suffix (snd q) s"
        using rx_ms_splits [of q rx "(b, c # cs)"] hit(1) Cons
        by (auto simp: splits_def suffix_def)
      ultimately show ?thesis
        by (meson sublist_order.order.trans suffix_imp_sublist)
    next
      case miss
      from less.prems Cons consider "prefix p (rx_sub_from rx (l # mid @ [r]) b s)"
        | "sublist p (rx_sub_from rx (l # mid @ [r]) (c # b) cs)"
        unfolding Cons miss by (auto simp: sublist_Cons_right)
      then show ?thesis
      proof cases
        case 1
        then show ?thesis
          using prefix_rx_sub_from [of p rx l "mid @ [r]" b s] assms(2)
          by (auto simp: prefix_imp_sublist)
      next
        case 2
        with less.hyps [of cs "c # b"] Cons show ?thesis by (auto simp: sublist_Cons_right)
      qed
    qed
  qed
qed

end
