(* ===== verification/Destructive_Guard.thy ===== *)
theory Destructive_Guard
  imports Urls Regex
begin

text \<open>
  The destructive-action guard: \<^verbatim>\<open>packages/core/src/sentinel_core/scope_guard/destructive.py\<close>.
  The eighteen default patterns are regular expressions of theory \<open>Regex\<close>, each kept with
  its source text for the messages; the patterns a customer adds are compiled by the library
  parameter \<^const>\<open>re_icompile\<close>.
\<close>

section \<open>Patterns\<close>

record compiled_pattern =
  pattern_text :: string
  pattern_search :: "string \<Rightarrow> bool"

definition word_boundary :: string where
  "word_boundary = [CHR 0x5C, CHR ''b'']"

definition bounded_rx :: "char rx \<Rightarrow> char rx" where
  "bounded_rx r = rseq [RBound word_char, r, RBound word_char]"

definition default_pattern :: "string \<Rightarrow> char rx \<Rightarrow> compiled_pattern" where
  "default_pattern t r =
     \<lparr>pattern_text = word_boundary @ t @ word_boundary, pattern_search = rx_search (bounded_rx r)\<rparr>"

text \<open>\<^verbatim>\<open>\bw\b\<close>, \<^verbatim>\<open>\bw\w*\b\<close> and \<^verbatim>\<open>\bv[-_ ]?w\b\<close>.\<close>

definition word_pattern :: "string \<Rightarrow> compiled_pattern" where
  "word_pattern w = default_pattern w (rlit_i w)"

definition stem_rx :: "string \<Rightarrow> char rx" where
  "stem_rx w = RSeq (rlit_i w) (RRun word_char 0 None)"

definition stem_pattern :: "string \<Rightarrow> compiled_pattern" where
  "stem_pattern w = default_pattern (w @ [CHR 0x5C] @ ''w*'') (stem_rx w)"

definition pair_sep :: "char \<Rightarrow> bool" where
  "pair_sep c \<longleftrightarrow> c = CHR ''-'' \<or> c = CHR ''_'' \<or> c = CHR '' ''"

definition pair_rx :: "string \<Rightarrow> string \<Rightarrow> char rx" where
  "pair_rx v w = rseq [rlit_i v, RRun pair_sep 0 (Some 1), rlit_i w]"

definition pair_pattern :: "string \<Rightarrow> string \<Rightarrow> compiled_pattern" where
  "pair_pattern v w = default_pattern (v @ ''[-_ ]?'' @ w) (pair_rx v w)"

definition is_letter_s :: "char \<Rightarrow> bool" where
  "is_letter_s c \<longleftrightarrow> lower_char c = CHR ''s''"

definition DEFAULT_DESTRUCTIVE_PATTERNS :: "compiled_pattern list" where
  "DEFAULT_DESTRUCTIVE_PATTERNS =
     [word_pattern ''delete'',
      default_pattern ''deletes?'' (RSeq (rlit_i ''delete'') (RRun is_letter_s 0 (Some 1))),
      word_pattern ''remove'',
      stem_pattern ''deactivat'',
      word_pattern ''cancel'',
      stem_pattern ''unsubscrib'',
      word_pattern ''purge'',
      word_pattern ''reset'',
      word_pattern ''destroy'',
      stem_pattern ''terminat'',
      pair_pattern ''close'' ''account'',
      word_pattern ''logout'',
      pair_pattern ''sign'' ''out'',
      word_pattern ''revoke'',
      word_pattern ''wipe'',
      word_pattern ''drop'',
      stem_pattern ''truncat'',
      pair_pattern ''forget'' ''me'']"

definition NON_IDEMPOTENT_METHODS :: "string set" where
  "NON_IDEMPOTENT_METHODS = {''POST'', ''PUT'', ''PATCH'', ''DELETE''}"

section \<open>The guard\<close>

record destructive_check =
  is_suspect :: bool
  check_reason :: string
  matched_pattern :: "string option"

record destructive_guard =
  read_write_enabled :: bool
  extra_patterns :: "string list"
  compiled :: "compiled_pattern list"

fun compile_extras :: "py_lib \<Rightarrow> string list \<Rightarrow> compiled_pattern list res" where
  "compile_extras py [] = Inr []"
| "compile_extras py (p # ps) =
     (case re_icompile py p of
        None \<Rightarrow> Inl (Re_Error p)
      | Some f \<Rightarrow> bind_res (compile_extras py ps)
                   (\<lambda>cs. Inr (\<lparr>pattern_text = p, pattern_search = f\<rparr> # cs)))"

definition new_destructive_guard :: "py_lib \<Rightarrow> bool \<Rightarrow> string list \<Rightarrow> destructive_guard res" where
  "new_destructive_guard py rw extra =
     bind_res (compile_extras py extra) (\<lambda>cs.
       Inr \<lparr>read_write_enabled = rw, extra_patterns = extra,
            compiled = DEFAULT_DESTRUCTIVE_PATTERNS @ cs\<rparr>)"

definition pattern_reason :: "string \<Rightarrow> string" where
  "pattern_reason p =
     ''URL/label matches destructive-action pattern '' @ [CHR 0x27] @ p @ [CHR 0x27] @ ''.''"

definition method_reason :: "string \<Rightarrow> string" where
  "method_reason m = ''Method '' @ m @ '' is non-idempotent and this target'' @ [CHR 0x27] @
     ''s scan policy has not opted into read-write testing (default: read-only).''"

definition check :: "py_lib \<Rightarrow> destructive_guard \<Rightarrow> string \<Rightarrow> string \<Rightarrow> string \<Rightarrow> destructive_check res" where
  "check py g method0 url link_text =
     (let method = upper method0 in
      bind_res (urlsplit py url) (\<lambda>parts.
        let haystack = join '' '' [url_path parts, url_query parts, link_text]
        in case find (\<lambda>p. pattern_search p haystack) (compiled g) of
             Some p \<Rightarrow>
               Inr \<lparr>is_suspect = True, check_reason = pattern_reason (pattern_text p),
                    matched_pattern = Some (pattern_text p)\<rparr>
           | None \<Rightarrow>
               if method \<in> NON_IDEMPOTENT_METHODS \<and> \<not> read_write_enabled g
               then Inr \<lparr>is_suspect = True, check_reason = method_reason method, matched_pattern = None\<rparr>
               else Inr \<lparr>is_suspect = False, check_reason = ''No destructive signal detected.'',
                         matched_pattern = None\<rparr>))"

section \<open>Facts about the guard\<close>

definition haystack :: "split_result \<Rightarrow> string \<Rightarrow> string" where
  "haystack parts link_text = join '' '' [url_path parts, url_query parts, link_text]"

lemma check_suspect_iff:
  "(\<exists>c. check py g m url t = Inr c \<and> is_suspect c) \<longleftrightarrow>
     (\<exists>parts. urlsplit py url = Inr parts \<and>
        ((\<exists>p\<in>set (compiled g). pattern_search p (haystack parts t)) \<or>
         upper m \<in> NON_IDEMPOTENT_METHODS \<and> \<not> read_write_enabled g))"
proof (cases "urlsplit py url")
  case (Inl e)
  then show ?thesis by (simp add: check_def)
next
  case (Inr parts)
  have "(\<exists>p\<in>set (compiled g). pattern_search p (haystack parts t)) \<longleftrightarrow>
          find (\<lambda>p. pattern_search p (haystack parts t)) (compiled g) \<noteq> None"
    by (auto simp: find_None_iff)
  with Inr show ?thesis
    by (auto simp: check_def Let_def haystack_def split: option.split)
qed

lemma check_total: "urlsplit py url = Inr parts \<Longrightarrow> \<exists>c. check py g m url t = Inr c"
  by (auto simp: check_def Let_def split: option.split)

text \<open>A piece of text that stands between two non-word characters.\<close>

definition outer_word :: "string \<Rightarrow> bool" where
  "outer_word s \<longleftrightarrow> starts_with_in word_char s"

definition word_bounded :: "string \<Rightarrow> string \<Rightarrow> string \<Rightarrow> bool" where
  "word_bounded a u b \<longleftrightarrow>
     u \<noteq> [] \<and> word_char (hd u) \<and> word_char (last u) \<and> \<not> outer_word (rev a) \<and> \<not> outer_word b"

lemma bounded_rx_search:
  assumes "(rev u @ rev a, b) \<in> set (rx_ms r (rev a, u @ b))" and "word_bounded a u b"
  shows "rx_search (bounded_rx r) (a @ u @ b)"
proof -
  have l: "(rev a, u @ b) \<in> set (rx_ms (RBound word_char) (rev a, u @ b))"
    using assms(2) by (cases u) (auto simp: word_bounded_def outer_word_def starts_with_in_def)
  have r: "(rev u @ rev a, b) \<in> set (rx_ms (RBound word_char) (rev u @ rev a, b))"
    using assms(2)
    by (cases u rule: rev_cases) (auto simp: word_bounded_def outer_word_def starts_with_in_def)
  have "(rev u @ rev a, b) \<in> set (rx_ms (bounded_rx r) (rev a, u @ b))"
    unfolding bounded_rx_def rseq_Cons rseq_Nil
    by (rule rx_ms_seqI [OF l rx_ms_seqI [OF assms(1) rx_ms_seqI [OF r rx_ms_eps]]])
  then show ?thesis
    unfolding rx_search_iff by (metis empty_iff empty_set)
qed

text \<open>The words the default patterns are meant to catch, in lower case.\<close>

definition plain_words :: "string list" where
  "plain_words = [''delete'', ''remove'', ''cancel'', ''purge'', ''reset'', ''destroy'', ''logout'',
     ''revoke'', ''wipe'', ''drop'']"

definition word_stems :: "string list" where
  "word_stems = [''deactivat'', ''unsubscrib'', ''terminat'', ''truncat'']"

definition word_pairs :: "(string \<times> string) list" where
  "word_pairs = [(''close'', ''account''), (''sign'', ''out''), (''forget'', ''me'')]"

definition destructive_word :: "string \<Rightarrow> bool" where
  "destructive_word u \<longleftrightarrow>
     lower u \<in> set plain_words \<or> lower u = ''deletes'' \<or>
     (\<exists>k\<le>length u. lower (take k u) \<in> set word_stems \<and> list_all word_char (drop k u)) \<or>
     (\<exists>(v, w)\<in>set word_pairs. lower u \<in> {v @ w, v @ ''-'' @ w, v @ ''_'' @ w, v @ '' '' @ w})"

text \<open>A pattern reads a whole word, wherever it stands.\<close>

definition reads :: "char rx \<Rightarrow> string \<Rightarrow> bool" where
  "reads r u \<longleftrightarrow> (\<forall>b s. (rev u @ b, s) \<in> set (rx_ms r (b, u @ s)))"

lemma reads_lit: "lower u = lower w \<Longrightarrow> reads (rlit_i w) u"
  by (simp add: reads_def rx_ms_lit_i)

lemma reads_run:
  "list_all P u \<Longrightarrow> (\<And>h. hi = Some h \<Longrightarrow> length u \<le> h) \<Longrightarrow> reads (RRun P 0 hi) u"
  unfolding reads_def by (intro allI rx_ms_run) (simp_all add: list_all_iff)

lemma reads_seq: "reads r u \<Longrightarrow> reads q v \<Longrightarrow> reads (RSeq r q) (u @ v)"
  unfolding reads_def
proof (intro allI)
  fix b s
  assume "\<forall>b s. (rev u @ b, s) \<in> set (rx_ms r (b, u @ s))"
    and "\<forall>b s. (rev v @ b, s) \<in> set (rx_ms q (b, v @ s))"
  then have "(rev u @ b, v @ s) \<in> set (rx_ms r (b, u @ v @ s))"
    and "(rev v @ rev u @ b, s) \<in> set (rx_ms q (rev u @ b, v @ s))" by blast+
  from rx_ms_seqI [OF this] show "(rev (u @ v) @ b, s) \<in> set (rx_ms (RSeq r q) (b, (u @ v) @ s))"
    by simp
qed

lemma reads_eps: "reads REps []"
  by (simp add: reads_def)

lemma lower_eq_appendE:
  assumes "lower u = v @ w"
  obtains u1 u2 where "u = u1 @ u2" "lower u1 = v" "lower u2 = w"
proof (rule that)
  show "u = take (length v) u @ drop (length v) u" by simp
  show "lower (take (length v) u) = v" "lower (drop (length v) u) = w"
    using assms by (simp_all add: lower_def flip: take_map drop_map)
qed

lemma reads_pair:
  assumes "lower u = v @ s @ w" and "lower v = v" and "lower w = w"
    and "list_all pair_sep s" and "length s \<le> 1" and "\<And>x. lower x = s \<Longrightarrow> x = s"
  shows "reads (pair_rx v w) u"
proof -
  obtain u1 t where t: "u = u1 @ t" "lower u1 = v" "lower t = s @ w"
    by (rule lower_eq_appendE [OF assms(1)])
  obtain u2 u3 where "t = u2 @ u3" "lower u2 = s" "lower u3 = w"
    by (rule lower_eq_appendE [OF t(3)])
  with t have u: "u = u1 @ u2 @ u3" "lower u1 = v" "lower u2 = s" "lower u3 = w" by simp_all
  have "reads (RRun pair_sep 0 (Some 1)) s" by (rule reads_run) (use assms(4,5) in simp_all)
  then have "reads (pair_rx v w) (u1 @ s @ u3 @ [])"
    unfolding pair_rx_def rseq_Cons rseq_Nil
    using u(2,4) assms(2,3) by (intro reads_seq reads_lit reads_eps) simp_all
  with u(1) assms(6) [OF u(3)] show ?thesis by simp
qed

lemma lower_sep:
  "lower x = ''-'' \<Longrightarrow> x = ''-''" "lower x = ''_'' \<Longrightarrow> x = ''_''" "lower x = '' '' \<Longrightarrow> x = '' ''"
proof -
  have *: "c = d" if "lower_char c = d" "ord d \<in> {45, 95, 32}" for c d
  proof -
    have "ord c = ord d" using that ord_lower_char [of c] by (auto split: if_splits)
    then show ?thesis by simp
  qed
  show "lower x = ''-'' \<Longrightarrow> x = ''-''" "lower x = ''_'' \<Longrightarrow> x = ''_''" "lower x = '' '' \<Longrightarrow> x = '' ''"
    by (auto simp: lower_def map_eq_Cons_conv dest!: *)
qed

text \<open>Where each kind of destructive word has its pattern.\<close>

definition has_rx :: "char rx \<Rightarrow> bool" where
  "has_rx r \<longleftrightarrow> (\<exists>p\<in>set DEFAULT_DESTRUCTIVE_PATTERNS. pattern_search p = rx_search (bounded_rx r))"

lemma has_rx_plain: "w \<in> set plain_words \<Longrightarrow> has_rx (rlit_i w) \<and> lower w = w"
  by (auto simp: has_rx_def plain_words_def DEFAULT_DESTRUCTIVE_PATTERNS_def word_pattern_def
      default_pattern_def lower_def lower_char_def)

lemma has_rx_stem: "w \<in> set word_stems \<Longrightarrow> has_rx (stem_rx w) \<and> lower w = w"
  by (auto simp: has_rx_def word_stems_def DEFAULT_DESTRUCTIVE_PATTERNS_def stem_pattern_def
      default_pattern_def lower_def lower_char_def)

lemma has_rx_pair: "(v, w) \<in> set word_pairs \<Longrightarrow> has_rx (pair_rx v w) \<and> lower v = v \<and> lower w = w"
  by (auto simp: has_rx_def word_pairs_def DEFAULT_DESTRUCTIVE_PATTERNS_def pair_pattern_def
      default_pattern_def lower_def lower_char_def)

lemma has_rx_deletes: "has_rx (RSeq (rlit_i ''delete'') (RRun is_letter_s 0 (Some 1)))"
  by (simp add: has_rx_def DEFAULT_DESTRUCTIVE_PATTERNS_def default_pattern_def)

lemma destructive_word_read: "destructive_word u \<Longrightarrow> \<exists>r. has_rx r \<and> reads r u"
  unfolding destructive_word_def
proof (elim disjE)
  assume "lower u \<in> set plain_words"
  from has_rx_plain [OF this] show ?thesis using reads_lit [of u "lower u"] by auto
next
  assume "lower u = ''deletes''"
  then have "lower u = ''delete'' @ ''s''" by simp
  then obtain u1 u2 where u: "u = u1 @ u2" "lower u1 = ''delete''" "lower u2 = ''s''"
    by (rule lower_eq_appendE)
  from u(3) have u2: "reads (RRun is_letter_s 0 (Some 1)) u2"
    by (intro reads_run) (auto simp: is_letter_s_def lower_def)
  have "lower ''delete'' = ''delete''" by (simp add: lower_def lower_char_def)
  with u reads_seq [OF reads_lit u2, of u1 "''delete''"] has_rx_deletes show ?thesis by auto
next
  assume "\<exists>k\<le>length u. lower (take k u) \<in> set word_stems \<and> list_all word_char (drop k u)"
  then obtain k where k: "lower (take k u) \<in> set word_stems" "list_all word_char (drop k u)"
    by blast
  have "reads (stem_rx (lower (take k u))) (take k u @ drop k u)"
    unfolding stem_rx_def by (intro reads_seq reads_lit reads_run) (simp_all add: k(2))
  with has_rx_stem [OF k(1)] show ?thesis by auto
next
  assume "\<exists>(v, w)\<in>set word_pairs. lower u \<in> {v @ w, v @ ''-'' @ w, v @ ''_'' @ w, v @ '' '' @ w}"
  then obtain v w where vw: "(v, w) \<in> set word_pairs"
    and "lower u \<in> {v @ [] @ w, v @ ''-'' @ w, v @ ''_'' @ w, v @ '' '' @ w}"
    by (auto simp only: append_Nil split_beta)
  then obtain s where s: "lower u = v @ s @ w" "s \<in> {[], ''-'', ''_'', '' ''}" by blast
  from has_rx_pair [OF vw] have vw': "has_rx (pair_rx v w)" "lower v = v" "lower w = w" by auto
  have "reads (pair_rx v w) u"
    by (rule reads_pair [OF s(1) vw'(2,3)])
      (use s(2) in \<open>auto simp: pair_sep_def lower_sep\<close>, simp add: lower_def)
  with vw'(1) show ?thesis by blast
qed

lemma outer_word_append: "\<not> outer_word a \<Longrightarrow> \<not> outer_word b \<Longrightarrow> \<not> outer_word (a @ b)"
  by (cases a) (simp_all add: outer_word_def starts_with_in_def)

lemma outer_word_space: "\<not> outer_word []" "\<not> outer_word (CHR '' '' # s)"
  by (simp_all add: outer_word_def starts_with_in_def word_char_def word_code_def)

lemma bounded_in_haystack:
  assumes "text \<in> {url_path parts, url_query parts, link}" and "text = a @ u @ b" and "word_bounded a u b"
  obtains a' b' where "haystack parts link = a' @ u @ b'" "word_bounded a' u b'"
proof -
  have keep: "word_bounded (x @ a) u (b @ y)" if "\<not> outer_word (rev x)" "\<not> outer_word y" for x y
    using assms(3) outer_word_append [of "rev a" "rev x"] outer_word_append [of b y] that
    by (simp add: word_bounded_def)
  have "\<exists>x y. haystack parts link = (x @ a) @ u @ (b @ y) \<and> \<not> outer_word (rev x) \<and> \<not> outer_word y"
  proof -
    consider "url_path parts = a @ u @ b" | "url_query parts = a @ u @ b" | "link = a @ u @ b"
      using assms(1,2) by blast
    then show ?thesis
    proof cases
      case 1
      then show ?thesis
        by (intro exI [of _ "[]"] exI [of _ "'' '' @ url_query parts @ '' '' @ link"])
          (simp add: haystack_def outer_word_space)
    next
      case 2
      then show ?thesis
        by (intro exI [of _ "url_path parts @ '' ''"] exI [of _ "'' '' @ link"])
          (simp add: haystack_def outer_word_space)
    next
      case 3
      then show ?thesis
        by (intro exI [of _ "url_path parts @ '' '' @ url_query parts @ '' ''"] exI [of _ "[]"])
          (simp add: haystack_def outer_word_space)
    qed
  qed
  with keep that show ?thesis by blast
qed

lemma new_guard_compiled:
  "new_destructive_guard py rw ex = Inr g \<Longrightarrow>
     set DEFAULT_DESTRUCTIVE_PATTERNS \<subseteq> set (compiled g) \<and> read_write_enabled g = rw"
  by (auto simp: new_destructive_guard_def bind_res_Inr_iff)

section \<open>Properties\<close>

text \<open>
  C25. A destructive word is caught in every disguise the patterns cover: written in any case,
  as a whole word of the path, of the query or of the visible label, it makes the action
  suspect for every method, and read-write mode or additional patterns do not switch this off.
\<close>

theorem destructive_words_flagged:
  assumes "new_destructive_guard py rw ex = Inr g" and "urlsplit py url = Inr parts"
    and "text \<in> {url_path parts, url_query parts, link}"
    and "text = a @ u @ b" and "word_bounded a u b" and "destructive_word u"
  shows "\<exists>c. check py g m url link = Inr c \<and> is_suspect c \<and> matched_pattern c \<noteq> None"
proof -
  obtain r where r: "has_rx r" "reads r u"
    using destructive_word_read [OF assms(6)] by blast
  obtain a' b' where hay: "haystack parts link = a' @ u @ b'" "word_bounded a' u b'"
    by (rule bounded_in_haystack [OF assms(3-5)])
  have "rx_search (bounded_rx r) (haystack parts link)"
    unfolding hay(1) by (rule bounded_rx_search [OF _ hay(2)]) (use r(2) in \<open>simp add: reads_def\<close>)
  with r(1) new_guard_compiled [OF assms(1)]
  have "find (\<lambda>p. pattern_search p (haystack parts link)) (compiled g) \<noteq> None"
    by (auto simp: has_rx_def find_None_iff)
  with assms(2) show ?thesis
    by (auto simp: check_def Let_def haystack_def)
qed

text \<open>The empty library and a guard for the examples.\<close>

definition strict_guard :: destructive_guard where
  "strict_guard = \<lparr>read_write_enabled = False, extra_patterns = [],
     compiled = DEFAULT_DESTRUCTIVE_PATTERNS\<rparr>"

lemma strict_guard_new: "new_destructive_guard py False [] = Inr strict_guard"
  by (simp add: new_destructive_guard_def strict_guard_def)

theorem destructive_words_flagged_witness:
  "\<exists>c. check no_lib strict_guard ''GET'' (''https://'' @ ''shop.io'' @ ''/'' @ ''a/Sign-Out'') ''bye'' = Inr c \<and>
       is_suspect c \<and> matched_pattern c \<noteq> None"
proof (rule destructive_words_flagged [OF strict_guard_new])
  show "urlsplit no_lib (''https://'' @ ''shop.io'' @ ''/'' @ ''a/Sign-Out'') =
      Inr \<lparr>url_scheme = ''https'', url_netloc = ''shop.io'', url_path = ''/'' @ ''a/Sign-Out'',
           url_query = [], url_fragment = []\<rparr>"
    by (rule urlsplit_https) (simp_all add: plain_netloc_def plain_path_def)
  show "''/a/Sign-Out'' = ''/a/'' @ ''Sign-Out'' @ []" by simp
  have "lower ''Sign-Out'' = ''sign'' @ ''-'' @ ''out''"
    by (simp add: lower_def lower_char_def char_of_def bit_0)
  moreover have "(''sign'', ''out'') \<in> set word_pairs" by (simp add: word_pairs_def)
  ultimately show "destructive_word ''Sign-Out''"
    unfolding destructive_word_def by blast
  show "word_bounded ''/a/'' ''Sign-Out'' []"
    by (simp add: word_bounded_def outer_word_def starts_with_in_def word_char_def word_code_def)
qed simp

text \<open>
  Without the customer's opt-in the guard is read-only: a URL that parses is suspect for
  every POST, PUT, PATCH and DELETE in any case of the letters, whatever its text; with the
  opt-in, or for another method, it is suspect exactly if a pattern matches its path, query or
  label.
\<close>

lemma read_only_by_default:
  assumes "urlsplit py url = Inr parts"
  shows "\<exists>c. check py g m url link = Inr c \<and>
     (is_suspect c \<longleftrightarrow>
        upper m \<in> NON_IDEMPOTENT_METHODS \<and> \<not> read_write_enabled g \<or>
        (\<exists>p\<in>set (compiled g). pattern_search p (haystack parts link)))"
  using check_suspect_iff [of py g m url link] check_total [OF assms, of g m link] assms by auto

text \<open>
  A destructive word inside a longer identifier gets through: an underscore is a word
  character, so \<^verbatim>\<open>/delete_user\<close> has no word boundary after \<^verbatim>\<open>delete\<close> and a GET of it is
  not suspect, although the guard is described as denying in ambiguous cases.
\<close>

lemma delete_user_not_flagged:
  "check py strict_guard ''GET'' (''https://'' @ ''shop.io'' @ ''/'' @ ''delete_user'') [] =
     Inr \<lparr>is_suspect = False, check_reason = ''No destructive signal detected.'', matched_pattern = None\<rparr>"
proof -
  have "find (\<lambda>p. pattern_search p ''/delete_user  '') DEFAULT_DESTRUCTIVE_PATTERNS = None"
    by (simp add: DEFAULT_DESTRUCTIVE_PATTERNS_def word_pattern_def stem_pattern_def pair_pattern_def default_pattern_def
     bounded_rx_def stem_rx_def pair_rx_def rx_search_def rlit_i_def starts_with_in_def word_char_def word_code_def lower_char_def char_of_def bit_0 advance_def run_length_def pair_sep_def is_letter_s_def)
  moreover have "upper ''GET'' \<notin> NON_IDEMPOTENT_METHODS"
    by code_simp
  moreover have "urlsplit py (''https://'' @ ''shop.io'' @ ''/'' @ ''delete_user'') =
      Inr \<lparr>url_scheme = ''https'', url_netloc = ''shop.io'', url_path = ''/'' @ ''delete_user'',
           url_query = [], url_fragment = []\<rparr>"
    by (rule urlsplit_https) (simp_all add: plain_netloc_def plain_path_def)
  ultimately show ?thesis by (simp add: check_def strict_guard_def)
qed

end
