(* ===== verification/Rate_Limiter.thy ===== *)
theory Rate_Limiter
  imports Py_Strings Complex_Main
begin

text \<open>
  The adaptive rate limiter: \<^verbatim>\<open>packages/core/src/sentinel_core/rate_limiter/limiter.py\<close>.

  \<open>redis_db\<close> is the part of the Redis database the limiter uses: hashes (the buckets) and
  plain values (the backpressure factors), each with its expiry time, the version that
  \<^verbatim>\<open>WATCH\<close> compares, and the clock, which workers and server share. Numbers are rationals
  where the code has floats. The field \<open>r_granted\<close> is a ghost: the tokens handed out so far
  per bucket, read by theorems only.

  Every \<^verbatim>\<open>await\<close> is a point where other workers may act: the operations take the function
  \<open>env\<close> from databases to databases and apply it at each such point. \<open>limiter_step\<close> is what a
  worker may do to the database in one step; the theorems assume that \<open>env\<close> makes such steps
  and show that the operations themselves make no others.
\<close>

section \<open>Redis\<close>

record bucket =
  tokens :: rat
  ts :: rat

record redis_db =
  r_hash :: "string \<Rightarrow> (bucket \<times> rat) option"
  r_str :: "string \<Rightarrow> (rat \<times> rat) option"
  r_version :: "string \<Rightarrow> nat"
  r_clock :: rat
  r_granted :: "string \<Rightarrow> rat"

text \<open>A key that has expired reads as absent.\<close>

definition live :: "rat \<Rightarrow> ('v \<times> rat) option \<Rightarrow> 'v option" where
  "live now e = (case e of None \<Rightarrow> None | Some (v, t) \<Rightarrow> if now < t then Some v else None)"

definition redis_get :: "string \<Rightarrow> redis_db \<Rightarrow> rat option" where
  "redis_get k db = live (r_clock db) (r_str db k)"

definition redis_hmget :: "string \<Rightarrow> redis_db \<Rightarrow> bucket option" where
  "redis_hmget k db = live (r_clock db) (r_hash db k)"

definition redis_set :: "string \<Rightarrow> rat \<Rightarrow> rat \<Rightarrow> redis_db \<Rightarrow> redis_db" where
  "redis_set k v ex db = db\<lparr>r_str := (r_str db)(k := Some (v, r_clock db + ex))\<rparr>"

definition redis_delete :: "string \<Rightarrow> redis_db \<Rightarrow> redis_db" where
  "redis_delete k db = db\<lparr>r_str := (r_str db)(k := None)\<rparr>"

text \<open>\<^verbatim>\<open>TTL\<close> in whole seconds, rounded; -2 for a key that is not there.\<close>

definition redis_ttl :: "string \<Rightarrow> redis_db \<Rightarrow> int" where
  "redis_ttl k db =
     (case r_str db k of None \<Rightarrow> -2
      | Some (v, t) \<Rightarrow> if r_clock db < t then \<lfloor>t - r_clock db + 1 / 2\<rfloor> else -2)"

section \<open>The limiter\<close>

record limiter_cfg =
  default_rate :: rat
  burst :: nat
  min_factor :: rat

definition MAX_CAS_RETRIES :: nat where
  "MAX_CAS_RETRIES = 10"

record acquire_result =
  acq_allowed :: bool
  wait_seconds :: rat

definition bucket_key :: "string \<Rightarrow> string" where
  "bucket_key tid = ''ratelimit:bucket:'' @ tid"

definition factor_key :: "string \<Rightarrow> string" where
  "factor_key tid = ''ratelimit:factor:'' @ tid"

definition or_default :: "'a option \<Rightarrow> 'a \<Rightarrow> 'a" where
  "or_default x d = (case x of None \<Rightarrow> d | Some v \<Rightarrow> v)"

lemma or_default_simps [simp]: "or_default None d = d" "or_default (Some v) d = v"
  by (simp_all add: or_default_def)

definition effective_rate :: "limiter_cfg \<Rightarrow> string \<Rightarrow> rat option \<Rightarrow> redis_db \<Rightarrow> rat" where
  "effective_rate cfg tid base_rate db =
     (let rate = or_default base_rate (default_rate cfg);
          factor = or_default (redis_get (factor_key tid) db) 1
      in max (rate * factor) (rate * min_factor cfg))"

text \<open>
  The refill and the decision inside the loop of \<^verbatim>\<open>try_acquire\<close>: the tokens to write back and
  the result. A refusal divides by the rate.
\<close>

definition bucket_decide ::
  "nat \<Rightarrow> rat \<Rightarrow> rat \<Rightarrow> rat \<Rightarrow> bucket option \<Rightarrow> (rat \<times> acquire_result) res" where
  "bucket_decide brst rate cost now raw =
     (let tokens0 = (case raw of None \<Rightarrow> of_nat brst | Some b \<Rightarrow> tokens b);
          ts0 = (case raw of None \<Rightarrow> now | Some b \<Rightarrow> ts b);
          elapsed = max 0 (now - ts0);
          toks = min (of_nat brst) (tokens0 + elapsed * rate)
      in if cost \<le> toks then Inr (toks - cost, \<lparr>acq_allowed = True, wait_seconds = 0\<rparr>)
         else if rate = 0 then Inl (Other_Error ''ZeroDivisionError'')
         else Inr (toks, \<lparr>acq_allowed = False, wait_seconds = (cost - toks) / rate\<rparr>))"

text \<open>
  \<^verbatim>\<open>MULTI\<close>, \<^verbatim>\<open>HSET\<close>, \<^verbatim>\<open>EXPIRE 3600\<close>, \<^verbatim>\<open>EXEC\<close>: the write of a transaction that is not aborted.
\<close>

definition commit :: "string \<Rightarrow> rat \<Rightarrow> rat \<Rightarrow> rat \<Rightarrow> redis_db \<Rightarrow> redis_db" where
  "commit k toks now cost db =
     db\<lparr>r_hash := (r_hash db)(k := Some (\<lparr>tokens = toks, ts = now\<rparr>, r_clock db + 3600)),
        r_version := (r_version db)(k := Suc (r_version db k)),
        r_granted := (r_granted db)(k := r_granted db k + cost)\<rparr>"

fun cas_loop ::
  "nat \<Rightarrow> limiter_cfg \<Rightarrow> (redis_db \<Rightarrow> redis_db) \<Rightarrow> string \<Rightarrow> rat \<Rightarrow> rat \<Rightarrow> redis_db \<Rightarrow>
     acquire_result res \<times> redis_db" where
  "cas_loop 0 cfg env k rate cost db =
     (if rate = 0 then (Inl (Other_Error ''ZeroDivisionError''), db)
      else (Inr \<lparr>acq_allowed = False, wait_seconds = 1 / rate\<rparr>, db))"
| "cas_loop (Suc n) cfg env k rate cost db =
     (let version = r_version db k;
          raw = redis_hmget k db;
          db = env db;
          now = r_clock db
      in case bucket_decide (burst cfg) rate cost now raw of
           Inl e \<Rightarrow> (Inl e, db)
         | Inr (toks, result) \<Rightarrow>
             let db = env db
             in if r_version db k = version
                then (Inr result, commit k toks now (if acq_allowed result then cost else 0) db)
                else cas_loop n cfg env k rate cost db)"

definition try_acquire ::
  "limiter_cfg \<Rightarrow> (redis_db \<Rightarrow> redis_db) \<Rightarrow> string \<Rightarrow> rat \<Rightarrow> rat option \<Rightarrow> redis_db \<Rightarrow>
     acquire_result res \<times> redis_db" where
  "try_acquire cfg env tid cost base_rate db =
     (let rate = effective_rate cfg tid base_rate db
      in cas_loop MAX_CAS_RETRIES cfg env (bucket_key tid) rate cost (env db))"

text \<open>
  The blocking loop; \<open>sleep\<close> is \<^verbatim>\<open>asyncio.sleep\<close> or the \<^verbatim>\<open>_sleep\<close> argument. The result is
  \<open>None\<close> where the loop does not end.
\<close>

partial_function (option) acquire ::
  "limiter_cfg \<Rightarrow> (redis_db \<Rightarrow> redis_db) \<Rightarrow> (rat \<Rightarrow> redis_db \<Rightarrow> redis_db) \<Rightarrow> string \<Rightarrow> rat \<Rightarrow>
     rat option \<Rightarrow> redis_db \<Rightarrow> (unit res \<times> redis_db) option" where
  "acquire cfg env sleep tid cost base_rate db =
     (case try_acquire cfg env tid cost base_rate db of
        (Inl e, db') \<Rightarrow> Some (Inl e, db')
      | (Inr r, db') \<Rightarrow>
          if acq_allowed r then Some (Inr (), db')
          else acquire cfg env sleep tid cost base_rate (sleep (min (wait_seconds r) 5 + 1 / 100) db'))"

definition report_backpressure ::
  "limiter_cfg \<Rightarrow> (redis_db \<Rightarrow> redis_db) \<Rightarrow> string \<Rightarrow> rat \<Rightarrow> nat \<Rightarrow> redis_db \<Rightarrow> redis_db" where
  "report_backpressure cfg env tid factor ttl_s db =
     (let current = or_default (redis_get (factor_key tid) db) 1;
          new_factor = max (current * factor) (min_factor cfg)
      in redis_set (factor_key tid) new_factor (of_nat ttl_s) (env db))"

definition report_success :: "(redis_db \<Rightarrow> redis_db) \<Rightarrow> string \<Rightarrow> redis_db \<Rightarrow> redis_db" where
  "report_success env tid db =
     (case redis_get (factor_key tid) db of
        None \<Rightarrow> db
      | Some current \<Rightarrow>
          if 1 \<le> current then redis_delete (factor_key tid) (env db)
          else
            let recovered = min 1 (current * (11 / 10));
                db = env db;
                ttl = redis_ttl (factor_key tid) db;
                db = env db
            in redis_set (factor_key tid) recovered (if 0 < ttl then of_int ttl else 60) db)"

section \<open>The steps of a limiter\<close>

text \<open>
  The configurations the theorems speak of, and the abstract token bucket: \<open>R\<close> bounds every
  rate that a worker may ask for.
\<close>

definition cfg_ok :: "limiter_cfg \<Rightarrow> rat \<Rightarrow> bool" where
  "cfg_ok cfg R \<longleftrightarrow> 0 < min_factor cfg \<and> min_factor cfg \<le> 1 \<and> of_nat (burst cfg) \<le> 3600 * R"

inductive limiter_step :: "limiter_cfg \<Rightarrow> rat \<Rightarrow> rat \<Rightarrow> redis_db \<Rightarrow> redis_db \<Rightarrow> bool"
  for cfg R t0 where
  step_tick: "0 \<le> d \<Longrightarrow> limiter_step cfg R t0 db (db\<lparr>r_clock := r_clock db + d\<rparr>)"
| step_take:
    "t0 \<le> rd \<Longrightarrow> rd \<le> now \<Longrightarrow> now \<le> r_clock db \<Longrightarrow>
     (\<And>b e. r_hash db k = Some (b, e) \<Longrightarrow> ts b \<le> rd) \<Longrightarrow>
     0 < rate \<Longrightarrow> rate \<le> R \<Longrightarrow> 0 \<le> cost \<Longrightarrow>
     bucket_decide (burst cfg) rate cost now (live rd (r_hash db k)) = Inr (toks, res) \<Longrightarrow>
     limiter_step cfg R t0 db (commit k toks now (if acq_allowed res then cost else 0) db)"
| step_factor:
    "min_factor cfg \<le> f \<Longrightarrow> f \<le> 1 \<Longrightarrow> limiter_step cfg R t0 db (redis_set k f ex db)"
| step_delete: "limiter_step cfg R t0 db (redis_delete k db)"

text \<open>
  What holds of every bucket: its tokens are between zero and the burst, its time stamp is not
  in the future and its expiry not before an hour after it; every factor is between the floor
  and one; and the tokens granted since \<open>t0\<close>, with those still in the bucket, are covered by the
  burst and the refill.
\<close>

definition bucket_ok :: "limiter_cfg \<Rightarrow> rat \<Rightarrow> rat \<Rightarrow> redis_db \<Rightarrow> string \<Rightarrow> bool" where
  "bucket_ok cfg R t0 db k \<longleftrightarrow>
     (case r_hash db k of
        None \<Rightarrow> r_granted db k \<le> 0
      | Some (b, e) \<Rightarrow>
          0 \<le> tokens b \<and> tokens b \<le> of_nat (burst cfg) \<and> ts b \<le> r_clock db \<and> t0 \<le> ts b \<and>
          ts b + 3600 \<le> e \<and>
          r_granted db k + tokens b \<le> of_nat (burst cfg) + R * (ts b - t0))"

definition factor_ok :: "limiter_cfg \<Rightarrow> redis_db \<Rightarrow> bool" where
  "factor_ok cfg db \<longleftrightarrow> (\<forall>k f e. r_str db k = Some (f, e) \<longrightarrow> min_factor cfg \<le> f \<and> f \<le> 1)"

definition limiter_inv :: "limiter_cfg \<Rightarrow> rat \<Rightarrow> rat \<Rightarrow> redis_db \<Rightarrow> bool" where
  "limiter_inv cfg R t0 db \<longleftrightarrow> t0 \<le> r_clock db \<and> factor_ok cfg db \<and> (\<forall>k. bucket_ok cfg R t0 db k)"

definition empty_db :: "rat \<Rightarrow> redis_db" where
  "empty_db t0 = \<lparr>r_hash = (\<lambda>_. None), r_str = (\<lambda>_. None), r_version = (\<lambda>_. 0),
                  r_clock = t0, r_granted = (\<lambda>_. 0)\<rparr>"

section \<open>Facts about one decision\<close>

text \<open>The tokens a decision starts from.\<close>

definition level :: "nat \<Rightarrow> rat \<Rightarrow> rat \<Rightarrow> bucket option \<Rightarrow> rat" where
  "level brst rate now raw =
     (case raw of None \<Rightarrow> of_nat brst
      | Some b \<Rightarrow> min (of_nat brst) (tokens b + max 0 (now - ts b) * rate))"

lemma bucket_decide_level:
  "bucket_decide brst rate cost now raw =
     (let l = level brst rate now raw
      in if cost \<le> l then Inr (l - cost, \<lparr>acq_allowed = True, wait_seconds = 0\<rparr>)
         else if rate = 0 then Inl (Other_Error ''ZeroDivisionError'')
         else Inr (l, \<lparr>acq_allowed = False, wait_seconds = (cost - l) / rate\<rparr>))"
  by (cases raw) (simp_all add: bucket_decide_def level_def Let_def)

lemma decide_sum:
  assumes "bucket_decide brst rate cost now raw = Inr (toks, res)"
  shows "toks + (if acq_allowed res then cost else 0) = level brst rate now raw"
  using assms by (auto simp: bucket_decide_level Let_def split: if_splits)

lemma decide_bounds:
  assumes "bucket_decide brst rate cost now raw = Inr (toks, res)" and "0 \<le> cost"
    and "0 \<le> level brst rate now raw"
  shows "0 \<le> toks \<and> toks \<le> level brst rate now raw"
  using assms by (auto simp: bucket_decide_level Let_def split: if_splits)

lemma decide_total: "0 < rate \<Longrightarrow> \<exists>toks res. bucket_decide brst rate cost now raw = Inr (toks, res)"
  by (simp add: bucket_decide_level Let_def)

lemma level_le_burst: "level brst rate now raw \<le> of_nat brst"
  by (simp add: level_def split: option.split)

lemma level_nonneg:
  assumes "\<And>b. raw = Some b \<Longrightarrow> 0 \<le> tokens b" and "0 \<le> rate"
  shows "0 \<le> level brst rate now raw"
  using assms by (auto simp: level_def split: option.split)

section \<open>The invariant\<close>

lemma bucket_ok_take:
  assumes ok: "bucket_ok cfg R t0 db k" and cfg: "cfg_ok cfg R"
    and time: "t0 \<le> rd" "rd \<le> now" "now \<le> r_clock db"
      "\<And>b e. r_hash db k = Some (b, e) \<Longrightarrow> ts b \<le> rd"
    and rate: "0 < rate" "rate \<le> R" "0 \<le> cost"
    and dec: "bucket_decide (burst cfg) rate cost now (live rd (r_hash db k)) = Inr (toks, res)"
  shows "bucket_ok cfg R t0 (commit k toks now (if acq_allowed res then cost else 0) db) k"
proof -
  let ?raw = "live rd (r_hash db k)" and ?B = "of_nat (burst cfg) :: rat"
  let ?l = "level (burst cfg) rate now ?raw" and ?c = "if acq_allowed res then cost else 0"
  have pos: "0 \<le> tokens b" if "?raw = Some b" for b
    using ok that by (auto simp: bucket_ok_def live_def split: option.splits if_splits)
  have l0: "0 \<le> ?l" using level_nonneg [OF pos] rate(1) by simp
  have toks: "0 \<le> toks" "toks \<le> ?l" "toks + ?c = ?l"
    using decide_bounds [OF dec rate(3) l0] decide_sum [OF dec] by simp_all
  have covered: "r_granted db k + ?l \<le> ?B + R * (now - t0)"
  proof (cases "r_hash db k")
    case None
    then have "?raw = None" by (simp add: live_def)
    then have l: "?l = ?B" by (simp add: level_def)
    have "0 \<le> R * (now - t0)" using rate time by simp
    with None ok l show ?thesis by (simp add: bucket_ok_def)
  next
    case (Some be)
    then obtain b e where be: "r_hash db k = Some (b, e)" by (cases be) auto
    with ok have g: "r_granted db k + tokens b \<le> ?B + R * (ts b - t0)" and tk: "0 \<le> tokens b"
      and e: "ts b + 3600 \<le> e" by (auto simp: bucket_ok_def)
    have later: "R * (now - t0) = R * (ts b - t0) + R * (now - ts b)" by (simp add: algebra_simps)
    show ?thesis
    proof (cases "rd < e")
      case True
      with be have "?raw = Some b" by (simp add: live_def)
      then have "?l \<le> tokens b + max 0 (now - ts b) * rate" by (simp add: level_def)
      moreover have "max 0 (now - ts b) * rate \<le> R * (now - ts b)"
        using time(2) time(4) [OF be] rate by (simp add: mult.commute mult_right_mono)
      ultimately show ?thesis using g later by linarith
    next
      case False
      with be have "?raw = None" by (simp add: live_def)
      then have l: "?l = ?B" by (simp add: level_def)
      have "3600 \<le> now - ts b" using False e time(2) by linarith
      then have "R * 3600 \<le> R * (now - ts b)" using rate by (intro mult_left_mono) simp_all
      with cfg have "?B \<le> R * (now - ts b)" by (simp add: cfg_ok_def mult.commute)
      with g tk l later show ?thesis by linarith
    qed
  qed
  have "toks \<le> ?B" using toks(2) level_le_burst [of "burst cfg" rate now ?raw] by linarith
  with toks covered time show ?thesis
    by (simp add: bucket_ok_def commit_def)
qed

lemma bucket_ok_frame:
  "r_hash db' k = r_hash db k \<Longrightarrow> r_granted db' k = r_granted db k \<Longrightarrow> r_clock db' = r_clock db \<Longrightarrow>
     bucket_ok cfg R t0 db' k \<longleftrightarrow> bucket_ok cfg R t0 db k"
  by (simp add: bucket_ok_def split: option.split)

lemma bucket_ok_tick:
  "bucket_ok cfg R t0 db k \<Longrightarrow> 0 \<le> d \<Longrightarrow> bucket_ok cfg R t0 (db\<lparr>r_clock := r_clock db + d\<rparr>) k"
  by (auto simp: bucket_ok_def split: option.splits)

lemma limiter_step_inv:
  assumes "cfg_ok cfg R" and "limiter_inv cfg R t0 db" and "limiter_step cfg R t0 db db'"
  shows "limiter_inv cfg R t0 db'"
  using assms(3)
proof (cases rule: limiter_step.cases)
  case (step_tick d)
  with assms(2) show ?thesis
    by (auto simp: limiter_inv_def factor_ok_def intro: bucket_ok_tick)
next
  case (step_take rd now k rate cost toks res)
  have "bucket_ok cfg R t0 db' k"
    unfolding step_take(1)
    by (rule bucket_ok_take) (use assms step_take in \<open>auto simp: limiter_inv_def\<close>)
  moreover have "bucket_ok cfg R t0 db' k'" if "k' \<noteq> k" for k'
    using assms(2) that bucket_ok_frame [of db' k' db]
    by (simp add: step_take(1) limiter_inv_def commit_def)
  ultimately have "bucket_ok cfg R t0 db' k'" for k' by (cases "k' = k") simp_all
  moreover have "t0 \<le> r_clock db'" "factor_ok cfg db'"
    using assms(2) by (simp_all add: limiter_inv_def step_take(1) commit_def factor_ok_def)
  ultimately show ?thesis by (simp add: limiter_inv_def)
next
  case (step_factor f k ex)
  with assms(2) show ?thesis
    using bucket_ok_frame [of db' _ db] by (auto simp: limiter_inv_def factor_ok_def redis_set_def)
next
  case (step_delete k)
  with assms(2) show ?thesis
    using bucket_ok_frame [of db' _ db] by (auto simp: limiter_inv_def factor_ok_def redis_delete_def)
qed

definition running :: "limiter_cfg \<Rightarrow> rat \<Rightarrow> rat \<Rightarrow> redis_db \<Rightarrow> redis_db \<Rightarrow> bool" where
  "running cfg R t0 db db' \<longleftrightarrow> cfg_ok cfg R \<and> limiter_step cfg R t0 db db'"

interpretation limiter: invariant_system
  "\<lambda>db. db = empty_db t0" "running cfg R t0" "limiter_inv cfg R t0" for cfg R t0
proof unfold_locales
  show "limiter_inv cfg R t0 s" if "s = empty_db t0" for s
    using that by (simp add: empty_db_def limiter_inv_def factor_ok_def bucket_ok_def)
  show "limiter_inv cfg R t0 t" if "limiter_inv cfg R t0 s" "running cfg R t0 s t" for s t
    using that limiter_step_inv by (auto simp: running_def)
qed

section \<open>The operations make limiter steps only\<close>

text \<open>What the other workers may do at an \<^verbatim>\<open>await\<close>.\<close>

definition well_behaved :: "limiter_cfg \<Rightarrow> rat \<Rightarrow> rat \<Rightarrow> (redis_db \<Rightarrow> redis_db) \<Rightarrow> bool" where
  "well_behaved cfg R t0 env \<longleftrightarrow>
     (\<forall>db. limiter_inv cfg R t0 db \<longrightarrow> (running cfg R t0)\<^sup>*\<^sup>* db (env db))"

lemma well_behavedD:
  assumes "well_behaved cfg R t0 env" and "limiter_inv cfg R t0 db"
  shows "(running cfg R t0)\<^sup>*\<^sup>* db (env db)" and "limiter_inv cfg R t0 (env db)"
proof -
  show s: "(running cfg R t0)\<^sup>*\<^sup>* db (env db)" using assms by (simp add: well_behaved_def)
  show "limiter_inv cfg R t0 (env db)" by (rule limiter.closure_inv [OF s assms(2)])
qed

lemma running_watch:
  "(running cfg R t0)\<^sup>*\<^sup>* db db' \<Longrightarrow>
     r_version db k \<le> r_version db' k \<and> r_clock db \<le> r_clock db' \<and>
     (r_version db' k = r_version db k \<longrightarrow> r_hash db' k = r_hash db k)"
proof (induction rule: rtranclp_induct)
  case (step y z)
  from step(2) have "limiter_step cfg R t0 y z" by (simp add: running_def)
  then have "r_version y k \<le> r_version z k \<and> r_clock y \<le> r_clock z \<and>
     (r_version z k = r_version y k \<longrightarrow> r_hash z k = r_hash y k)"
    by (cases rule: limiter_step.cases) (auto simp: commit_def redis_set_def redis_delete_def)
  with step(3) show ?case by auto
qed simp

lemma factor_bounds:
  assumes "factor_ok cfg db" and "cfg_ok cfg R"
  shows "min_factor cfg \<le> or_default (redis_get k db) 1 \<and> or_default (redis_get k db) 1 \<le> 1"
proof (cases "redis_get k db")
  case None
  with assms(2) show ?thesis by (simp add: cfg_ok_def)
next
  case (Some f)
  then obtain e where "r_str db k = Some (f, e)"
    by (auto simp: redis_get_def live_def split: option.splits if_splits)
  with Some assms(1) show ?thesis by (simp add: factor_ok_def) blast
qed

lemma effective_rate_bounds:
  assumes "factor_ok cfg db" and "cfg_ok cfg R" and "0 < or_default base (default_rate cfg)"
  shows "or_default base (default_rate cfg) * min_factor cfg \<le> effective_rate cfg tid base db"
    and "effective_rate cfg tid base db \<le> or_default base (default_rate cfg)"
    and "0 < effective_rate cfg tid base db"
proof -
  let ?r = "or_default base (default_rate cfg)" and ?f = "or_default (redis_get (factor_key tid) db) 1"
  note f = factor_bounds [OF assms(1,2), of "factor_key tid"]
  have m: "0 < ?r * min_factor cfg" "?r * min_factor cfg \<le> ?r * 1" "?r * ?f \<le> ?r * 1"
    using assms(2,3) f unfolding cfg_ok_def by (intro mult_pos_pos mult_left_mono; simp)+
  show "?r * min_factor cfg \<le> effective_rate cfg tid base db"
    "effective_rate cfg tid base db \<le> ?r" "0 < effective_rate cfg tid base db"
    using m by (auto simp: effective_rate_def Let_def less_max_iff_disj)
qed

text \<open>
  One pass of the optimistic loop: if nobody wrote the bucket since \<^verbatim>\<open>WATCH\<close>, the transaction
  is the atomic step on the bucket as it is now.
\<close>

lemma cas_commit_step:
  assumes inv: "limiter_inv cfg R t0 db"
    and s1: "(running cfg R t0)\<^sup>*\<^sup>* db db1" and s2: "(running cfg R t0)\<^sup>*\<^sup>* db1 db2"
    and cfg: "cfg_ok cfg R" and rate: "0 < rate" "rate \<le> R" "0 \<le> cost"
    and dec: "bucket_decide (burst cfg) rate cost (r_clock db1) (redis_hmget k db) = Inr (toks, res)"
    and same: "r_version db2 k = r_version db k"
  shows "running cfg R t0 db2 (commit k toks (r_clock db1) (if acq_allowed res then cost else 0) db2)"
proof -
  have h: "r_hash db2 k = r_hash db k"
    using running_watch [OF rtranclp_trans [OF s1 s2], of k] same by simp
  have t: "r_clock db \<le> r_clock db1" "r_clock db1 \<le> r_clock db2"
    using running_watch [OF s1, of k] running_watch [OF s2, of k] by simp_all
  have "ts b \<le> r_clock db" if "r_hash db2 k = Some (b, e)" for b e
  proof -
    from inv have "bucket_ok cfg R t0 db k" by (simp add: limiter_inv_def)
    with that show ?thesis unfolding h by (simp add: bucket_ok_def)
  qed
  then have "limiter_step cfg R t0 db2 (commit k toks (r_clock db1) (if acq_allowed res then cost else 0) db2)"
    using inv t rate dec
    by (intro step_take [of t0 "r_clock db" "r_clock db1" db2 k rate R cost])
      (simp_all add: h redis_hmget_def limiter_inv_def)
  with cfg show ?thesis by (simp add: running_def)
qed

text \<open>The outcome of \<^verbatim>\<open>try_acquire\<close>: refused without a trace, or one atomic step.\<close>

definition atomic_outcome ::
  "limiter_cfg \<Rightarrow> rat \<Rightarrow> rat \<Rightarrow> string \<Rightarrow> rat \<Rightarrow> redis_db \<Rightarrow> acquire_result \<Rightarrow> redis_db \<Rightarrow> bool" where
  "atomic_outcome cfg R t0 k cost db r db' \<longleftrightarrow>
     (running cfg R t0)\<^sup>*\<^sup>* db db' \<and> \<not> acq_allowed r \<or>
     (\<exists>db1 toks now. (running cfg R t0)\<^sup>*\<^sup>* db db1 \<and> running cfg R t0 db1 db' \<and>
        db' = commit k toks now (if acq_allowed r then cost else 0) db1)"

lemma cas_loop_atomic:
  assumes "well_behaved cfg R t0 env" and "limiter_inv cfg R t0 db" and "cfg_ok cfg R"
    and "0 < rate" "rate \<le> R" "0 \<le> cost"
  shows "\<exists>r db'. cas_loop n cfg env k rate cost db = (Inr r, db') \<and>
           atomic_outcome cfg R t0 k cost db r db'"
  using assms(2)
proof (induction n arbitrary: db)
  case 0
  with assms(4) show ?case by (simp add: atomic_outcome_def)
next
  case (Suc n)
  note e1 = well_behavedD [OF assms(1) Suc.prems]
  note e2 = well_behavedD [OF assms(1) e1(2)]
  have steps: "(running cfg R t0)\<^sup>*\<^sup>* db (env (env db))" using e1(1) e2(1) by (rule rtranclp_trans)
  obtain toks res where dec: "bucket_decide (burst cfg) rate cost (r_clock (env db)) (redis_hmget k db)
      = Inr (toks, res)"
    using decide_total [OF assms(4)] by blast
  show ?case
  proof (cases "r_version (env (env db)) k = r_version db k")
    case True
    from cas_commit_step [OF Suc.prems e1(1) e2(1) assms(3-6) dec True] steps
    have "atomic_outcome cfg R t0 k cost db res
        (commit k toks (r_clock (env db)) (if acq_allowed res then cost else 0) (env (env db)))"
      unfolding atomic_outcome_def by blast
    with True dec show ?thesis by (simp add: Let_def)
  next
    case False
    with dec have "cas_loop (Suc n) cfg env k rate cost db = cas_loop n cfg env k rate cost (env (env db))"
      by (simp add: Let_def)
    with Suc.IH [OF e2(2)] steps show ?thesis
      unfolding atomic_outcome_def by (metis rtranclp_trans)
  qed
qed

lemma try_acquire_atomic:
  assumes "well_behaved cfg R t0 env" and "limiter_inv cfg R t0 db" and "cfg_ok cfg R"
    and "0 < or_default base (default_rate cfg)" "or_default base (default_rate cfg) \<le> R" "0 \<le> cost"
  shows "\<exists>r db'. try_acquire cfg env tid cost base db = (Inr r, db') \<and>
           atomic_outcome cfg R t0 (bucket_key tid) cost db r db'"
proof -
  have "factor_ok cfg db" using assms(2) by (simp add: limiter_inv_def)
  note rate = effective_rate_bounds [OF this assms(3,4), of tid]
  note e = well_behavedD [OF assms(1,2)]
  obtain r db' where r: "try_acquire cfg env tid cost base db = (Inr r, db')"
    "atomic_outcome cfg R t0 (bucket_key tid) cost (env db) r db'"
    using cas_loop_atomic [OF assms(1) e(2) assms(3) rate(3) _ assms(6),
        where n = MAX_CAS_RETRIES and k = "bucket_key tid"] rate(2) assms(5)
    by (auto simp: try_acquire_def Let_def)
  from r(2) e(1) have "atomic_outcome cfg R t0 (bucket_key tid) cost db r db'"
    unfolding atomic_outcome_def by (metis rtranclp_trans)
  with r(1) show ?thesis by blast
qed

lemma running_set: "cfg_ok cfg R \<Longrightarrow> min_factor cfg \<le> f \<Longrightarrow> f \<le> 1 \<Longrightarrow> running cfg R t0 db (redis_set k f ex db)"
  by (simp add: running_def step_factor)

lemma running_delete: "cfg_ok cfg R \<Longrightarrow> running cfg R t0 db (redis_delete k db)"
  by (simp add: running_def step_delete)

lemma report_backpressure_running:
  assumes "well_behaved cfg R t0 env" and "limiter_inv cfg R t0 db" and "cfg_ok cfg R"
    and "0 \<le> factor" "factor \<le> 1"
  shows "(running cfg R t0)\<^sup>*\<^sup>* db (report_backpressure cfg env tid factor ttl db)"
proof -
  let ?cur = "or_default (redis_get (factor_key tid) db) 1"
  have "factor_ok cfg db" using assms(2) by (simp add: limiter_inv_def)
  from factor_bounds [OF this assms(3), of "factor_key tid"]
  have "?cur \<le> 1" "0 \<le> ?cur" using assms(3) by (auto simp: cfg_ok_def)
  then have "?cur * factor \<le> 1 * 1" using assms(4,5) by (intro mult_mono) simp_all
  then have "max (?cur * factor) (min_factor cfg) \<le> 1" using assms(3) by (simp add: cfg_ok_def)
  then have "running cfg R t0 (env db) (report_backpressure cfg env tid factor ttl db)"
    using running_set [OF assms(3)] by (simp add: report_backpressure_def)
  with well_behavedD(1) [OF assms(1,2)] show ?thesis by (rule rtranclp.rtrancl_into_rtrancl)
qed

lemma report_success_running:
  assumes "well_behaved cfg R t0 env" and "limiter_inv cfg R t0 db" and "cfg_ok cfg R"
  shows "(running cfg R t0)\<^sup>*\<^sup>* db (report_success env tid db)"
proof (cases "redis_get (factor_key tid) db")
  case None
  then show ?thesis by (simp add: report_success_def)
next
  case (Some cur)
  note e1 = well_behavedD [OF assms(1,2)]
  note e2 = well_behavedD [OF assms(1) e1(2)]
  have "factor_ok cfg db" using assms(2) by (simp add: limiter_inv_def)
  from factor_bounds [OF this assms(3), of "factor_key tid"] Some
  have c: "min_factor cfg \<le> cur" by simp
  with assms(3) have m: "min_factor cfg \<le> min 1 (cur * (11 / 10))" by (auto simp: cfg_ok_def)
  show ?thesis
  proof (cases "1 \<le> cur")
    case True
    with Some have "report_success env tid db = redis_delete (factor_key tid) (env db)"
      by (simp add: report_success_def)
    then have "running cfg R t0 (env db) (report_success env tid db)"
      using running_delete [OF assms(3)] by simp
    with e1(1) show ?thesis by (rule rtranclp.rtrancl_into_rtrancl)
  next
    case False
    with Some have "running cfg R t0 (env (env db)) (report_success env tid db)"
      using running_set [OF assms(3) m] by (simp add: report_success_def Let_def)
    with rtranclp_trans [OF e1(1) e2(1)] show ?thesis by (rule rtranclp.rtrancl_into_rtrancl)
  qed
qed

section \<open>Blocking acquisition\<close>

text \<open>A function that lets time pass, at least \<open>x\<close>, and changes nothing else.\<close>

definition passes :: "rat \<Rightarrow> (redis_db \<Rightarrow> redis_db) \<Rightarrow> bool" where
  "passes x f \<longleftrightarrow> (\<forall>db. \<exists>d. 0 \<le> d \<and> x \<le> d \<and> f db = db\<lparr>r_clock := r_clock db + d\<rparr>)"

lemma passesD:
  assumes "passes x f"
  shows "r_hash (f db) = r_hash db" "r_str (f db) = r_str db" "r_version (f db) = r_version db"
    "r_granted (f db) = r_granted db" "r_clock db + x \<le> r_clock (f db)" "r_clock db \<le> r_clock (f db)"
proof -
  obtain d where "0 \<le> d" "x \<le> d" "f db = db\<lparr>r_clock := r_clock db + d\<rparr>"
    using assms unfolding passes_def by blast
  then show "r_hash (f db) = r_hash db" "r_str (f db) = r_str db" "r_version (f db) = r_version db"
    "r_granted (f db) = r_granted db" "r_clock db + x \<le> r_clock (f db)" "r_clock db \<le> r_clock (f db)"
    by simp_all
qed

lemma passes_running: "passes x f \<Longrightarrow> cfg_ok cfg R \<Longrightarrow> running cfg R t0 db (f db)"
  unfolding passes_def running_def by (metis step_tick)

lemma passes_well_behaved: "passes x f \<Longrightarrow> cfg_ok cfg R \<Longrightarrow> well_behaved cfg R t0 f"
  using passes_running unfolding well_behaved_def by (blast intro: r_into_rtranclp)

text \<open>One \<^verbatim>\<open>try_acquire\<close> of a worker that is alone: its transaction is not aborted.\<close>

lemma try_acquire_alone:
  assumes env: "passes x env" and cfg: "cfg_ok cfg R" and inv: "limiter_inv cfg R t0 db"
    and rate: "0 < or_default base (default_rate cfg)"
    and k_def: "k = bucket_key tid" and r0_def: "r0 = effective_rate cfg tid base db"
  obtains r toks now db' where "try_acquire cfg env tid cost base db = (Inr r, db')"
    "r_hash db' k = Some (\<lparr>tokens = toks, ts = now\<rparr>, r_clock db' + 3600)"
    "r_granted db' k = r_granted db k + (if acq_allowed r then cost else 0)"
    "r_clock db \<le> now" "now \<le> r_clock db'"
    "bucket_decide (burst cfg) r0 cost now (redis_hmget k (env db)) = Inr (toks, r)"
proof -
  let ?db1 = "env (env db)" and ?db2 = "env (env (env db))"
  have "0 < r0"
    using effective_rate_bounds(3) [OF _ cfg rate] inv by (simp add: limiter_inv_def r0_def)
  then obtain toks r where dec:
    "bucket_decide (burst cfg) r0 cost (r_clock ?db1) (redis_hmget k (env db)) = Inr (toks, r)"
    using decide_total by blast
  then have "try_acquire cfg env tid cost base db =
      (Inr r, commit k toks (r_clock ?db1) (if acq_allowed r then cost else 0) ?db2)"
    using passesD(3) [OF env]
    by (simp add: try_acquire_def MAX_CAS_RETRIES_def numeral_eq_Suc Let_def k_def r0_def)
  moreover have "r_clock db \<le> r_clock ?db1" "r_clock ?db1 \<le> r_clock ?db2"
    using passesD(6) [OF env] by (blast intro: order_trans)+
  ultimately show ?thesis
    using that [OF _ _ _ _ _ dec] passesD(4) [OF env] by (simp add: commit_def)
qed

text \<open>
  The progress of the waiting loop: after a refusal and its sleep the bucket is at least a
  hundredth of a second old, and each further refusal puts at least the refill of that time
  into it. \<open>n\<close> such refusals are enough for the missing tokens.
\<close>

definition waited :: "string \<Rightarrow> rat \<Rightarrow> rat \<Rightarrow> nat \<Rightarrow> redis_db \<Rightarrow> bool" where
  "waited k cost q n db \<longleftrightarrow>
     (\<exists>b e. r_hash db k = Some (b, e) \<and> ts b + 1 / 100 \<le> r_clock db \<and> cost \<le> tokens b + of_nat n * q)"

text \<open>\<open>asyncio.sleep\<close>: time passes, at least as long as was asked for.\<close>

definition sleeps :: "(rat \<Rightarrow> redis_db \<Rightarrow> redis_db) \<Rightarrow> bool" where
  "sleeps sleep \<longleftrightarrow> (\<forall>x. passes x (sleep x))"

definition got_token :: "string \<Rightarrow> rat \<Rightarrow> redis_db \<Rightarrow> (unit res \<times> redis_db) option \<Rightarrow> bool" where
  "got_token k cost db out \<longleftrightarrow> (\<exists>db'. out = Some (Inr (), db') \<and> r_granted db' k = r_granted db k + cost)"

lemma waited_level:
  assumes "waited k cost q n db" and "q = rmin / 100" and "0 < rmin" and "rmin \<le> r0"
    and "r_clock db \<le> now" and "passes x env" and "cost \<le> of_nat (burst cfg)"
  shows "cost \<le> level (burst cfg) r0 now (redis_hmget k (env db)) + of_nat (n - 1) * q"
proof (cases "redis_hmget k (env db)")
  case None
  have "0 \<le> of_nat (n - 1) * q" using assms(2,3) by simp
  with None assms(7) show ?thesis by (simp add: level_def)
next
  case (Some b)
  then obtain e where e: "r_hash db k = Some (b, e)"
    using passesD(1) [OF assms(6)] by (auto simp: redis_hmget_def live_def split: option.splits if_splits)
  with assms(1) have b: "ts b + 1 / 100 \<le> r_clock db" "cost \<le> tokens b + of_nat n * q"
    by (auto simp: waited_def)
  have "(1 / 100) * rmin \<le> max 0 (now - ts b) * r0"
    using b(1) assms(3,4,5) by (intro mult_mono) simp_all
  then have "q \<le> max 0 (now - ts b) * r0" using assms(2) by simp
  moreover have "of_nat n * q \<le> q + of_nat (n - 1) * q"
    using assms(2,3) by (cases n) (simp_all add: algebra_simps)
  ultimately have "cost \<le> tokens b + max 0 (now - ts b) * r0 + of_nat (n - 1) * q"
    using b(2) by linarith
  moreover have "0 \<le> of_nat (n - 1) * q" using assms(2,3) by simp
  ultimately show ?thesis using Some assms(7) by (simp add: level_def min_def)
qed

lemma acquire_unfold:
  assumes "try_acquire cfg env tid cost base db = (Inr r, db')"
  shows "acquire cfg env sleep tid cost base db =
     (if acq_allowed r then Some (Inr (), db')
      else acquire cfg env sleep tid cost base (sleep (min (wait_seconds r) 5 + 1 / 100) db'))"
  using assms by (subst acquire.simps) simp

text \<open>What a lone worker knows after one \<^verbatim>\<open>try_acquire\<close>: it has the token, or it has slept.\<close>

lemma acquire_round:
  assumes env: "passes x env" and sleep: "sleeps sleep"
    and cfg: "cfg_ok cfg R" and inv: "limiter_inv cfg R t0 db"
    and rate: "0 < or_default base (default_rate cfg)" "or_default base (default_rate cfg) \<le> R"
    and cost: "0 \<le> cost" and k: "k = bucket_key tid" and r0: "r0 = effective_rate cfg tid base db"
  obtains (granted) "got_token k cost db (acquire cfg env sleep tid cost base db)"
    | (slept) db' now e where
        "acquire cfg env sleep tid cost base db = acquire cfg env sleep tid cost base db'"
        "limiter_inv cfg R t0 db'" "r_granted db' k = r_granted db k" "r_clock db \<le> now"
        "r_hash db' k = Some (\<lparr>tokens = level (burst cfg) r0 now (redis_hmget k (env db)), ts = now\<rparr>, e)"
        "now + 1 / 100 \<le> r_clock db'" "level (burst cfg) r0 now (redis_hmget k (env db)) < cost"
proof -
  have r0_pos: "0 < r0"
    using effective_rate_bounds(3) [OF _ cfg rate(1)] inv by (simp add: limiter_inv_def r0)
  obtain r toks now db1 where try1: "try_acquire cfg env tid cost base db = (Inr r, db1)"
    and h: "r_hash db1 k = Some (\<lparr>tokens = toks, ts = now\<rparr>, r_clock db1 + 3600)"
    and g: "r_granted db1 k = r_granted db k + (if acq_allowed r then cost else 0)"
    and t: "r_clock db \<le> now" "now \<le> r_clock db1"
    and dec: "bucket_decide (burst cfg) r0 cost now (redis_hmget k (env db)) = Inr (toks, r)"
    by (rule try_acquire_alone [OF env cfg inv rate(1) k r0])
  show ?thesis
  proof (cases "acq_allowed r")
    case True
    with try1 g have "got_token k cost db (acquire cfg env sleep tid cost base db)"
      by (simp add: acquire_unfold got_token_def)
    then show ?thesis by (rule granted)
  next
    case False
    let ?x = "min (wait_seconds r) 5 + 1 / 100"
    let ?db' = "sleep ?x db1"
    from False dec r0_pos have toks: "toks = level (burst cfg) r0 now (redis_hmget k (env db))"
      and low: "toks < cost" and wait: "wait_seconds r = (cost - toks) / r0"
      by (auto simp: bucket_decide_level Let_def split: if_splits)
    have "1 / 100 \<le> ?x" using low wait r0_pos by simp
    have nap: "passes ?x (sleep ?x)" using sleep by (simp add: sleeps_def)
    have steps: "(running cfg R t0)\<^sup>*\<^sup>* db db1"
      using try_acquire_atomic [OF passes_well_behaved [OF env cfg] inv cfg rate cost, of tid] try1
      unfolding atomic_outcome_def by (auto intro: rtranclp.rtrancl_into_rtrancl)
    have "limiter_inv cfg R t0 ?db'"
      by (rule limiter.closure_inv [OF _ inv])
        (rule rtranclp.rtrancl_into_rtrancl [OF steps passes_running [OF nap cfg]])
    moreover have "now + 1 / 100 \<le> r_clock ?db'"
      using passesD(5) [OF nap, of db1] t(2) \<open>1 / 100 \<le> ?x\<close> by linarith
    ultimately show ?thesis
      using slept [of ?db' now "r_clock db1 + 3600"] False try1 g h t toks low passesD(1,4) [OF nap]
      by (simp add: acquire_unfold)
  qed
qed

lemma acquire_after_wait:
  assumes env: "passes x env" and sleep: "sleeps sleep" and cfg: "cfg_ok cfg R"
    and rate: "0 < or_default base (default_rate cfg)" "or_default base (default_rate cfg) \<le> R"
    and cost: "0 \<le> cost" "cost \<le> of_nat (burst cfg)"
    and q: "q = or_default base (default_rate cfg) * min_factor cfg / 100"
  shows "limiter_inv cfg R t0 db \<Longrightarrow> waited (bucket_key tid) cost q n db \<Longrightarrow>
           got_token (bucket_key tid) cost db (acquire cfg env sleep tid cost base db)"
proof (induction n arbitrary: db)
  case 0
  have fk: "factor_ok cfg db" using 0(1) by (simp add: limiter_inv_def)
  have rm: "0 < or_default base (default_rate cfg) * min_factor cfg"
    using rate cfg by (simp add: cfg_ok_def)
  show ?case
  proof (cases rule: acquire_round [OF env sleep cfg 0(1) rate cost(1) refl refl, of tid, case_names granted slept])
    case granted
    then show ?thesis .
  next
    case (slept db' now e)
    from waited_level [OF 0(2) q rm effective_rate_bounds(1) [OF fk cfg rate(1), of tid] slept(4) env cost(2)]
      slept(7) show ?thesis by simp
  qed
next
  case (Suc n)
  have fk: "factor_ok cfg db" using Suc(2) by (simp add: limiter_inv_def)
  have rm: "0 < or_default base (default_rate cfg) * min_factor cfg"
    using rate cfg by (simp add: cfg_ok_def)
  show ?case
  proof (cases rule: acquire_round [OF env sleep cfg Suc(2) rate cost(1) refl refl, of tid, case_names granted slept])
    case granted
    then show ?thesis .
  next
    case (slept db' now e)
    from waited_level [OF Suc(3) q rm effective_rate_bounds(1) [OF fk cfg rate(1), of tid] slept(4) env cost(2)]
    have "waited (bucket_key tid) cost q n db'"
      using slept(5,6) by (simp add: waited_def)
    from Suc.IH [OF slept(2) this] slept(1,3) show ?thesis by (simp add: got_token_def)
  qed
qed

lemma acquire_got_token:
  assumes "passes 0 env" and "sleeps sleep" and "cfg_ok cfg R" and "limiter_inv cfg R t0 db"
    and "0 < or_default base (default_rate cfg)" "or_default base (default_rate cfg) \<le> R"
    and "0 \<le> cost" "cost \<le> of_nat (burst cfg)"
  shows "got_token (bucket_key tid) cost db (acquire cfg env sleep tid cost base db)"
proof (cases rule: acquire_round [OF assms(1-7) refl refl, of tid, case_names granted slept])
    case (slept db' now e)
    let ?q = "or_default base (default_rate cfg) * min_factor cfg / 100"
    let ?l = "level (burst cfg) (effective_rate cfg tid base db) now (redis_hmget (bucket_key tid) (env db))"
    have "0 < ?q" using assms(3,5) by (simp add: cfg_ok_def)
    then obtain n where "(cost - ?l) / ?q < of_nat n" using reals_Archimedean2 by blast
    with \<open>0 < ?q\<close> have "cost \<le> ?l + of_nat n * ?q"
      by (simp add: pos_divide_less_eq del: times_divide_eq_right)
    then have "waited (bucket_key tid) cost ?q n db'" using slept(5,6) by (simp add: waited_def)
    from acquire_after_wait [OF assms(1-3,5-8) refl slept(2) this] slept(1,3)
    show ?thesis by (simp add: got_token_def)
qed

text \<open>Whatever \<^verbatim>\<open>acquire\<close> does to the database are steps of the limiter.\<close>

lemma acquire_running:
  assumes "acquire cfg env sleep tid cost base db = Some y"
    and "limiter_inv cfg R t0 db" and "well_behaved cfg R t0 env" and "sleeps sleep" and "cfg_ok cfg R"
    and "0 < or_default base (default_rate cfg)" "or_default base (default_rate cfg) \<le> R" "0 \<le> cost"
  shows "(running cfg R t0)\<^sup>*\<^sup>* db (snd y)"
proof -
  let ?H = "\<lambda>cfg env sleep tid cost base db. limiter_inv cfg R t0 db \<and> well_behaved cfg R t0 env \<and> sleeps sleep \<and>
      cfg_ok cfg R \<and> 0 < or_default base (default_rate cfg) \<and> or_default base (default_rate cfg) \<le> R \<and> 0 \<le> (cost :: rat)"
  let ?P = "\<lambda>cfg env sleep tid cost base db y. ?H cfg env sleep tid cost base db \<longrightarrow> (running cfg R t0)\<^sup>*\<^sup>* db (snd y)"
  have "?P cfg env sleep tid cost base db y"
  proof (rule acquire.raw_induct [of ?P, OF _ assms(1)], rule impI)
    fix acq cfg env sleep tid cost base db and y :: "unit res \<times> redis_db"
    assume IH: "\<And>cfg env sleep tid cost base db y.
        acq cfg env sleep tid cost base db = Some y \<Longrightarrow> ?P cfg env sleep tid cost base db y"
      and body: "(case try_acquire cfg env tid cost base db of
        (Inl e, db') \<Rightarrow> Some (Inl e, db')
      | (Inr r, db') \<Rightarrow>
          if acq_allowed r then Some (Inr (), db')
          else acq cfg env sleep tid cost base (sleep (min (wait_seconds r) 5 + 1 / 100) db')) = Some y"
      and H: "?H cfg env sleep tid cost base db"
    then have hyps: "limiter_inv cfg R t0 db" "well_behaved cfg R t0 env" "sleeps sleep" "cfg_ok cfg R"
      "0 < or_default base (default_rate cfg)" "or_default base (default_rate cfg) \<le> R" "0 \<le> cost"
      by simp_all
    obtain r db' where r: "try_acquire cfg env tid cost base db = (Inr r, db')"
      "atomic_outcome cfg R t0 (bucket_key tid) cost db r db'"
      using try_acquire_atomic [OF hyps(2,1,4-7)] by blast
    from r(2) have run: "(running cfg R t0)\<^sup>*\<^sup>* db db'"
      unfolding atomic_outcome_def by (auto intro: rtranclp.rtrancl_into_rtrancl)
    show "(running cfg R t0)\<^sup>*\<^sup>* db (snd y)"
    proof (cases "acq_allowed r")
      case True
      with body r(1) run show ?thesis by auto
    next
      case False
      let ?x = "min (wait_seconds r) 5 + 1 / 100"
      have run': "(running cfg R t0)\<^sup>*\<^sup>* db (sleep ?x db')"
        using run passes_running [of ?x "sleep ?x" cfg R t0 db'] hyps(3,4)
        by (auto simp: sleeps_def intro: rtranclp.rtrancl_into_rtrancl)
      have "?H cfg env sleep tid cost base (sleep ?x db')"
        using limiter.closure_inv [OF run' hyps(1)] hyps by simp
      with IH [of cfg env sleep tid cost base "sleep ?x db'" y] body r(1) False run' show ?thesis
        by (auto intro: rtranclp_trans)
    qed
  qed
  with assms show ?thesis by simp
qed

text \<open>A cost above the burst is refused on every path.\<close>

lemma cas_loop_refuses:
  assumes "of_nat (burst cfg) < cost" and "0 < rate"
  shows "\<exists>r db'. cas_loop n cfg env k rate cost db = (Inr r, db') \<and> \<not> acq_allowed r"
proof (induction n arbitrary: db)
  case 0
  with assms(2) show ?case by simp
next
  case (Suc n)
  have "\<not> cost \<le> level (burst cfg) rate now raw" for now raw
    using level_le_burst [of "burst cfg" rate now raw] assms(1) by linarith
  with assms(2) Suc.IH show ?case by (simp add: bucket_decide_level Let_def)
qed

lemma acquire_refuses:
  assumes "of_nat (burst cfg) < cost" and "0 < or_default base (default_rate cfg)" and "0 < min_factor cfg"
  shows "acquire cfg env sleep tid cost base db = Some y \<Longrightarrow> False"
proof -
  let ?P = "\<lambda>cfg env sleep tid cost base db y. \<not> (of_nat (burst cfg) < (cost :: rat) \<and>
      0 < or_default base (default_rate cfg) \<and> 0 < min_factor cfg)"
  have "?P cfg env sleep tid cost base db y" if "acquire cfg env sleep tid cost base db = Some y"
  proof (rule acquire.raw_induct [of ?P, OF _ that], rule notI)
    fix acq cfg env sleep tid cost base db y
    assume IH: "\<And>cfg env sleep tid cost base db y.
        acq cfg env sleep tid cost base db = Some y \<Longrightarrow> ?P cfg env sleep tid cost base db y"
      and body: "(case try_acquire cfg env tid cost base db of
        (Inl e, db') \<Rightarrow> Some (Inl e, db')
      | (Inr r, db') \<Rightarrow>
          if acq_allowed r then Some (Inr (), db')
          else acq cfg env sleep tid cost base (sleep (min (wait_seconds r) 5 + 1 / 100) db')) = Some y"
      and high: "of_nat (burst cfg) < cost \<and> 0 < or_default base (default_rate cfg) \<and> 0 < min_factor cfg"
    have "0 < effective_rate cfg tid base db"
      using high by (simp add: effective_rate_def Let_def less_max_iff_disj)
    from cas_loop_refuses [OF conjunct1 [OF high] this, of MAX_CAS_RETRIES env "bucket_key tid" "env db"]
    obtain r db' where "try_acquire cfg env tid cost base db = (Inr r, db')" "\<not> acq_allowed r"
      by (auto simp: try_acquire_def Let_def)
    with body have "acq cfg env sleep tid cost base (sleep (min (wait_seconds r) 5 + 1 / 100) db') = Some y"
      by simp
    from IH [OF this] high show False by simp
  qed
  with assms show "acquire cfg env sleep tid cost base db = Some y \<Longrightarrow> False" by blast
qed

section \<open>Properties\<close>


definition example_cfg :: limiter_cfg where
  "example_cfg = \<lparr>default_rate = 5, burst = 10, min_factor = 1 / 20\<rparr>"

lemma example_cfg_ok: "cfg_ok example_cfg 5"
  by (simp add: cfg_ok_def example_cfg_def)



lemma empty_db_inv: "limiter_inv cfg R t0 (empty_db t0)"
  by (rule limiter.inv_init) (rule refl)

lemma id_passes: "passes 0 (\<lambda>db. db)"
  unfolding passes_def by (rule allI, rule exI [of _ 0]) simp


text \<open>
  Backpressure is bounded below and recovery above: starting from factors within bounds,
  \<^verbatim>\<open>report_backpressure\<close> and \<^verbatim>\<open>report_success\<close> keep every stored factor between the floor and
  one under any interference, so that the effective rate afterwards lies between the floor's
  share of the base rate and the base rate itself and is never zero.
\<close>

lemma effective_rate_stays_in_bounds:
  assumes "well_behaved cfg R t0 env" and "limiter_inv cfg R t0 db" and "cfg_ok cfg R"
    and "0 \<le> factor" "factor \<le> 1" and "0 < or_default base (default_rate cfg)"
    and "db' = report_backpressure cfg env tid factor ttl db \<or> db' = report_success env tid db"
  shows "limiter_inv cfg R t0 db' \<and>
         or_default base (default_rate cfg) * min_factor cfg \<le> effective_rate cfg tid' base db' \<and>
         effective_rate cfg tid' base db' \<le> or_default base (default_rate cfg) \<and>
         0 < effective_rate cfg tid' base db'"
proof -
  have "(running cfg R t0)\<^sup>*\<^sup>* db db'"
    using assms(7) report_backpressure_running [OF assms(1-5)] report_success_running [OF assms(1-3)]
    by blast
  then have inv: "limiter_inv cfg R t0 db'" by (rule limiter.closure_inv) (rule assms(2))
  then have "factor_ok cfg db'" by (simp add: limiter_inv_def)
  from effective_rate_bounds [OF this assms(3,6)] inv show ?thesis by blast
qed


definition exact_sleep :: "rat \<Rightarrow> redis_db \<Rightarrow> redis_db" where
  "exact_sleep x db = db\<lparr>r_clock := r_clock db + max 0 x\<rparr>"

lemma exact_sleep_ok: "sleeps exact_sleep"
  unfolding sleeps_def passes_def exact_sleep_def
  by (intro allI, rule_tac x = "max 0 x" in exI) simp


text \<open>
  A cost above the burst can never be granted: \<^verbatim>\<open>acquire\<close> then runs forever, whatever the
  other workers do and however long it sleeps.
\<close>

lemma acquire_above_burst_never_returns:
  assumes "of_nat (burst cfg) < cost" and "0 < or_default base (default_rate cfg)" and "0 < min_factor cfg"
  shows "acquire cfg env sleep tid cost base db = None"
  using acquire_refuses [OF assms] by (metis option.exhaust)

end
