(* ===== verification/Utf8.thy ===== *)
theory Utf8
  imports Py_Strings
begin

text \<open>
  Texts as lists of code points, bytes as numbers below 256, and the UTF-8 codec between them:
  \<^verbatim>\<open>str.encode("utf-8")\<close>, the strict \<^verbatim>\<open>bytes.decode("utf-8")\<close>, which gives \<open>None\<close> where Python
  raises \<^verbatim>\<open>UnicodeDecodeError\<close>, and the decoder with \<^verbatim>\<open>errors="replace"\<close>, which puts one
  replacement character for each maximal invalid part. The engine, the scrubber and the
  recorder use all three.
\<close>

type_synonym ptext = "nat list"
type_synonym bytes = "nat list"

text \<open>The code points of a string.\<close>

definition code_points :: "string \<Rightarrow> ptext" where
  "code_points s = map of_char s"

text \<open>A code point that a decoded text can have: in range and no surrogate.\<close>

definition scalar :: "nat \<Rightarrow> bool" where
  "scalar c \<longleftrightarrow> c < 0x110000 \<and> \<not> (0xD800 \<le> c \<and> c \<le> 0xDFFF)"

definition encode_cp :: "nat \<Rightarrow> bytes" where
  "encode_cp c =
     (if c < 0x80 then [c]
      else if c < 0x800 then [0xC0 + c div 64, 0x80 + c mod 64]
      else if c < 0x10000 then [0xE0 + c div 4096, 0x80 + c div 64 mod 64, 0x80 + c mod 64]
      else [0xF0 + c div 262144, 0x80 + c div 4096 mod 64, 0x80 + c div 64 mod 64, 0x80 + c mod 64])"

definition utf8_encode :: "ptext \<Rightarrow> bytes" where
  "utf8_encode t = concat (map encode_cp t)"

definition cont :: "nat \<Rightarrow> bool" where
  "cont b \<longleftrightarrow> 0x80 \<le> b \<and> b \<le> 0xBF"

text \<open>The second bytes that may follow a lead byte of three or four.\<close>

definition second_ok :: "nat \<Rightarrow> nat \<Rightarrow> bool" where
  "second_ok b c \<longleftrightarrow>
     cont c \<and> (b = 0xE0 \<longrightarrow> 0xA0 \<le> c) \<and> (b = 0xED \<longrightarrow> c \<le> 0x9F) \<and>
     (b = 0xF0 \<longrightarrow> 0x90 \<le> c) \<and> (b = 0xF4 \<longrightarrow> c \<le> 0x8F)"

text \<open>
  Reading one sequence: the code point and the number of bytes, or \<open>None\<close> and the length of
  the invalid part.
\<close>

fun utf8_step :: "bytes \<Rightarrow> nat option \<times> nat" where
  "utf8_step [] = (None, 1)"
| "utf8_step (b # bs) =
     (if b < 0x80 then (Some b, 1)
      else if 0xC2 \<le> b \<and> b \<le> 0xDF then
        (case bs of
           c1 # _ \<Rightarrow> if cont c1 then (Some ((b - 0xC0) * 64 + (c1 - 0x80)), 2) else (None, 1)
         | [] \<Rightarrow> (None, 1))
      else if 0xE0 \<le> b \<and> b \<le> 0xEF then
        (case bs of
           c1 # c2 # _ \<Rightarrow>
             if \<not> second_ok b c1 then (None, 1)
             else if cont c2 then (Some ((b - 0xE0) * 4096 + (c1 - 0x80) * 64 + (c2 - 0x80)), 3)
             else (None, 2)
         | [c1] \<Rightarrow> (None, if second_ok b c1 then 2 else 1)
         | [] \<Rightarrow> (None, 1))
      else if 0xF0 \<le> b \<and> b \<le> 0xF4 then
        (case bs of
           c1 # c2 # c3 # _ \<Rightarrow>
             if \<not> second_ok b c1 then (None, 1)
             else if \<not> cont c2 then (None, 2)
             else if cont c3 then
               (Some ((b - 0xF0) * 262144 + (c1 - 0x80) * 4096 + (c2 - 0x80) * 64 + (c3 - 0x80)), 4)
             else (None, 3)
         | [c1, c2] \<Rightarrow> (None, if \<not> second_ok b c1 then 1 else if cont c2 then 3 else 2)
         | [c1] \<Rightarrow> (None, if second_ok b c1 then 2 else 1)
         | [] \<Rightarrow> (None, 1))
      else (None, 1))"

lemma utf8_step_pos: "0 < snd (utf8_step bs)"
  by (induction bs rule: utf8_step.induct) (auto split: list.splits)

lemma utf8_step_posD: "(c, n) = utf8_step bs \<Longrightarrow> 0 < n" "utf8_step bs = (c, n) \<Longrightarrow> 0 < n"
  using utf8_step_pos [of bs] by (metis snd_conv)+

lemma drop_shorter: "bs \<noteq> [] \<Longrightarrow> 0 < n \<Longrightarrow> length bs - n < length bs"
  by (simp add: length_greater_0_conv [symmetric] del: length_greater_0_conv)

declare utf8_step.simps(2) [simp del]

function utf8_decode :: "bytes \<Rightarrow> ptext option" where
  "utf8_decode bs =
     (if bs = [] then Some []
      else case utf8_step bs of
             (None, _) \<Rightarrow> None
           | (Some c, n) \<Rightarrow> map_option (Cons c) (utf8_decode (drop n bs)))"
  by pat_completeness auto
termination
  by (relation "measure length") (auto simp: drop_shorter dest: utf8_step_posD)

declare utf8_decode.simps [simp del]

function utf8_decode_replace :: "bytes \<Rightarrow> ptext" where
  "utf8_decode_replace bs =
     (if bs = [] then []
      else case utf8_step bs of (c, n) \<Rightarrow>
             (case c of None \<Rightarrow> 0xFFFD | Some c \<Rightarrow> c) # utf8_decode_replace (drop n bs))"
  by pat_completeness auto
termination
  by (relation "measure length") (auto simp: drop_shorter dest: utf8_step_posD)

declare utf8_decode_replace.simps [simp del]

section \<open>The codec is a bijection between texts and valid byte sequences\<close>

text \<open>The base-64 digits of a code point.\<close>

lemma digits64:
  fixes c :: nat
  shows "c div 4096 = c div 64 div 64" "c div 262144 = c div 64 div 64 div 64"
  by (simp_all add: div_mult2_eq [symmetric])

lemma utf8_step_encode:
  assumes "scalar c"
  shows "utf8_step (encode_cp c @ bs) = (Some c, length (encode_cp c))"
proof -
  define x where "x = c div 64"
  define y where "y = x div 64"
  define z where "z = y div 64"
  have cx: "x * 64 + c mod 64 = c" "c mod 64 < 64" by (simp_all add: x_def)
  have xy: "y * 64 + x mod 64 = x" "x mod 64 < 64" by (simp_all add: y_def)
  have yz: "z * 64 + y mod 64 = y" "y mod 64 < 64" by (simp_all add: z_def)
  have eq: "c div 64 = x" "c div 4096 = y" "c div 262144 = z"
    by (simp_all only: x_def y_def z_def digits64)
  consider "c < 0x80" | "0x80 \<le> c" "c < 0x800" | "0x800 \<le> c" "c < 0x10000"
    | "0x10000 \<le> c" "c < 0x110000"
    using assms unfolding scalar_def by linarith
  then show ?thesis
  proof cases
    case 1
    then show ?thesis by (simp add: encode_cp_def utf8_step.simps(2))
  next
    case 2
    have enc: "encode_cp c = [0xC0 + x, 0x80 + c mod 64]"
      using 2 by (simp add: encode_cp_def eq)
    have "2 \<le> x" "x < 32" using 2 cx by linarith+
    with cx show ?thesis unfolding enc by (simp add: utf8_step.simps(2) cont_def)
  next
    case 3
    have enc: "encode_cp c = [0xE0 + y, 0x80 + x mod 64, 0x80 + c mod 64]"
      using 3 by (simp add: encode_cp_def eq)
    have y: "y < 16" using 3 cx xy by linarith
    have "y = 0 \<Longrightarrow> 32 \<le> x mod 64" using 3 cx xy by linarith
    moreover have "y = 13 \<Longrightarrow> x mod 64 < 32"
      using assms cx xy unfolding scalar_def by linarith
    ultimately have "second_ok (0xE0 + y) (0x80 + x mod 64)"
      using xy(2) y unfolding second_ok_def cont_def by auto
    moreover have "y * 4096 + x mod 64 * 64 + c mod 64 = c" using cx xy by linarith
    moreover have "cont (0x80 + c mod 64)" using cx(2) by (simp add: cont_def)
    ultimately show ?thesis using y unfolding enc by (simp add: utf8_step.simps(2))
  next
    case 4
    have enc: "encode_cp c = [0xF0 + z, 0x80 + y mod 64, 0x80 + x mod 64, 0x80 + c mod 64]"
      using 4 by (simp add: encode_cp_def eq)
    have z: "z \<le> 4" using 4 cx xy yz by linarith
    have "z = 0 \<Longrightarrow> 16 \<le> y mod 64" using 4 cx xy yz by linarith
    moreover have "z = 4 \<Longrightarrow> y mod 64 < 16" using 4 cx xy yz by linarith
    ultimately have "second_ok (0xF0 + z) (0x80 + y mod 64)"
      using yz(2) z unfolding second_ok_def cont_def by auto
    moreover have "z * 262144 + y mod 64 * 4096 + x mod 64 * 64 + c mod 64 = c"
      using cx xy yz by linarith
    moreover have "cont (0x80 + c mod 64)" "cont (0x80 + x mod 64)"
      using cx(2) xy(2) by (simp_all add: cont_def)
    ultimately show ?thesis using z unfolding enc by (simp add: utf8_step.simps(2))
  qed
qed

lemma encode_cp_ne [simp]: "encode_cp c \<noteq> []"
  by (simp add: encode_cp_def)

lemma utf8_decode_encode: "list_all scalar t \<Longrightarrow> utf8_decode (utf8_encode t) = Some t"
proof (induction t)
  case Nil
  then show ?case by (simp add: utf8_encode_def utf8_decode.simps)
next
  case (Cons c t)
  then show ?case
    by (subst utf8_decode.simps) (simp add: utf8_encode_def utf8_step_encode)
qed

text \<open>A step that reads a code point reads its encoding.\<close>

lemma encode_join2:
  "b < 32 \<Longrightarrow> 2 \<le> b \<Longrightarrow> u < 64 \<Longrightarrow> encode_cp (b * 64 + u) = [0xC0 + b, 0x80 + u]"
  by (simp add: encode_cp_def)

lemma divmod64:
  fixes k :: nat
  assumes "v < 64"
  shows "(k * 64 + v) mod 64 = v" "(k * 64 + v) div 64 = k"
  using assms by simp_all

lemma encode_join3:
  assumes "b < 16" "u < 64" "v < 64" "b = 0 \<Longrightarrow> 32 \<le> u"
  shows "encode_cp (b * 4096 + u * 64 + v) = [0xE0 + b, 0x80 + u, 0x80 + v]"
proof -
  let ?c = "b * 4096 + u * 64 + v"
  have r: "\<not> ?c < 0x80" "\<not> ?c < 0x800" "?c < 0x10000" using assms by linarith+
  have f: "?c = (b * 64 + u) * 64 + v" by simp
  have m: "?c mod 64 = v" "?c div 64 = b * 64 + u" unfolding f by (rule divmod64 [OF assms(3)])+
  then have "?c div 4096 = b" "?c div 64 mod 64 = u"
    unfolding digits64 m(2) using assms(2) by simp_all
  with r m(1) show ?thesis unfolding encode_cp_def by simp
qed

lemma encode_join4:
  assumes "b \<le> 4" "u < 64" "v < 64" "w < 64" "b = 0 \<Longrightarrow> 16 \<le> u" "b = 4 \<Longrightarrow> u < 16"
  shows "encode_cp (b * 262144 + u * 4096 + v * 64 + w) = [0xF0 + b, 0x80 + u, 0x80 + v, 0x80 + w]"
proof -
  let ?c = "b * 262144 + u * 4096 + v * 64 + w"
  have r: "\<not> ?c < 0x80" "\<not> ?c < 0x800" "\<not> ?c < 0x10000" using assms by linarith+
  have f: "?c = ((b * 64 + u) * 64 + v) * 64 + w" by simp
  have m: "?c mod 64 = w" "?c div 64 = (b * 64 + u) * 64 + v"
    unfolding f by (rule divmod64 [OF assms(4)])+
  have n: "((b * 64 + u) * 64 + v) mod 64 = v" "((b * 64 + u) * 64 + v) div 64 = b * 64 + u"
    by (rule divmod64 [OF assms(3)])+
  then have "?c div 262144 = b" "?c div 4096 mod 64 = u" "?c div 64 mod 64 = v"
    unfolding digits64 m(2) n using assms(2) by simp_all
  with r m(1) show ?thesis unfolding encode_cp_def by simp
qed

lemma utf8_step_SomeD:
  assumes "utf8_step bs = (Some c, n)"
  shows "scalar c \<and> bs = encode_cp c @ drop n bs"
proof (cases bs)
  case Nil
  with assms show ?thesis by simp
next
  case bs: (Cons b r)
  consider "b < 0x80" | "0xC2 \<le> b" "b \<le> 0xDF" | "0xE0 \<le> b" "b \<le> 0xEF" | "0xF0 \<le> b" "b \<le> 0xF4"
    using assms bs by (fastforce simp: utf8_step.simps(2) split: if_splits)
  then show ?thesis
  proof cases
    case 1
    with assms bs show ?thesis by (auto simp: utf8_step.simps(2) encode_cp_def scalar_def)
  next
    case 2
    with assms bs obtain c1 r' where r: "r = c1 # r'" "cont c1" "n = 2"
      "c = (b - 0xC0) * 64 + (c1 - 0x80)"
      by (auto simp: utf8_step.simps(2) split: list.splits if_splits)
    have "c < 0x800" "scalar c" using 2 r(2,4) by (auto simp: cont_def scalar_def)
    moreover have "encode_cp c = [b, c1]"
      using encode_join2 [of "b - 0xC0" "c1 - 0x80"] 2 r(2) unfolding r(4) cont_def by (auto simp: le_diff_conv2)
    ultimately show ?thesis using bs r by simp
  next
    case 3
    with assms bs obtain c1 c2 r' where r: "r = c1 # c2 # r'" "second_ok b c1" "cont c2" "n = 3"
      "c = (b - 0xE0) * 4096 + (c1 - 0x80) * 64 + (c2 - 0x80)"
      by (auto simp: utf8_step.simps(2) split: list.splits if_splits)
    have "encode_cp c = [b, c1, c2]"
      using encode_join3 [of "b - 0xE0" "c1 - 0x80" "c2 - 0x80"] 3 r(2,3)
      unfolding r(5) cont_def second_ok_def by (auto simp: le_diff_conv2)
    moreover have "scalar c"
      using 3 r(2,3) unfolding r(5) scalar_def cont_def second_ok_def by (cases "b = 0xED") auto
    ultimately show ?thesis using bs r by simp
  next
    case 4
    with assms bs obtain c1 c2 c3 r' where r: "r = c1 # c2 # c3 # r'" "second_ok b c1" "cont c2" "cont c3"
      "n = 4" "c = (b - 0xF0) * 262144 + (c1 - 0x80) * 4096 + (c2 - 0x80) * 64 + (c3 - 0x80)"
      by (auto simp: utf8_step.simps(2) split: list.splits if_splits)
    have "encode_cp c = [b, c1, c2, c3]"
      using encode_join4 [of "b - 0xF0" "c1 - 0x80" "c2 - 0x80" "c3 - 0x80"] 4 r(2-4)
      unfolding r(6) cont_def second_ok_def by (auto simp: le_diff_conv2)
    moreover have "scalar c"
      using 4 r(2-4) unfolding r(6) scalar_def cont_def second_ok_def by (cases "b = 0xF0"; cases "b = 0xF4") auto
    ultimately show ?thesis using bs r by simp
  qed
qed

lemma utf8_decode_SomeD: "utf8_decode bs = Some t \<Longrightarrow> utf8_encode t = bs \<and> list_all scalar t"
proof (induction bs arbitrary: t rule: utf8_decode.induct)
  case (1 bs)
  show ?case
  proof (cases "bs = []")
    case True
    with 1(2) show ?thesis by (simp add: utf8_decode.simps utf8_encode_def)
  next
    case False
    with 1(2) obtain c n t' where s: "utf8_step bs = (Some c, n)"
      "utf8_decode (drop n bs) = Some t'" "t = c # t'"
      by (subst (asm) utf8_decode.simps) (auto split: option.splits prod.splits)
    from 1(1) [OF False s(1) [symmetric] refl s(2)] utf8_step_SomeD [OF s(1)] s(3)
    show ?thesis by (simp add: utf8_encode_def)
  qed
qed

lemma utf8_replace_valid: "utf8_decode bs = Some t \<Longrightarrow> utf8_decode_replace bs = t"
proof (induction bs arbitrary: t rule: utf8_decode.induct)
  case (1 bs)
  show ?case
  proof (cases "bs = []")
    case True
    with 1(2) show ?thesis by (simp add: utf8_decode.simps utf8_decode_replace.simps)
  next
    case False
    with 1(2) obtain c n t' where s: "utf8_step bs = (Some c, n)"
      "utf8_decode (drop n bs) = Some t'" "t = c # t'"
      by (subst (asm) utf8_decode.simps) (auto split: option.splits prod.splits)
    from 1(1) [OF False s(1) [symmetric] refl s(2)] s False
    show ?thesis by (subst utf8_decode_replace.simps) simp
  qed
qed

lemma code_points_inj [simp]: "code_points a = code_points b \<longleftrightarrow> a = b"
  by (auto simp: code_points_def inj_map_eq_map inj_on_def)

lemma code_points_scalar: "list_all scalar (code_points s)"
proof -
  have "scalar (of_char c)" for c :: char
    using ord_bound [of c] unfolding scalar_def by linarith
  then show ?thesis by (simp add: code_points_def list_all_iff)
qed

lemma encode_string_inj: "utf8_encode (code_points s) = utf8_encode (code_points t) \<longleftrightarrow> s = t"
  by (metis code_points_inj code_points_scalar option.inject utf8_decode_encode)

section \<open>Lines and white space of a text\<close>

text \<open>\<^verbatim>\<open>str.splitlines()\<close> and \<^verbatim>\<open>str.strip()\<close> on code points, with all of Unicode's line breaks and spaces.\<close>

definition linebreak_code :: "nat \<Rightarrow> bool" where
  "linebreak_code n \<longleftrightarrow>
     10 \<le> n \<and> n \<le> 13 \<or> 28 \<le> n \<and> n \<le> 30 \<or> n = 0x85 \<or> n = 0x2028 \<or> n = 0x2029"

definition space_code :: "nat \<Rightarrow> bool" where
  "space_code n \<longleftrightarrow>
     9 \<le> n \<and> n \<le> 13 \<or> 28 \<le> n \<and> n \<le> 32 \<or> n = 0x85 \<or> n = 0xA0 \<or> n = 0x1680 \<or>
     0x2000 \<le> n \<and> n \<le> 0x200A \<or> n = 0x2028 \<or> n = 0x2029 \<or> n = 0x202F \<or> n = 0x205F \<or> n = 0x3000"

fun text_lines_acc :: "ptext \<Rightarrow> ptext \<Rightarrow> ptext list" where
  "text_lines_acc acc [] = (if acc = [] then [] else [rev acc])"
| "text_lines_acc acc (c # cs) =
     (if c = 13 then
        (case cs of
           d # ds \<Rightarrow> if d = 10 then rev acc # text_lines_acc [] ds else rev acc # text_lines_acc [] cs
         | [] \<Rightarrow> [rev acc])
      else if linebreak_code c then rev acc # text_lines_acc [] cs
      else text_lines_acc (c # acc) cs)"

definition text_splitlines :: "ptext \<Rightarrow> ptext list" where
  "text_splitlines t = text_lines_acc [] t"

definition text_strip :: "ptext \<Rightarrow> ptext" where
  "text_strip t = rstrip_by space_code (lstrip_by space_code t)"

lemma text_strip_sublist: "sublist (text_strip t) t"
proof -
  have "suffix (lstrip_by space_code t) t"
    by (simp add: lstrip_by_def suffix_dropWhile)
  with rstrip_by_prefix [of space_code "lstrip_by space_code t"] show ?thesis
    unfolding text_strip_def by (meson prefix_imp_sublist suffix_imp_sublist sublist_order.order.trans)
qed

lemma text_lines_sublist: "l \<in> set (text_lines_acc acc t) \<Longrightarrow> sublist l (rev acc @ t)"
proof (induction acc t rule: text_lines_acc.induct)
  case (1 acc)
  then show ?case by (simp split: if_splits)
next
  case (2 acc c cs)
  have here: "sublist (rev acc) (rev acc @ c # cs)" by (metis append_Nil sublist_appendI)
  have tail: "sublist l (rev acc @ c # cs)" if "sublist l ds" "suffix ds cs" for ds
  proof -
    have "suffix ds (rev acc @ c # cs)"
      using that(2) by (metis append_Cons append_Nil suffix_ConsI suffix_appendI)
    with that(1) show ?thesis by (meson suffix_imp_sublist sublist_order.order.trans)
  qed
  show ?case
  proof (cases "c = 13")
    case True
    show ?thesis
    proof (cases cs)
      case Nil
      with 2(5) True here show ?thesis by simp
    next
      case (Cons d ds)
      show ?thesis
      proof (cases "d = 10")
        case True
        with 2(5) Cons \<open>c = 13\<close> have "l = rev acc \<or> l \<in> set (text_lines_acc [] ds)" by simp
        with 2(1) [OF \<open>c = 13\<close> Cons True] here tail [of ds] Cons show ?thesis by (auto simp: suffix_ConsI)
      next
        case False
        with 2(5) Cons \<open>c = 13\<close> have "l = rev acc \<or> l \<in> set (text_lines_acc [] cs)" by simp
        with 2(2) [OF \<open>c = 13\<close> Cons False] here tail [of cs] Cons show ?thesis by auto
      qed
    qed
  next
    case False
    show ?thesis
    proof (cases "linebreak_code c")
      case True
      with 2(5) False have "l = rev acc \<or> l \<in> set (text_lines_acc [] cs)" by simp
      with 2(3) [OF False True] here tail [of cs] show ?thesis by auto
    next
      case nb: False
      with 2(5) False 2(4) [OF False nb] show ?thesis by simp
    qed
  qed
qed

lemma text_splitlines_sublist: "l \<in> set (text_splitlines t) \<Longrightarrow> sublist l t"
  using text_lines_sublist [of l "[]" t] by (simp add: text_splitlines_def)

end
