(* ===== verification/Json.thy ===== *)
theory Json
  imports Utf8
begin

text \<open>
  \<^verbatim>\<open>json.dumps(doc, sort_keys=True, ensure_ascii=False)\<close>, \<^verbatim>\<open>json.loads\<close> and
  \<^verbatim>\<open>base64.b64encode\<close>. A number is kept as the text Python prints or reads for it, and the limit
  of the interpreter on the depth of a document is left out.
\<close>

datatype json = JNull | JBool bool | JNum string | JStr ptext | JArr "json list" | JObj "(ptext \<times> json) list"

section \<open>Printing\<close>

definition hex4 :: "nat \<Rightarrow> ptext" where
  "hex4 n = code_points [hex_digit (n div 4096), hex_digit (n div 256 mod 16),
                         hex_digit (n div 16 mod 16), hex_digit (n mod 16)]"

definition json_escape :: "nat \<Rightarrow> ptext" where
  "json_escape c =
     (if c = 0x22 then [0x5C, 0x22]
      else if c = 0x5C then [0x5C, 0x5C]
      else if c = 0x0A then [0x5C, 0x6E]
      else if c = 0x0D then [0x5C, 0x72]
      else if c = 0x09 then [0x5C, 0x74]
      else if c = 0x08 then [0x5C, 0x62]
      else if c = 0x0C then [0x5C, 0x66]
      else if c < 0x20 then [0x5C, 0x75] @ hex4 c
      else [c])"

definition json_string :: "ptext \<Rightarrow> ptext" where
  "json_string t = [0x22] @ concat (map json_escape t) @ [0x22]"

fun sort_keys :: "json \<Rightarrow> json" where
  "sort_keys (JObj kvs) = JObj (sort_key fst (map (\<lambda>(k, v). (k, sort_keys v)) kvs))"
| "sort_keys (JArr js) = JArr (map sort_keys js)"
| "sort_keys j = j"

fun print_json :: "json \<Rightarrow> ptext" where
  "print_json JNull = code_points ''null''"
| "print_json (JBool b) = code_points (if b then ''true'' else ''false'')"
| "print_json (JNum s) = code_points s"
| "print_json (JStr t) = json_string t"
| "print_json (JArr js) = code_points ''['' @ join (code_points '', '') (map print_json js) @ code_points '']''"
| "print_json (JObj kvs) =
     code_points ''{'' @
     join (code_points '', '')
       (map (\<lambda>(k, v). json_string k @ code_points '': '' @ print_json v) kvs) @
     code_points ''}''"

definition json_dumps :: "json \<Rightarrow> ptext" where
  "json_dumps j = print_json (sort_keys j)"

section \<open>Base 64\<close>

definition b64_char :: "nat \<Rightarrow> char" where
  "b64_char n =
     (if n < 26 then char_of (65 + n) else if n < 52 then char_of (71 + n)
      else if n < 62 then char_of (n - 4) else if n = 62 then CHR ''+'' else CHR ''/'')"

fun b64encode :: "bytes \<Rightarrow> string" where
  "b64encode [] = []"
| "b64encode [a] = [b64_char (a div 4), b64_char (a mod 4 * 16), CHR ''='', CHR ''='']"
| "b64encode [a, b] =
     [b64_char (a div 4), b64_char (a mod 4 * 16 + b div 16), b64_char (b mod 16 * 4), CHR ''='']"
| "b64encode (a # b # c # r) =
     [b64_char (a div 4), b64_char (a mod 4 * 16 + b div 16),
      b64_char (b mod 16 * 4 + c div 64), b64_char (c mod 64)] @ b64encode r"

section \<open>Reading a printed string\<close>

text \<open>The end of a string literal and its value, as \<^verbatim>\<open>json.loads\<close> reads it.\<close>

definition hex_value :: "nat \<Rightarrow> nat option" where
  "hex_value c =
     (if 48 \<le> c \<and> c \<le> 57 then Some (c - 48)
      else if 97 \<le> c \<and> c \<le> 102 then Some (c - 87)
      else if 65 \<le> c \<and> c \<le> 70 then Some (c - 55) else None)"

definition hex4_value :: "nat \<Rightarrow> nat \<Rightarrow> nat \<Rightarrow> nat \<Rightarrow> nat option" where
  "hex4_value a b c d =
     (case (hex_value a, hex_value b, hex_value c, hex_value d) of
        (Some a, Some b, Some c, Some d) \<Rightarrow> Some (((a * 16 + b) * 16 + c) * 16 + d)
      | _ \<Rightarrow> None)"

definition simple_escape :: "nat \<Rightarrow> nat option" where
  "simple_escape e =
     (if e = 0x22 \<or> e = 0x5C \<or> e = 0x2F then Some e
      else if e = 0x62 then Some 0x08 else if e = 0x66 then Some 0x0C
      else if e = 0x6E then Some 0x0A else if e = 0x72 then Some 0x0D
      else if e = 0x74 then Some 0x09 else None)"

text \<open>
  After a high surrogate written as an escape, an escaped low surrogate is joined to it; anything else
  leaves it as it is.
\<close>

definition low_surrogate :: "ptext \<Rightarrow> (nat \<times> ptext) option" where
  "low_surrogate s =
     (case s of
        b # u # h1 # h2 # h3 # h4 # r \<Rightarrow>
          (case hex4_value h1 h2 h3 h4 of
             Some v \<Rightarrow> if b = 0x5C \<and> u = 0x75 \<and> 0xDC00 \<le> v \<and> v \<le> 0xDFFF then Some (v, r) else None
           | None \<Rightarrow> None)
      | _ \<Rightarrow> None)"

lemma low_surrogate_shorter: "low_surrogate s = Some (v, r) \<Longrightarrow> length r < length s"
  by (auto simp: low_surrogate_def split: list.splits option.splits if_splits)

function scan_string :: "ptext \<Rightarrow> (ptext \<times> ptext) option" where
  "scan_string [] = None"
| "scan_string (c # cs) =
     (if c = 0x22 then Some ([], cs)
      else if c < 0x20 then None
      else if c \<noteq> 0x5C then map_option (\<lambda>(t, r). (c # t, r)) (scan_string cs)
      else case cs of
             [] \<Rightarrow> None
           | e # r \<Rightarrow>
               if e = 0x75 then
                 (case r of
                    h1 # h2 # h3 # h4 # r' \<Rightarrow>
                      (case hex4_value h1 h2 h3 h4 of
                         None \<Rightarrow> None
                       | Some v \<Rightarrow>
                           if 0xD800 \<le> v \<and> v \<le> 0xDBFF then
                             (case low_surrogate r' of
                                Some (v2, r2) \<Rightarrow>
                                  map_option (\<lambda>(t, r). ((0x10000 + (v - 0xD800) * 0x400 + (v2 - 0xDC00)) # t, r)) (scan_string r2)
                              | None \<Rightarrow> map_option (\<lambda>(t, r). (v # t, r)) (scan_string r'))
                           else map_option (\<lambda>(t, r). (v # t, r)) (scan_string r'))
                  | _ \<Rightarrow> None)
               else (case simple_escape e of
                       None \<Rightarrow> None
                     | Some v \<Rightarrow> map_option (\<lambda>(t, r). (v # t, r)) (scan_string r)))"
  by pat_completeness auto
termination
  by (relation "measure length") (auto dest: low_surrogate_shorter)

declare scan_string.simps(2) [simp del]

lemma hex_value_digit: "n < 16 \<Longrightarrow> hex_value (of_char (hex_digit n)) = Some n"
  by (simp add: hex_digit_def hex_value_def of_char_of)

lemma hex4_value_hex4:
  "c < 0x10000 \<Longrightarrow> \<exists>h1 h2 h3 h4. hex4 c = [h1, h2, h3, h4] \<and> hex4_value h1 h2 h3 h4 = Some c"
proof -
  assume "c < 0x10000"
  then have "c div 4096 < 16" by simp
  moreover have "((c div 4096 * 16 + c div 256 mod 16) * 16 + c div 16 mod 16) * 16 + c mod 16 = c"
  proof -
    have "c div 4096 = c div 16 div 16 div 16" "c div 256 = c div 16 div 16"
      by (simp_all add: div_mult2_eq [symmetric])
    then show ?thesis by (simp only: div_mult_mod_eq)
  qed
  ultimately show ?thesis
    by (simp add: hex4_def code_points_def hex4_value_def hex_value_digit)
qed

lemma scan_escape:
  "scan_string (json_escape c @ s) = map_option (\<lambda>(t, r). (c # t, r)) (scan_string s)"
proof (cases "c < 0x20 \<and> c \<notin> {0x0A, 0x0D, 0x09, 0x08, 0x0C}")
  case True
  then obtain h1 h2 h3 h4 where "hex4 c = [h1, h2, h3, h4]" "hex4_value h1 h2 h3 h4 = Some c"
    using hex4_value_hex4 [of c] by auto
  with True have "json_escape c = [0x5C, 0x75, h1, h2, h3, h4]" "hex4_value h1 h2 h3 h4 = Some c" "c < 0x20"
    by (auto simp: json_escape_def)
  then show ?thesis by (simp add: scan_string.simps(2))
next
  case False
  then show ?thesis by (auto simp: json_escape_def scan_string.simps(2) simple_escape_def)
qed

text \<open>Printing a string loses nothing: the reader finds its end and its value.\<close>

lemma scan_json_string: "scan_string (tl (json_string t) @ s) = Some (t, s)"
proof -
  have "scan_string ((concat (map json_escape t) @ [0x22]) @ s) = Some (t, s)"
    by (induction t) (simp_all add: scan_escape, simp add: scan_string.simps(2))
  then show ?thesis by (simp add: json_string_def)
qed

end
