(* ===== verification/Transcript.thy ===== *)
theory Transcript
  imports Json Regex Urls
begin

text \<open>
  Evidence: \<^verbatim>\<open>packages/core/src/sentinel_core/transcript/\<close> with \<^verbatim>\<open>models.py\<close> (the records),
  \<^verbatim>\<open>scrub.py\<close> (redaction), \<^verbatim>\<open>store.py\<close> (the two content-addressed backends) and
  \<^verbatim>\<open>recorder.py\<close>. The hash function SHA-256 is the parameter \<open>sha\<close>; theorems that need it
  collision-free say so for the contents that were stored. The locale \<open>content_store\<close> is the
  contract of \<^verbatim>\<open>TranscriptStore\<close>; both backends interpret it.
\<close>

section \<open>Records\<close>

type_synonym headers = "(string, string) dict"

record recorded_request =
  req_method :: string
  req_url :: string
  req_headers :: headers
  req_body :: "bytes option"

record recorded_response =
  resp_status_code :: nat
  resp_headers :: headers
  resp_body :: "bytes option"
  resp_elapsed_ms :: rat

record transcript =
  tr_scan_id :: string
  tr_persona_id :: "string option"
  tr_request :: recorded_request
  tr_response :: "recorded_response option"
  tr_error :: "string option"
  tr_recorded_at :: string

section \<open>Scrubbing\<close>

definition SENSITIVE_HEADER_NAMES :: "string set" where
  "SENSITIVE_HEADER_NAMES =
     {''authorization'', ''cookie'', ''set-cookie'', ''x-api-key'', ''x-auth-token'',
      ''proxy-authorization''}"

definition REDACTED :: string where
  "REDACTED = [CHR 0xAB] @ ''redacted'' @ [CHR 0xBB]"

definition scrub_headers :: "headers \<Rightarrow> headers" where
  "scrub_headers hs =
     map (\<lambda>(k, v). (k, if lower k \<in> SENSITIVE_HEADER_NAMES then REDACTED else v)) hs"

text \<open>
  The two patterns. With \<^verbatim>\<open>(?i)\<close> Python lets the dotted and the dotless i, the long s and the
  Kelvin sign stand for the letters i, s and k.
\<close>

definition b64url_code :: "nat \<Rightarrow> bool" where
  "b64url_code n \<longleftrightarrow> 48 \<le> n \<and> n \<le> 57 \<or> 65 \<le> n \<and> n \<le> 90 \<or> 97 \<le> n \<and> n \<le> 122 \<or> n = 95 \<or> n = 45"

definition alnum_i_code :: "nat \<Rightarrow> bool" where
  "alnum_i_code n \<longleftrightarrow>
     48 \<le> n \<and> n \<le> 57 \<or> 65 \<le> n \<and> n \<le> 90 \<or> 97 \<le> n \<and> n \<le> 122 \<or>
     n = 0x130 \<or> n = 0x131 \<or> n = 0x17F \<or> n = 0x212A"

definition word_point :: "py_lib \<Rightarrow> nat \<Rightarrow> bool" where
  "word_point py n = (if n < 256 then word_code n else unicode_word py n)"

definition JWT_PATTERN :: "nat rx" where
  "JWT_PATTERN =
     rseq [rlit (code_points ''eyJ''), RRun b64url_code 10 None, rlit (code_points ''.''),
           RRun b64url_code 10 None, rlit (code_points ''.''), RRun b64url_code 10 None]"

definition SK_PATTERN :: "py_lib \<Rightarrow> nat rx" where
  "SK_PATTERN py =
     rseq [RBound (word_point py), RCls (\<lambda>c. c \<in> {0x53, 0x73, 0x17F}), RCls (\<lambda>c. c \<in> {0x4B, 0x6B, 0x212A}),
           rlit (code_points ''-''), RRun alnum_i_code 20 None, RBound (word_point py)]"

definition SECRET_PATTERNS :: "py_lib \<Rightarrow> nat rx list" where
  "SECRET_PATTERNS py = [JWT_PATTERN, SK_PATTERN py]"

definition redact_known :: "ptext list \<Rightarrow> ptext \<Rightarrow> ptext" where
  "redact_known known t =
     fold (\<lambda>secret t. if secret = [] then t else replace_ne secret (code_points REDACTED) t) known t"

definition redact_patterns :: "py_lib \<Rightarrow> ptext \<Rightarrow> ptext" where
  "redact_patterns py t = fold (\<lambda>p t. rx_sub p (code_points REDACTED) t) (SECRET_PATTERNS py) t"

definition scrub_body :: "py_lib \<Rightarrow> ptext list \<Rightarrow> bytes option \<Rightarrow> bytes option" where
  "scrub_body py known body =
     (case body of
        None \<Rightarrow> None
      | Some b \<Rightarrow>
          (case utf8_decode b of
             None \<Rightarrow> Some b
           | Some t \<Rightarrow> Some (utf8_encode (redact_patterns py (redact_known known t)))))"

section \<open>Stores\<close>

type_synonym files = "string \<Rightarrow> bytes option"

text \<open>The path of a transcript under the base directory, and its key in the bucket.\<close>

definition path_for :: "string \<Rightarrow> string" where
  "path_for tid = take 2 tid @ ''/'' @ tid @ ''.bin''"

definition local_put :: "(bytes \<Rightarrow> string) \<Rightarrow> bytes \<Rightarrow> files \<Rightarrow> string \<times> files" where
  "local_put sha content fs =
     (let tid = sha content; path = path_for tid
      in (tid, if fs path = None then fs(path \<mapsto> content) else fs))"

definition local_get :: "string \<Rightarrow> files \<Rightarrow> bytes res" where
  "local_get tid fs =
     (case fs (path_for tid) of
        None \<Rightarrow> Inl (File_Not_Found (''No transcript stored for id '' @ tid))
      | Some content \<Rightarrow> Inr content)"

text \<open>
  The constructor of the second store, given whether the package \<^verbatim>\<open>boto3\<close> can be imported; its objects are those of
  its bucket.
\<close>

record s3_transcript_store =
  s3_bucket :: string
  s3_prefix :: string
  s3_endpoint_url :: "string option"
  s3_region_name :: string

definition new_s3_store :: "bool \<Rightarrow> string \<Rightarrow> string option \<Rightarrow> string \<Rightarrow> string \<Rightarrow> s3_transcript_store res" where
  "new_s3_store has_boto3 bucket endpoint region pfx =
     (if \<not> has_boto3
      then Inl (Runtime_Error ''S3TranscriptStore requires boto3. Install with `pip install sentinel-core[s3]`.'')
      else Inr \<lparr>s3_bucket = bucket, s3_prefix = rstrip_by (\<lambda>c. c = CHR ''/'') pfx, s3_endpoint_url = endpoint,
        s3_region_name = region\<rparr>)"

definition s3_key_for :: "string \<Rightarrow> string \<Rightarrow> string" where
  "s3_key_for pfx tid = pfx @ ''/'' @ take 2 tid @ ''/'' @ tid @ ''.bin''"

definition s3_put :: "(bytes \<Rightarrow> string) \<Rightarrow> string \<Rightarrow> bytes \<Rightarrow> files \<Rightarrow> string \<times> files" where
  "s3_put sha pfx content objs =
     (let tid = sha content in (tid, objs(s3_key_for pfx tid \<mapsto> content)))"

definition s3_get :: "string \<Rightarrow> string \<Rightarrow> files \<Rightarrow> bytes res" where
  "s3_get pfx tid objs =
     (case objs (s3_key_for pfx tid) of
        None \<Rightarrow> Inl (Other_Error ''NoSuchKey'')
      | Some content \<Rightarrow> Inr content)"

section \<open>The recorder\<close>

definition body_json :: "bytes option \<Rightarrow> json" where
  "body_json b =
     (case b of
        None \<Rightarrow> JNull
      | Some b \<Rightarrow>
          (case utf8_decode b of
             Some t \<Rightarrow> JStr t
           | None \<Rightarrow> JStr (code_points (''base64:'' @ b64encode b))))"

definition str_json :: "string \<Rightarrow> json" where
  "str_json s = JStr (code_points s)"

definition opt_json :: "string option \<Rightarrow> json" where
  "opt_json s = (case s of None \<Rightarrow> JNull | Some s \<Rightarrow> str_json s)"

definition headers_json :: "headers \<Rightarrow> json" where
  "headers_json hs = JObj (map (\<lambda>(k, v). (code_points k, str_json v)) hs)"

definition transcript_doc :: "py_lib \<Rightarrow> transcript \<Rightarrow> json" where
  "transcript_doc py tr =
     JObj
      [(code_points ''scan_id'', str_json (tr_scan_id tr)),
       (code_points ''persona_id'', opt_json (tr_persona_id tr)),
       (code_points ''recorded_at'', str_json (tr_recorded_at tr)),
       (code_points ''error'', opt_json (tr_error tr)),
       (code_points ''request'', JObj
          [(code_points ''method'', str_json (req_method (tr_request tr))),
           (code_points ''url'', str_json (req_url (tr_request tr))),
           (code_points ''headers'', headers_json (req_headers (tr_request tr))),
           (code_points ''body'', body_json (req_body (tr_request tr)))]),
       (code_points ''response'',
          (case tr_response tr of
             None \<Rightarrow> JNull
           | Some r \<Rightarrow> JObj
               [(code_points ''status_code'', JNum (show_nat (resp_status_code r))),
                (code_points ''headers'', headers_json (resp_headers r)),
                (code_points ''body'', body_json (resp_body r)),
                (code_points ''elapsed_ms'', JNum (float_repr py (resp_elapsed_ms r)))]))]"

definition serialise :: "py_lib \<Rightarrow> transcript \<Rightarrow> bytes" where
  "serialise py tr = utf8_encode (json_dumps (transcript_doc py tr))"

definition scrubbed ::
  "py_lib \<Rightarrow> ptext list \<Rightarrow> string \<Rightarrow> string option \<Rightarrow> recorded_request \<Rightarrow> recorded_response option \<Rightarrow>
     string option \<Rightarrow> string \<Rightarrow> transcript" where
  "scrubbed py known scan_id persona_id req resp err recorded_at =
     \<lparr>tr_scan_id = scan_id, tr_persona_id = persona_id,
      tr_request = req\<lparr>req_headers := scrub_headers (req_headers req),
                       req_body := scrub_body py known (req_body req)\<rparr>,
      tr_response = map_option (\<lambda>r. r\<lparr>resp_headers := scrub_headers (resp_headers r),
                                      resp_body := scrub_body py known (resp_body r)\<rparr>) resp,
      tr_error = err, tr_recorded_at = recorded_at\<rparr>"

text \<open>\<^verbatim>\<open>record\<close>, for a store whose \<^verbatim>\<open>put\<close> is the argument and a clock that shows \<open>recorded_at\<close>.\<close>

definition record_transcript ::
  "(bytes \<Rightarrow> 's \<Rightarrow> string \<times> 's) \<Rightarrow> py_lib \<Rightarrow> ptext list \<Rightarrow> string \<Rightarrow> string option \<Rightarrow> recorded_request \<Rightarrow>
     recorded_response option \<Rightarrow> string option \<Rightarrow> string \<Rightarrow> 's \<Rightarrow> string \<times> 's" where
  "record_transcript put py known scan_id persona_id req resp err recorded_at st =
     put (serialise py (scrubbed py known scan_id persona_id req resp err recorded_at)) st"

section \<open>The contract of a store\<close>

locale content_store =
  fixes sha :: "bytes \<Rightarrow> string"
    and put :: "bytes \<Rightarrow> 's \<Rightarrow> string \<times> 's"
    and get :: "string \<Rightarrow> 's \<Rightarrow> bytes res"
    and addressed :: "bytes set \<Rightarrow> 's \<Rightarrow> bool"
  assumes put_id: "fst (put c s) = sha c"
    and put_addressed: "addressed U s \<Longrightarrow> c \<in> U \<Longrightarrow> addressed U (snd (put c s))"
    and get_addressed: "addressed U s \<Longrightarrow> get i s = Inr c \<Longrightarrow> c \<in> U \<and> sha c = i"
    and put_stored: "\<exists>c'. get (sha c) (snd (put c s)) = Inr c'"
    and put_other: "i \<noteq> sha c \<Longrightarrow> get i (snd (put c s)) = get i s"
begin

lemma store_all_addressed:
  "addressed U s \<Longrightarrow> set cs \<subseteq> U \<Longrightarrow> addressed U (fold (\<lambda>c s. snd (put c s)) cs s)"
  by (induction cs arbitrary: s) (simp_all add: put_addressed)

lemma get_keeps: "\<exists>c. get i s = Inr c \<Longrightarrow> \<exists>c. get i (fold (\<lambda>c s. snd (put c s)) cs s) = Inr c"
proof (induction cs arbitrary: s)
  case (Cons d cs)
  have "\<exists>c. get i (snd (put d s)) = Inr c"
    using Cons.prems put_stored [of d s] put_other [of i d s] by (cases "i = sha d") auto
  from Cons.IH [OF this] show ?case by simp
qed simp

lemma get_store_all:
  assumes "c \<in> set cs"
  shows "\<exists>c'. get (sha c) (fold (\<lambda>c s. snd (put c s)) cs s) = Inr c'"
proof -
  obtain as bs where cs: "cs = as @ c # bs" using split_list [OF assms] by blast
  show ?thesis unfolding cs using get_keeps [OF put_stored] by simp
qed

text \<open>
  Evidence stays: after any sequence of writes, what is read under the id of one of the written
  contents is that content, as long as no two of the contents in play have the same hash.
\<close>

lemma evidence_kept:
  assumes "addressed U s" and "set cs \<subseteq> U" and "inj_on sha U" and "c \<in> set cs"
  shows "get (sha c) (fold (\<lambda>c s. snd (put c s)) cs s) = Inr c"
proof -
  obtain c' where c': "get (sha c) (fold (\<lambda>c s. snd (put c s)) cs s) = Inr c'"
    using get_store_all [OF assms(4)] by blast
  from get_addressed [OF store_all_addressed [OF assms(1,2)] c'] c' assms(2-4) show ?thesis
    by (auto dest: inj_onD)
qed

end

lemma append_tail_eq:
  assumes "a @ x @ e = b @ y @ e" and "length x = length y"
  shows "x = y"
  using assms by (simp add: append_eq_append_conv)

lemma path_for_inj [simp]: "path_for i = path_for j \<longleftrightarrow> i = j"
proof
  assume eq: "path_for i = path_for j"
  from arg_cong [OF this, of length] have "length i = length j"
    by (simp add: path_for_def min_def split: if_splits)
  with eq append_tail_eq [of "take 2 i @ ''/''" i "''.bin''" "take 2 j @ ''/''" j] show "i = j"
    by (simp add: path_for_def)
qed simp

lemma s3_key_for_inj [simp]: "s3_key_for p i = s3_key_for p j \<longleftrightarrow> i = j"
  using path_for_inj [of i j] unfolding s3_key_for_def path_for_def by simp

text \<open>Every stored file is one of the contents \<open>U\<close>, under the path of its hash.\<close>

definition addressed_by :: "(bytes \<Rightarrow> string) \<Rightarrow> (string \<Rightarrow> string) \<Rightarrow> bytes set \<Rightarrow> files \<Rightarrow> bool" where
  "addressed_by sha path U fs \<longleftrightarrow> (\<forall>p c. fs p = Some c \<longrightarrow> c \<in> U \<and> p = path (sha c))"

lemma addressed_by_get:
  "addressed_by sha path U fs \<Longrightarrow> (\<And>i j. path i = path j \<Longrightarrow> i = j) \<Longrightarrow> fs (path i) = Some c \<Longrightarrow>
     c \<in> U \<and> sha c = i"
  unfolding addressed_by_def by metis

lemma addressed_by_upd: "addressed_by sha path U fs \<Longrightarrow> c \<in> U \<Longrightarrow> addressed_by sha path U (fs(path (sha c) \<mapsto> c))"
  by (auto simp: addressed_by_def)

interpretation local_store: content_store sha "local_put sha" local_get "addressed_by sha path_for" for sha
proof unfold_locales
  show "c \<in> U \<and> sha c = i" if "addressed_by sha path_for U s" "local_get i s = Inr c" for U s i c
    using that by (intro addressed_by_get [OF that(1)]) (auto simp: local_get_def split: option.splits)
qed (auto simp: local_put_def local_get_def Let_def addressed_by_upd split: option.splits)

interpretation s3_store: content_store sha "s3_put sha pfx" "s3_get pfx" "addressed_by sha (s3_key_for pfx)" for sha pfx
proof unfold_locales
  show "c \<in> U \<and> sha c = i" if "addressed_by sha (s3_key_for pfx) U s" "s3_get pfx i s = Inr c" for U s i c
    using that by (intro addressed_by_get [OF that(1)]) (auto simp: s3_get_def split: option.splits)
qed (auto simp: s3_put_def s3_get_def Let_def addressed_by_upd split: option.splits)

section \<open>What scrubbing removes and keeps\<close>

definition REDACTED_MID :: ptext where
  "REDACTED_MID = code_points ''redacted''"

lemma redacted_marker: "code_points REDACTED = 0xAB # REDACTED_MID @ [0xBB]"
  by (simp add: code_points_def REDACTED_def REDACTED_MID_def)

lemma redacted_scalar: "list_all scalar (code_points REDACTED)"
  by (simp add: code_points_def REDACTED_def scalar_def)

text \<open>A text in which the marker's two delimiters do not occur and that is no part of the marker.\<close>

definition maskable :: "ptext \<Rightarrow> bool" where
  "maskable p \<longleftrightarrow> p \<noteq> [] \<and> 0xAB \<notin> set p \<and> 0xBB \<notin> set p \<and> \<not> sublist p REDACTED_MID"

lemma maskable_replace:
  assumes "maskable p" and "sublist p (replace_ne old (code_points REDACTED) s)"
  shows "sublist p s \<and> p \<noteq> old"
  using sublist_replace_ne [of p old "0xAB" REDACTED_MID "0xBB" s] assms
  by (simp add: maskable_def redacted_marker)

lemma maskable_rx_sub:
  assumes "maskable p" and "sublist p (rx_sub r (code_points REDACTED) s)"
  shows "sublist p s"
  using sublist_rx_sub_from [of p r "0xAB" REDACTED_MID "0xBB" "[]" s] assms
  by (simp add: maskable_def redacted_marker rx_sub_def)

lemma redact_patterns_sublist:
  assumes "maskable p" and "sublist p (redact_patterns py t)"
  shows "sublist p t"
proof -
  from assms(2) have "sublist p (rx_sub (SK_PATTERN py) (code_points REDACTED)
      (rx_sub JWT_PATTERN (code_points REDACTED) t))"
    by (simp add: redact_patterns_def SECRET_PATTERNS_def)
  from maskable_rx_sub [OF assms(1) maskable_rx_sub [OF assms(1) this]] show ?thesis .
qed

lemma redact_known_sublist:
  "maskable p \<Longrightarrow> sublist p (redact_known known t) \<Longrightarrow> sublist p t \<and> p \<notin> set known"
  unfolding redact_known_def
proof (induction known arbitrary: t)
  case (Cons k known)
  let ?t = "if k = [] then t else replace_ne k (code_points REDACTED) t"
  from Cons.prems(2) have "sublist p (fold (\<lambda>secret t. if secret = [] then t else
      replace_ne secret (code_points REDACTED) t) known ?t)" by simp
  from Cons.IH [OF Cons.prems(1) this] have IH: "sublist p ?t" "p \<notin> set known" by simp_all
  show ?case
  proof (cases "k = []")
    case True
    with IH Cons.prems(1) show ?thesis by (simp add: maskable_def)
  next
    case False
    with IH maskable_replace [OF Cons.prems(1), of k t] show ?thesis by simp
  qed
qed simp

lemma list_all_replace_ne:
  "list_all P new \<Longrightarrow> list_all P s \<Longrightarrow> list_all P (replace_ne old new s)"
proof (induction old new s rule: replace_ne.induct)
  case (2 old new c cs)
  show ?case
  proof (cases "old \<noteq> [] \<and> prefix old (c # cs)")
    case True
    have "list_all P (drop (length old) (c # cs))"
      using 2(4) by (metis append_take_drop_id list_all_append)
    with 2 True show ?thesis by (simp add: replace_ne.simps(2))
  next
    case False
    then have "replace_ne old new (c # cs) = c # replace_ne old new cs"
      by (simp only: replace_ne.simps(2) if_False)
    with 2 False show ?thesis by simp
  qed
qed simp

lemma list_all_rx_sub_from:
  "list_all P new \<Longrightarrow> list_all P s \<Longrightarrow> list_all P (rx_sub_from r new b s)"
proof (induction "length s" arbitrary: b s rule: less_induct)
  case less
  show ?case
  proof (cases s)
    case (Cons c cs)
    show ?thesis
    proof (cases rule: rx_sub_from_Cons_cases [of r b c cs new])
      case (hit q qs)
      have "suffix (snd q) s"
        using rx_ms_splits [of q r "(b, c # cs)"] hit(1) Cons by (auto simp: splits_def suffix_def)
      then have "list_all P (snd q)" using less.prems(2) by (auto simp: list_all_iff dest: set_mono_suffix)
      with less.hyps [of "snd q" "fst q"] less.prems hit Cons show ?thesis by simp
    next
      case miss
      with less Cons show ?thesis by simp
    qed
  qed simp
qed

lemma redact_scalar:
  assumes "list_all scalar t"
  shows "list_all scalar (redact_patterns py (redact_known known t))"
proof -
  have "list_all scalar (redact_known known t)"
    using assms unfolding redact_known_def
    by (induction known arbitrary: t) (auto intro: list_all_replace_ne redacted_scalar)
  then show ?thesis
    unfolding redact_patterns_def SECRET_PATTERNS_def rx_sub_def
    by (auto intro!: list_all_rx_sub_from redacted_scalar)
qed

lemma replace_ne_id: "\<not> sublist old s \<Longrightarrow> replace_ne old new s = s"
proof (induction s)
  case (Cons c cs)
  then have "\<not> prefix old (c # cs)" "\<not> sublist old cs"
    by (auto simp: sublist_Cons_right)
  with Cons.IH show ?case by (simp add: replace_ne.simps(2))
qed simp

lemma rx_sub_from_id: "\<not> rx_search_from r b s \<Longrightarrow> rx_sub_from r new b s = s"
  by (induction s arbitrary: b) (simp_all add: rx_sub_from.simps(2))

section \<open>Properties\<close>

text \<open>
  C12. A known secret does not survive: whatever the other secrets and wherever it stands in a
  text body, the stored body decodes to a text in which the secret does not occur. (The secret
  must not contain the marker's own quotation marks nor be a piece of the word in it.)
\<close>

theorem known_secret_never_stored:
  assumes "utf8_decode b = Some t" and "secret \<in> set known" and "maskable secret"
  shows "\<exists>b' t'. scrub_body py known (Some b) = Some b' \<and> utf8_decode b' = Some t' \<and>
           \<not> sublist secret t'"
proof -
  let ?t = "redact_patterns py (redact_known known t)"
  have "\<not> sublist secret ?t"
    using redact_patterns_sublist [OF assms(3)] redact_known_sublist [OF assms(3)] assms(2) by blast
  moreover have "utf8_decode (utf8_encode ?t) = Some ?t"
    using utf8_decode_SomeD [OF assms(1)] redact_scalar utf8_decode_encode by blast
  ultimately show ?thesis using assms(1) by (simp add: scrub_body_def)
qed

theorem known_secret_never_stored_witness:
  "\<exists>b' t'. scrub_body no_lib [code_points ''hunter2''] (Some (utf8_encode (code_points ''pw=hunter2;''))) = Some b' \<and>
     utf8_decode b' = Some t' \<and> \<not> sublist (code_points ''hunter2'') t'"
proof (rule known_secret_never_stored)
  show "utf8_decode (utf8_encode (code_points ''pw=hunter2;'')) = Some (code_points ''pw=hunter2;'')"
    by (rule utf8_decode_encode) (simp add: code_points_def scalar_def)
  show "maskable (code_points ''hunter2'')"
    by (simp add: maskable_def code_points_def REDACTED_MID_def sublist_Cons_right)
qed simp

text \<open>
  Scrubbing leaves the rest alone: a body that is not text is stored as it is, and so is a
  text body in which no known secret and neither pattern occurs.
\<close>

lemma clean_body_unchanged:
  assumes "\<And>t. utf8_decode b = Some t \<Longrightarrow>
      (\<forall>s\<in>set known. s \<noteq> [] \<longrightarrow> \<not> sublist s t) \<and> (\<forall>r\<in>set (SECRET_PATTERNS py). \<not> rx_search r t)"
  shows "scrub_body py known (Some b) = Some b"
proof (cases "utf8_decode b")
  case None
  then show ?thesis by (simp add: scrub_body_def)
next
  case (Some t)
  note clean = assms [OF Some]
  have "redact_known known t = t"
    using conjunct1 [OF clean] unfolding redact_known_def
    by (induction known) (simp_all add: replace_ne_id)
  moreover have "redact_patterns py t = t"
    using conjunct2 [OF clean]
    by (simp add: redact_patterns_def SECRET_PATTERNS_def rx_sub_def rx_search_def rx_sub_from_id)
  ultimately show ?thesis
    using Some utf8_decode_SomeD [OF Some] by (simp add: scrub_body_def)
qed

text \<open>
  Credentials in headers are redacted under any spelling of their names, every other header
  keeps its value, and no header is lost, added or moved.
\<close>

lemma sensitive_headers_redacted:
  "map fst (scrub_headers hs) = map fst hs \<and>
   (\<forall>i < length hs. snd (scrub_headers hs ! i) =
      (if lower (fst (hs ! i)) \<in> SENSITIVE_HEADER_NAMES then REDACTED else snd (hs ! i)))"
  by (auto simp: scrub_headers_def split_beta comp_def)

text \<open>
  C27. Evidence cannot be changed after the fact: whatever is written to either backend later,
  what is read under the id of a stored content is that content, if the hash has no collision
  among the contents in play.
\<close>

theorem evidence_immutable:
  assumes "inj_on sha U" and "set cs \<subseteq> U" and "c \<in> set cs"
    and "addressed_by sha path_for U fs" and "addressed_by sha (s3_key_for pfx) U objs"
  shows "local_get (sha c) (fold (\<lambda>c s. snd (local_put sha c s)) cs fs) = Inr c \<and>
         s3_get pfx (sha c) (fold (\<lambda>c s. snd (s3_put sha pfx c s)) cs objs) = Inr c"
  using local_store.evidence_kept [OF assms(4,2,1,3)] s3_store.evidence_kept [OF assms(5,2,1,3)]
  by blast

theorem evidence_immutable_witness:
  "local_get ''aa'' (fold (\<lambda>c s. snd (local_put (\<lambda>c. replicate (length c) CHR ''a'') c s)) [[1, 2], [3]] (\<lambda>_. None)) = Inr [1, 2]"
proof -
  let ?sha = "\<lambda>c :: bytes. replicate (length c) CHR ''a''"
  have inj: "inj_on ?sha {[1, 2], [3]}" by (simp add: inj_on_def)
  have emp: "addressed_by ?sha p U (\<lambda>_. None)" for p U by (simp add: addressed_by_def)
  from evidence_immutable [OF inj, of "[[1, 2], [3]]" "[1, 2]", OF _ _ emp emp] show ?thesis
    by (simp add: numeral_2_eq_2)
qed

end
