(* ===== verification/Http_Engine.thy ===== *)
theory Http_Engine
  imports Scope_Guard Destructive_Guard Rate_Limiter Transcript
begin

text \<open>
  The single outbound choke point: \<^verbatim>\<open>packages/core/src/sentinel_core/http_engine/engine.py\<close>,
  \<^verbatim>\<open>session.py\<close> and \<^verbatim>\<open>errors.py\<close>. \<open>request\<close> is \<^verbatim>\<open>HttpEngine.request\<close>: scope check,
  destructive-action check, token, up to \<open>1 + max_retries\<close> sends, one transcript. The HTTP client
  is the parameter \<open>env_client\<close>; the world has a ghost log of everything handed to it. The
  result is \<open>None\<close> where the wait for a token does not end.
\<close>

section \<open>Sessions, errors and responses\<close>

record session_state =
  sess_persona_id :: string
  sess_cookies :: "(string, string) dict"
  sess_extra_headers :: headers

definition AnonymousSession :: session_state where
  "AnonymousSession = \<lparr>sess_persona_id = ''anonymous'', sess_cookies = [], sess_extra_headers = []\<rparr>"

datatype engine_error =
    Scope_Violation scope_decision
  | Engine_Exn exn

record engine_response =
  er_status_code :: nat
  er_headers :: headers
  er_body :: bytes
  er_elapsed_ms :: rat
  er_transcript_id :: string
  er_url :: string

definition er_text :: "engine_response \<Rightarrow> ptext" where
  "er_text r = utf8_decode_replace (er_body r)"

text \<open>What the HTTP client answers: a response, or one of the exceptions.\<close>

datatype net_outcome =
    Net_Response recorded_response
  | Net_Timeout string
  | Net_Transport string
  | Net_Other exn

record wire_request =
  wire_method :: string
  wire_url :: string
  wire_headers :: headers
  wire_body :: "bytes option"

section \<open>The engine and its world\<close>

record engine =
  eng_scope_guard :: scope_guard
  eng_destructive_guard :: destructive_guard
  eng_limiter :: limiter_cfg
  eng_known_secrets :: "ptext list"
  eng_target_id :: string
  eng_scan_id :: string
  eng_max_retries :: nat
  eng_user_agent :: string

record ('s, 'n) world =
  w_db :: redis_db
  w_store :: 's
  w_net :: 'n
  w_sent :: "wire_request list"

record ('s, 'n) engine_env =
  env_py :: py_lib
  env_await :: "redis_db \<Rightarrow> redis_db"
  env_sleep :: "rat \<Rightarrow> redis_db \<Rightarrow> redis_db"
  env_client :: "wire_request \<Rightarrow> 'n \<Rightarrow> net_outcome \<times> 'n"
  env_put :: "bytes \<Rightarrow> 's \<Rightarrow> string \<times> 's"
  env_now :: "'n \<Rightarrow> string"

definition IDEMPOTENT_METHODS :: "string set" where
  "IDEMPOTENT_METHODS = {''GET'', ''HEAD'', ''OPTIONS''}"

definition RATE_LIMITED_STATUS_CODES :: "nat set" where
  "RATE_LIMITED_STATUS_CODES = {429, 503}"

text \<open>The headers: the user agent, overridden by the persona's and then by the caller's; the cookies last.\<close>

definition cookie_header :: "(string, string) dict \<Rightarrow> string" where
  "cookie_header cs = join ''; '' (map (\<lambda>(k, v). k @ ''='' @ v) cs)"

definition request_headers :: "engine \<Rightarrow> session_state \<Rightarrow> headers \<Rightarrow> headers" where
  "request_headers e persona hs =
     (let base = dict_merge (dict_merge [(''User-Agent'', eng_user_agent e)] (sess_extra_headers persona)) hs
      in if sess_cookies persona = [] then base
         else dict_setdefault ''Cookie'' (cookie_header (sess_cookies persona)) base)"

definition max_attempts :: "engine \<Rightarrow> string \<Rightarrow> nat" where
  "max_attempts e method = 1 + (if method \<in> IDEMPOTENT_METHODS then eng_max_retries e else 0)"

text \<open>
  The retry loop with \<open>n\<close> attempts left: the last response, the last error, and an exception
  of the client that is not caught. The number of attempts made is counted in \<open>k\<close>.
\<close>

fun send_loop ::
  "('s, 'n) engine_env \<Rightarrow> engine \<Rightarrow> wire_request \<Rightarrow> nat \<Rightarrow> nat \<Rightarrow> recorded_response option \<Rightarrow> string option \<Rightarrow>
     ('s, 'n) world \<Rightarrow> (exn + nat \<times> recorded_response option \<times> string option) \<times> ('s, 'n) world" where
  "send_loop env e rq 0 k resp err w = (Inr (k, resp, err), w)"
| "send_loop env e rq (Suc n) k resp err w =
     (let (out, net) = env_client env rq (w_net w);
          w = w\<lparr>w_net := net, w_sent := rq # w_sent w\<rparr>
      in case out of
           Net_Response r \<Rightarrow>
             if resp_status_code r \<in> RATE_LIMITED_STATUS_CODES
             then send_loop env e rq n (Suc k) (Some r) err
                    (w\<lparr>w_db := report_backpressure (eng_limiter e) (env_await env) (eng_target_id e) (1 / 2) 60 (w_db w)\<rparr>)
             else (Inr (Suc k, Some r, err),
                   w\<lparr>w_db := report_success (env_await env) (eng_target_id e) (w_db w)\<rparr>)
         | Net_Timeout t \<Rightarrow> send_loop env e rq n (Suc k) resp (Some (''timeout: '' @ t)) w
         | Net_Transport t \<Rightarrow> send_loop env e rq n (Suc k) resp (Some (''transport_error: '' @ t)) w
         | Net_Other x \<Rightarrow> (Inl x, w))"

text \<open>The two checks before anything is sent.\<close>

definition destructive_text :: "destructive_check \<Rightarrow> string" where
  "destructive_text c = ''Destructive-action guard: '' @ check_reason c"

definition preflight ::
  "py_lib \<Rightarrow> engine \<Rightarrow> string \<Rightarrow> string \<Rightarrow> string \<Rightarrow> bool \<Rightarrow> engine_error option" where
  "preflight py e method url link_text skip =
     (case evaluate py (eng_scope_guard e) method url of
        Inl x \<Rightarrow> Some (Engine_Exn x)
      | Inr d \<Rightarrow>
          if \<not> allowed d then Some (Scope_Violation d)
          else if skip then None
          else case check py (eng_destructive_guard e) method url link_text of
                 Inl x \<Rightarrow> Some (Engine_Exn x)
               | Inr c \<Rightarrow>
                   if is_suspect c
                   then Some (Scope_Violation (decision BLOCKED_METHOD (destructive_text c) None))
                   else None)"

definition failure_text :: "string \<Rightarrow> nat \<Rightarrow> string option \<Rightarrow> string" where
  "failure_text url k err =
     ''Request to '' @ url @ '' failed after '' @ show_nat k @ '' attempt(s): '' @ or_default err ''None''"

text \<open>Recording the outcome of the loop and turning it into the caller's result.\<close>

definition conclude ::
  "('s, 'n) engine_env \<Rightarrow> engine \<Rightarrow> session_state \<Rightarrow> wire_request \<Rightarrow>
     nat \<times> recorded_response option \<times> string option \<Rightarrow> ('s, 'n) world \<Rightarrow>
     (engine_error + engine_response) \<times> ('s, 'n) world" where
  "conclude env e persona rq outcome w =
     (let (k, resp, err) = outcome;
          req = \<lparr>req_method = wire_method rq, req_url = wire_url rq, req_headers = wire_headers rq,
                 req_body = wire_body rq\<rparr>;
          (tid, st) = record_transcript (env_put env) (env_py env) (eng_known_secrets e) (eng_scan_id e)
                        (Some (sess_persona_id persona)) req resp
                        (if resp = None then err else None) (env_now env (w_net w)) (w_store w);
          w = w\<lparr>w_store := st\<rparr>
      in case resp of
           None \<Rightarrow> (Inl (Engine_Exn (Connection_Error (failure_text (wire_url rq) k err))), w)
         | Some r \<Rightarrow>
             (Inr \<lparr>er_status_code = resp_status_code r, er_headers = resp_headers r,
                   er_body = or_default (resp_body r) [], er_elapsed_ms = resp_elapsed_ms r,
                   er_transcript_id = tid, er_url = wire_url rq\<rparr>, w))"

definition request ::
  "('s, 'n) engine_env \<Rightarrow> engine \<Rightarrow> string \<Rightarrow> string \<Rightarrow> session_state option \<Rightarrow> headers \<Rightarrow> bytes option \<Rightarrow>
     string \<Rightarrow> bool \<Rightarrow> ('s, 'n) world \<Rightarrow> ((engine_error + engine_response) \<times> ('s, 'n) world) option" where
  "request env e method0 url persona0 hs body link_text skip w =
     (let persona = or_default persona0 AnonymousSession;
          method = upper method0
      in case preflight (env_py env) e method url link_text skip of
           Some x \<Rightarrow> Some (Inl x, w)
         | None \<Rightarrow>
             (case acquire (eng_limiter e) (env_await env) (env_sleep env) (eng_target_id e) 1 None (w_db w) of
                None \<Rightarrow> None
              | Some (Inl x, db) \<Rightarrow> Some (Inl (Engine_Exn x), w\<lparr>w_db := db\<rparr>)
              | Some (Inr _, db) \<Rightarrow>
                  (let rq = \<lparr>wire_method = method, wire_url = url,
                             wire_headers = request_headers e persona hs, wire_body = body\<rparr>
                   in case send_loop env e rq (max_attempts e method) 0 None None (w\<lparr>w_db := db\<rparr>) of
                        (Inl x, w) \<Rightarrow> Some (Inl (Engine_Exn x), w)
                      | (Inr outcome, w) \<Rightarrow> Some (conclude env e persona rq outcome w))))"

section \<open>Facts about one request\<close>

lemma preflight_None:
  "preflight py e m u t skip = None \<Longrightarrow> permits py (eng_scope_guard e) m u"
  by (auto simp: preflight_def permits_def split: sum.splits if_splits)

lemma preflight_None_not_suspect:
  "preflight py e m u t False = None \<Longrightarrow>
     \<exists>c. check py (eng_destructive_guard e) m u t = Inr c \<and> \<not> is_suspect c"
  by (auto simp: preflight_def split: sum.splits if_splits)

text \<open>The loop sends copies of one request, at most \<open>n\<close> of them, and leaves the store alone.\<close>

lemma send_loop_sent:
  "send_loop env e rq n k resp err w = (out, w') \<Longrightarrow>
     \<exists>j\<le>n. w_sent w' = replicate j rq @ w_sent w \<and> w_store w' = w_store w \<and>
       (\<forall>k' r x. out = Inr (k', r, x) \<longrightarrow> k' = k + j) \<and> (0 < n \<longrightarrow> 0 < j)"
proof (induction n arbitrary: k resp err w)
  case (Suc n)
  obtain o1 net where c: "env_client env rq (w_net w) = (o1, net)" by fastforce
  have push: "replicate j rq @ rq # s = replicate (Suc j) rq @ s" for j s
    by (simp add: replicate_app_Cons_same)
  have step: "\<exists>j\<le>Suc n. w_sent w' = replicate j rq @ w_sent w \<and> w_store w' = w_store w \<and>
       (\<forall>k' r x. out = Inr (k', r, x) \<longrightarrow> k' = k + j) \<and> 0 < j"
    if "send_loop env e rq n (Suc k) r' x' w1 = (out, w')" "w_sent w1 = rq # w_sent w" "w_store w1 = w_store w"
    for r' x' w1
  proof -
    from Suc.IH [OF that(1)] obtain j where "j \<le> n" "w_sent w' = replicate j rq @ w_sent w1"
      "w_store w' = w_store w1" "\<forall>k' r x. out = Inr (k', r, x) \<longrightarrow> k' = Suc k + j" by blast
    then show ?thesis using that(2,3) by (intro exI [of _ "Suc j"]) (simp add: push)
  qed
  have one: ?case if "w_sent w' = rq # w_sent w" "w_store w' = w_store w"
    "\<forall>k' r x. out = Inr (k', r, x) \<longrightarrow> k' = Suc k"
    using that by (intro exI [of _ 1]) simp
  show ?case
  proof (cases o1)
    case (Net_Response r)
    show ?thesis
    proof (cases "resp_status_code r \<in> RATE_LIMITED_STATUS_CODES")
      case True
      with Suc.prems c Net_Response show ?thesis by (auto dest!: step)
    next
      case False
      with Suc.prems c Net_Response show ?thesis by (intro one) (auto simp: Let_def)
    qed
  next
    case (Net_Timeout t)
    with Suc.prems c show ?thesis by (auto dest!: step)
  next
    case (Net_Transport t)
    with Suc.prems c show ?thesis by (auto dest!: step)
  next
    case (Net_Other x)
    with Suc.prems c show ?thesis by (intro one) auto
  qed
qed auto

text \<open>
  The shape of a request: stopped before anything happens; stopped by the limiter; stopped by
  an uncaught exception of the client; or sent and recorded once.
\<close>

definition wire_of :: "engine \<Rightarrow> string \<Rightarrow> string \<Rightarrow> session_state option \<Rightarrow> headers \<Rightarrow> bytes option \<Rightarrow> wire_request" where
  "wire_of e method url persona hs body =
     \<lparr>wire_method = upper method, wire_url = url,
      wire_headers = request_headers e (or_default persona AnonymousSession) hs, wire_body = body\<rparr>"

lemma request_cases:
  assumes "request env e method url persona hs body t skip w = Some (r, w')"
  obtains
    (blocked) x where "preflight (env_py env) e (upper method) url t skip = Some x" "r = Inl x" "w' = w"
  | (limiter) x db where "r = Inl (Engine_Exn x)" "w' = w\<lparr>w_db := db\<rparr>"
      "acquire (eng_limiter e) (env_await env) (env_sleep env) (eng_target_id e) 1 None (w_db w) = Some (Inl x, db)"
  | (raised) x db where "preflight (env_py env) e (upper method) url t skip = None" "r = Inl (Engine_Exn x)"
      "acquire (eng_limiter e) (env_await env) (env_sleep env) (eng_target_id e) 1 None (w_db w) = Some (Inr (), db)"
      "send_loop env e (wire_of e method url persona hs body) (max_attempts e (upper method)) 0 None None
         (w\<lparr>w_db := db\<rparr>) = (Inl x, w')"
  | (recorded) outcome db w1 where "preflight (env_py env) e (upper method) url t skip = None"
      "acquire (eng_limiter e) (env_await env) (env_sleep env) (eng_target_id e) 1 None (w_db w) = Some (Inr (), db)"
      "send_loop env e (wire_of e method url persona hs body) (max_attempts e (upper method)) 0 None None
         (w\<lparr>w_db := db\<rparr>) = (Inr outcome, w1)"
      "(r, w') = conclude env e (or_default persona AnonymousSession) (wire_of e method url persona hs body) outcome w1"
proof (cases "preflight (env_py env) e (upper method) url t skip")
  case (Some x)
  with assms blocked show ?thesis by (simp add: request_def)
next
  case pre: None
  show ?thesis
  proof (cases "acquire (eng_limiter e) (env_await env) (env_sleep env) (eng_target_id e) 1 None (w_db w)")
    case None
    with assms pre show ?thesis by (simp add: request_def)
  next
    case (Some a)
    then obtain ar db where a:
      "acquire (eng_limiter e) (env_await env) (env_sleep env) (eng_target_id e) 1 None (w_db w) = Some (ar, db)"
      by (cases a) auto
    show ?thesis
    proof (cases ar)
      case (Inl x)
      with assms pre a show ?thesis by (intro limiter [of x db]) (auto simp: request_def)
    next
      case (Inr u)
      obtain so w1 where so: "send_loop env e (wire_of e method url persona hs body)
          (max_attempts e (upper method)) 0 None None (w\<lparr>w_db := db\<rparr>) = (so, w1)" by fastforce
      show ?thesis
      proof (cases so)
        case (Inl x)
        with assms pre a \<open>ar = Inr u\<close> so show ?thesis
          by (intro raised [of x db]) (auto simp: request_def wire_of_def Let_def)
      next
        case (Inr outcome)
        with assms pre a \<open>ar = Inr u\<close> so show ?thesis
          by (intro recorded [of db outcome w1]) (auto simp: request_def wire_of_def Let_def)
      qed
    qed
  qed
qed

lemma conclude_frame:
  "conclude env e p rq out w = (r, w') \<Longrightarrow> w_sent w' = w_sent w \<and> w_db w' = w_db w \<and> w_net w' = w_net w"
  by (auto simp: conclude_def Let_def split: prod.splits option.splits)

lemma request_sent:
  assumes "request env e method url persona hs body t skip w = Some (r, w')"
  shows "\<exists>j\<le>max_attempts e (upper method).
      w_sent w' = replicate j (wire_of e method url persona hs body) @ w_sent w \<and>
      (0 < j \<longrightarrow> preflight (env_py env) e (upper method) url t skip = None)"
  using assms
proof (cases rule: request_cases)
  case (raised x db)
  from send_loop_sent [OF raised(4)] raised(1) show ?thesis by auto
next
  case (recorded outcome db w1)
  from send_loop_sent [OF recorded(3)] conclude_frame [OF recorded(4) [symmetric]] recorded(1) show ?thesis by auto
qed (auto intro: exI [of _ 0])

text \<open>The feedback to the limiter moves no tokens.\<close>

lemma report_granted:
  assumes "passes 0 f"
  shows "r_granted (report_backpressure cfg f tid x ttl db) = r_granted db"
    and "r_granted (report_success f tid db) = r_granted db"
  using passesD(4) [OF assms]
  by (simp_all add: report_backpressure_def report_success_def redis_set_def redis_delete_def Let_def
      split: option.split)

lemma send_loop_granted:
  "passes 0 (env_await env) \<Longrightarrow> send_loop env e rq n k resp err w = (out, w') \<Longrightarrow>
     r_granted (w_db w') = r_granted (w_db w)"
proof (induction n arbitrary: k resp err w)
  case (Suc n)
  note IH = Suc.IH [OF Suc.prems(1)]
  obtain o1 net where c: "env_client env rq (w_net w) = (o1, net)" by fastforce
  from Suc.prems(2) c show ?case
    by (cases o1) (auto simp: Let_def report_granted [OF Suc.prems(1)] dest!: IH split: if_splits)
qed simp

section \<open>A component that sends through a policy\<close>

text \<open>
  The contract of a component whose steps send requests: what a step adds to the log of sent
  requests is permitted by the policy. Then so is everything that a whole run adds.
\<close>

locale guarded_sender = outbound_policy policy verified host_covered
  for policy :: "'g \<Rightarrow> string \<Rightarrow> string \<Rightarrow> bool" and verified host_covered +
  fixes guard :: 'g
    and step :: "'w \<Rightarrow> 'w \<Rightarrow> bool"
    and sent :: "'w \<Rightarrow> (string \<times> string) list"
  assumes step_sent: "step w w' \<Longrightarrow> \<exists>new. sent w' = new @ sent w \<and> list_all (\<lambda>(m, u). policy guard m u) new"
begin

lemma run_sent:
  "step\<^sup>*\<^sup>* w w' \<Longrightarrow> \<exists>new. sent w' = new @ sent w \<and> list_all (\<lambda>(m, u). policy guard m u) new"
proof (induction rule: rtranclp_induct)
  case (step y z)
  from step(3) step_sent [OF step(2)] show ?case by fastforce
qed simp

lemma run_unverified: "step\<^sup>*\<^sup>* w w' \<Longrightarrow> \<not> verified guard \<Longrightarrow> sent w' = sent w"
  using run_sent [of w w'] unverified_sent_empty [of guard] by force

lemma run_covered:
  "step\<^sup>*\<^sup>* w w' \<Longrightarrow> (m, u) \<in> set (sent w') \<Longrightarrow> (m, u) \<in> set (sent w) \<or> host_covered guard u"
  using run_sent [of w w'] sent_within_scope [of guard] by fastforce

end

definition sent_pairs :: "('s, 'n) world \<Rightarrow> (string \<times> string) list" where
  "sent_pairs w = map (\<lambda>rq. (wire_method rq, wire_url rq)) (w_sent w)"

text \<open>One call of \<^verbatim>\<open>request\<close> that returns or raises, with any arguments.\<close>

definition engine_step :: "('s, 'n) engine_env \<Rightarrow> engine \<Rightarrow> ('s, 'n) world \<Rightarrow> ('s, 'n) world \<Rightarrow> bool" where
  "engine_step env e w w' \<longleftrightarrow>
     (\<exists>method url persona hs body t skip r. request env e method url persona hs body t skip w = Some (r, w'))"

lemma engine_step_sent:
  assumes "engine_step env e w w'"
  shows "\<exists>new. sent_pairs w' = new @ sent_pairs w \<and> list_all (\<lambda>(m, u). permits (env_py env) (eng_scope_guard e) m u) new"
proof -
  obtain meth url persona hs body t skip r where
    "request env e meth url persona hs body t skip w = Some (r, w')"
    using assms unfolding engine_step_def by blast
  from request_sent [OF this] obtain j where
    "w_sent w' = replicate j (wire_of e meth url persona hs body) @ w_sent w"
    "0 < j \<longrightarrow> permits (env_py env) (eng_scope_guard e) (upper meth) url"
    using preflight_None by blast
  then show ?thesis
    by (intro exI [of _ "replicate j (upper meth, url)"])
      (auto simp: sent_pairs_def wire_of_def list_all_iff)
qed

interpretation engine_sender: guarded_sender "permits (env_py env)" target_ownership_verified
  "url_covered (env_py env)" "eng_scope_guard e" "engine_step env e" sent_pairs
  for env :: "('s, 'n) engine_env" and e
  by unfold_locales (rule engine_step_sent)

section \<open>A world for the examples\<close>

text \<open>A client that answers a fixed list of outcomes in turn, and a store on local files.\<close>

definition scripted :: "wire_request \<Rightarrow> net_outcome list \<Rightarrow> net_outcome \<times> net_outcome list" where
  "scripted rq outs = (case outs of [] \<Rightarrow> (Net_Timeout ''quiet'', []) | out # outs \<Rightarrow> (out, outs))"

type_synonym demo_client = "wire_request \<Rightarrow> net_outcome list \<Rightarrow> net_outcome \<times> net_outcome list"

definition demo_env :: "demo_client \<Rightarrow> (files, net_outcome list) engine_env" where
  "demo_env cl = \<lparr>env_py = no_lib, env_await = (\<lambda>db. db), env_sleep = exact_sleep, env_client = cl,
     env_put = local_put (\<lambda>c. ''id''), env_now = (\<lambda>_. ''now'')\<rparr>"

definition demo_engine :: "scope_rule list \<Rightarrow> engine" where
  "demo_engine rs = \<lparr>eng_scope_guard = shop_guard rs, eng_destructive_guard = strict_guard,
     eng_limiter = example_cfg, eng_known_secrets = [], eng_target_id = ''t1'', eng_scan_id = ''s1'',
     eng_max_retries = 2, eng_user_agent = ''UA''\<rparr>"

definition demo_world :: "net_outcome list \<Rightarrow> (files, net_outcome list) world" where
  "demo_world outs = \<lparr>w_db = empty_db 0, w_store = (\<lambda>_. None), w_net = outs, w_sent = []\<rparr>"

definition demo_url :: string where
  "demo_url = ''https://shop.io/cart''"

definition status :: "nat \<Rightarrow> net_outcome" where
  "status n = Net_Response \<lparr>resp_status_code = n, resp_headers = [], resp_body = None, resp_elapsed_ms = 1\<rparr>"

lemma demo_acquire:
  "acquire example_cfg (\<lambda>db. db) exact_sleep ''t1'' 1 None (empty_db 0) =
     Some (Inr (), commit (bucket_key ''t1'') 9 0 1 (empty_db 0))"
proof -
  have "try_acquire example_cfg (\<lambda>db. db) ''t1'' 1 None (empty_db 0) =
      (Inr \<lparr>acq_allowed = True, wait_seconds = 0\<rparr>, commit (bucket_key ''t1'') 9 0 1 (empty_db 0))"
    by (simp add: try_acquire_def MAX_CAS_RETRIES_def numeral_eq_Suc Let_def bucket_decide_def
        example_cfg_def empty_db_def redis_hmget_def live_def)
  then show ?thesis by (simp add: acquire_unfold)
qed

lemma demo_preflight: "preflight no_lib (demo_engine []) ''GET'' demo_url [] True = None"
proof -
  have "evaluate no_lib (shop_guard []) ''GET'' demo_url = Inr (decision ALLOWED ''In scope.'' None)"
    by (simp add: demo_url_def scope_eval)
  then show ?thesis by (simp add: preflight_def demo_engine_def)
qed

lemma demo_upper: "upper ''GET'' = ''GET''"
  by (simp add: upper_def upper_char_def)

lemma demo_request:
  "request (demo_env cl) (demo_engine []) ''GET'' demo_url None [] None [] True (demo_world outs) =
     (case send_loop (demo_env cl) (demo_engine []) (wire_of (demo_engine []) ''GET'' demo_url None [] None) 3 0 None None
             ((demo_world outs)\<lparr>w_db := commit (bucket_key ''t1'') 9 0 1 (empty_db 0)\<rparr>) of
        (Inl x, w) \<Rightarrow> Some (Inl (Engine_Exn x), w)
      | (Inr outcome, w) \<Rightarrow>
          Some (conclude (demo_env cl) (demo_engine []) AnonymousSession
                 (wire_of (demo_engine []) ''GET'' demo_url None [] None) outcome w))"
proof -
  have "max_attempts (demo_engine []) ''GET'' = 3"
    by (simp add: max_attempts_def IDEMPOTENT_METHODS_def demo_engine_def)
  moreover have "env_py (demo_env cl) = no_lib" "env_await (demo_env cl) = (\<lambda>db. db)" "env_sleep (demo_env cl) = exact_sleep"
    "eng_limiter (demo_engine []) = example_cfg" "eng_target_id (demo_engine []) = ''t1''"
    "w_db (demo_world outs) = empty_db 0"
    by (simp_all add: demo_env_def demo_engine_def demo_world_def)
  ultimately show ?thesis
    unfolding request_def Let_def demo_upper
    by (simp add: demo_preflight demo_acquire wire_of_def demo_upper split: prod.split sum.split)
qed

lemma demo_request_Some:
  "\<exists>r w'. request (demo_env cl) (demo_engine []) ''GET'' demo_url None [] None [] True (demo_world outs) = Some (r, w')"
  unfolding demo_request by (auto split: prod.splits sum.splits)

section \<open>Properties\<close>

text \<open>
  C1. Every request that reaches the network was let through: whatever a call of \<^verbatim>\<open>request\<close> sends
  is the one request it was asked for, which the scope guard permits at that URL and with that
  method; and unless the caller switched the destructive-action guard off, it is not suspect.
  A method that is not idempotent is sent at most once, another at most \<open>1 + max_retries\<close> times.
\<close>

theorem sent_requests_passed_the_guards:
  assumes "request env e method url persona hs body t skip w = Some (r, w')"
  shows "\<exists>j. w_sent w' = replicate j (wire_of e method url persona hs body) @ w_sent w \<and>
     j \<le> (if upper method \<in> IDEMPOTENT_METHODS then 1 + eng_max_retries e else 1) \<and>
     (0 < j \<longrightarrow> in_scope (env_py env) (eng_scope_guard e) (upper method) url \<and>
        (skip \<or> (\<exists>c. check (env_py env) (eng_destructive_guard e) (upper method) url t = Inr c \<and> \<not> is_suspect c)))"
proof -
  from request_sent [OF assms] obtain j where j: "j \<le> max_attempts e (upper method)"
    "w_sent w' = replicate j (wire_of e method url persona hs body) @ w_sent w"
    "0 < j \<longrightarrow> preflight (env_py env) e (upper method) url t skip = None" by blast
  have "0 < j \<longrightarrow> in_scope (env_py env) (eng_scope_guard e) (upper method) url \<and>
        (skip \<or> (\<exists>c. check (env_py env) (eng_destructive_guard e) (upper method) url t = Inr c \<and> \<not> is_suspect c))"
    using j(3) preflight_None [of "env_py env" e "upper method" url t skip]
      preflight_None_not_suspect [of "env_py env" e "upper method" url t]
    by (cases skip) (auto simp: permits_iff_in_scope)
  with j show ?thesis by (intro exI [of _ j]) (auto simp: max_attempts_def split: if_splits)
qed

theorem sent_requests_passed_the_guards_witness:
  "\<exists>r w' j. request (demo_env scripted) (demo_engine []) ''GET'' demo_url None [] None [] True (demo_world [status 429, status 200]) = Some (r, w') \<and>
     j \<le> 3 \<and> w_sent w' = replicate j (wire_of (demo_engine []) ''GET'' demo_url None [] None)"
proof -
  obtain r w' where rq: "request (demo_env scripted) (demo_engine []) ''GET'' demo_url None [] None [] True
      (demo_world [status 429, status 200]) = Some (r, w')"
    using demo_request_Some by blast
  from sent_requests_passed_the_guards [OF rq] rq show ?thesis
    by (auto simp: demo_world_def demo_engine_def demo_upper IDEMPOTENT_METHODS_def)
qed

text \<open>
  A request that the guards stop leaves no trace: nothing is sent, no token is taken, no
  transcript is written, and the caller gets the exception.
\<close>

lemma blocked_request_has_no_effect:
  assumes "\<not> in_scope (env_py env) (eng_scope_guard e) (upper method) url"
  shows "\<exists>x. request env e method url persona hs body t skip w = Some (Inl x, w)"
proof -
  have "preflight (env_py env) e (upper method) url t skip \<noteq> None"
    using preflight_None [of "env_py env" e "upper method" url t skip] assms
    unfolding permits_iff_in_scope by blast
  then show ?thesis by (auto simp: request_def)
qed





text \<open>
  A persona's identity travels only by its own request: the \<^verbatim>\<open>Cookie\<close> header of what is sent
  is the caller's if the caller gave one, otherwise the persona's if its extra headers have one,
  otherwise the persona's cookies in order, and an anonymous request without such a header has
  none.
\<close>

lemma cookie_header_of_request:
  "dict_get (request_headers e persona hs) ''Cookie'' =
     (case dict_get (rev hs) ''Cookie'' of
        Some v \<Rightarrow> Some v
      | None \<Rightarrow>
          (case dict_get (rev (sess_extra_headers persona)) ''Cookie'' of
             Some v \<Rightarrow> Some v
           | None \<Rightarrow> if sess_cookies persona = [] then None else Some (cookie_header (sess_cookies persona))))"
  by (simp add: request_headers_def Let_def dict_get_merge dict_get_def [of "[(_, _)]"] split: option.split)

end
