(* ===== verification/Auth.thy ===== *)
theory Auth
  imports Http_Engine
begin

text \<open>
  Personas and their sessions: \<^verbatim>\<open>packages/auth/src/sentinel_auth/\<close> with \<^verbatim>\<open>persona_session.py\<close>,
  \<^verbatim>\<open>oracle.py\<close>, \<^verbatim>\<open>models.py\<close> and \<^verbatim>\<open>replay.py\<close>. The browser is a parameter: a function from a
  command and the browser's state to an outcome and the next state. The commands given to it are
  kept in a ghost log.
\<close>

section \<open>Persona sessions\<close>

record browser_cookie =
  ck_domain :: string
  ck_name :: string
  ck_value :: string

record persona_session =
  ps_persona_id :: string
  ps_storage_cookies :: "browser_cookie list"
  ps_target_host :: "string option"

definition domain_matches :: "string \<Rightarrow> string \<Rightarrow> bool" where
  "domain_matches host cookie_domain \<longleftrightarrow> host = cookie_domain \<or> suffix (''.'' @ cookie_domain) host"

text \<open>An empty target host counts as none.\<close>

definition foreign_cookie :: "persona_session \<Rightarrow> browser_cookie \<Rightarrow> bool" where
  "foreign_cookie ps c =
     (let domain = lstrip_by is_dot (ck_domain c); host = or_default (ps_target_host ps) []
      in host \<noteq> [] \<and> domain \<noteq> [] \<and> \<not> domain_matches host domain)"

definition session_cookies :: "persona_session \<Rightarrow> (string, string) dict" where
  "session_cookies ps =
     fold (\<lambda>c d. if foreign_cookie ps c then d else dict_set (ck_name c) (ck_value c) d)
       (ps_storage_cookies ps) []"

definition session_of :: "persona_session \<Rightarrow> session_state" where
  "session_of ps = \<lparr>sess_persona_id = ps_persona_id ps, sess_cookies = session_cookies ps, sess_extra_headers = []\<rparr>"

section \<open>The session oracle\<close>

datatype oracle_signal = SIG_STATUS_CODE | SIG_BODY_CONTAINS

record session_oracle =
  probe_method :: string
  probe_url :: string
  signal :: oracle_signal
  authenticated_value :: ptext

record oracle_result =
  or_oracle :: "session_oracle option"
  or_detail :: ptext

definition status_text :: "engine_response \<Rightarrow> ptext" where
  "status_text r = code_points (show_nat (er_status_code r))"

definition matches :: "session_oracle \<Rightarrow> engine_response \<Rightarrow> bool" where
  "matches orc r \<longleftrightarrow>
     (case signal orc of
        SIG_STATUS_CODE \<Rightarrow> status_text r = authenticated_value orc
      | SIG_BODY_CONTAINS \<Rightarrow> sublist (authenticated_value orc) (er_text r))"

definition find_unique_line :: "ptext \<Rightarrow> ptext \<Rightarrow> ptext option" where
  "find_unique_line authenticated anonymous =
     (let anon_lines = set (text_splitlines anonymous)
      in find (\<lambda>s. 6 \<le> length s \<and> s \<notin> anon_lines) (map text_strip (text_splitlines authenticated)))"

definition no_differential_text :: "string \<Rightarrow> string \<Rightarrow> nat \<Rightarrow> ptext" where
  "no_differential_text m u n = code_points
     (''No reliable differential found between authenticated and anonymous responses at '' @ m @ '' '' @ u @
     '' (both returned '' @ show_nat n @
     '' with indistinguishable bodies). Access-control findings on this target are capped at '' @
     [CHR 0x27] @ ''probable'' @ [CHR 0x27] @ '' confidence '') @
     [0x2014] @ code_points ('' see docs/04-edge-cases.md '' @ [CHR 0xA7] @ ''B3.'')"

text \<open>The comparison of the two responses.\<close>

definition compare_responses :: "string \<Rightarrow> string \<Rightarrow> engine_response \<Rightarrow> engine_response \<Rightarrow> oracle_result" where
  "compare_responses m u auth anon =
     (if er_status_code auth \<noteq> er_status_code anon
      then \<lparr>or_oracle = Some \<lparr>probe_method = m, probe_url = u, signal = SIG_STATUS_CODE,
                              authenticated_value = status_text auth\<rparr>,
            or_detail = code_points (''Status code differs: authenticated='' @ show_nat (er_status_code auth) @
                        '', anonymous='' @ show_nat (er_status_code anon) @ ''.'')\<rparr>
      else case (if er_text auth \<noteq> er_text anon
                 then find_unique_line (er_text auth) (er_text anon) else None) of
             Some line \<Rightarrow>
               \<lparr>or_oracle = Some \<lparr>probe_method = m, probe_url = u, signal = SIG_BODY_CONTAINS,
                                  authenticated_value = line\<rparr>,
                or_detail = code_points ''Same status code, but response body differs in an identifiable way.''\<rparr>
           | None \<Rightarrow>
               \<lparr>or_oracle = None, or_detail = no_differential_text m u (er_status_code auth)\<rparr>)"

text \<open>Two requests through the engine: as the persona, then as nobody. A request that raises ends it.\<close>

type_synonym ('s, 'n, 'a) engine_run = "((engine_error + 'a) \<times> ('s, 'n) world) option"

definition establish_session_oracle ::
  "('s, 'n) engine_env \<Rightarrow> engine \<Rightarrow> persona_session \<Rightarrow> string \<Rightarrow> string \<Rightarrow> ('s, 'n) world \<Rightarrow>
     ('s, 'n, oracle_result) engine_run" where
  "establish_session_oracle env e ps u m w =
     (case request env e m u (Some (session_of ps)) [] None [] False w of
        None \<Rightarrow> None
      | Some (Inl x, w1) \<Rightarrow> Some (Inl x, w1)
      | Some (Inr auth, w1) \<Rightarrow>
          (case request env e m u (Some AnonymousSession) [] None [] False w1 of
             None \<Rightarrow> None
           | Some (Inl x, w2) \<Rightarrow> Some (Inl x, w2)
           | Some (Inr anon, w2) \<Rightarrow> Some (Inr (compare_responses m u auth anon), w2)))"

definition check_oracle ::
  "('s, 'n) engine_env \<Rightarrow> engine \<Rightarrow> session_oracle \<Rightarrow> persona_session \<Rightarrow> ('s, 'n) world \<Rightarrow>
     ('s, 'n, bool) engine_run" where
  "check_oracle env e orc ps w =
     (case request env e (probe_method orc) (probe_url orc) (Some (session_of ps)) [] None [] False w of
        None \<Rightarrow> None
      | Some (Inl x, w1) \<Rightarrow> Some (Inl x, w1)
      | Some (Inr r, w1) \<Rightarrow> Some (Inr (matches orc r), w1))"

section \<open>Login recipes and their replay\<close>

datatype step_action = GOTO | FILL | FILL_SECRET | CLICK | WAIT_FOR_SELECTOR | WAIT_FOR_URL

record login_step =
  ls_action :: step_action
  ls_selector :: "string option"
  ls_value :: "string option"
  ls_credential_ref :: "string option"
  ls_timeout_s :: rat

datatype assertion_kind = URL_CONTAINS | SELECTOR_VISIBLE | SELECTOR_HIDDEN

record success_assertion =
  sa_kind :: assertion_kind
  sa_value :: string
  sa_timeout_s :: rat

record login_recipe =
  lr_start_url :: string
  lr_steps :: "login_step list"
  lr_success_assertion :: success_assertion
  lr_max_duration_s :: rat

record credential =
  cr_ref :: string
  cr_secret :: ptext

record login_replay_result =
  lrr_success :: bool
  lrr_storage_state :: "browser_cookie list option"
  lrr_error :: "string option"

datatype page_cmd =
    New_Context
  | New_Page
  | Page_Goto string rat
  | Page_Fill string ptext rat
  | Page_Click string rat
  | Page_Wait_Selector string "string option" rat
  | Page_Wait_Url string rat
  | Context_Storage_State
  | Context_Close

text \<open>The outcome of a command; \<open>Pg_State\<close> answers \<^const>\<open>Context_Storage_State\<close>.\<close>

datatype page_outcome = Pg_Ok | Pg_State "browser_cookie list" | Pg_Timeout string | Pg_Error exn

record 'b browser =
  br_state :: 'b
  br_log :: "page_cmd list"

type_synonym 'b driver = "page_cmd \<Rightarrow> 'b \<Rightarrow> page_outcome \<times> 'b"

text \<open>What ends the body of the \<^verbatim>\<open>try\<close> early.\<close>

datatype replay_stop = Stop_Timeout string | Stop_Missing string | Stop_Raise exn

type_synonym 'b page_run = "(replay_stop + browser_cookie list) \<times> 'b browser"

definition run_cmd :: "'b driver \<Rightarrow> page_cmd \<Rightarrow> 'b browser \<Rightarrow> 'b page_run" where
  "run_cmd drv c b =
     (let (out, st) = drv c (br_state b); b = \<lparr>br_state = st, br_log = c # br_log b\<rparr>
      in (case out of
            Pg_Ok \<Rightarrow> Inr []
          | Pg_State cs \<Rightarrow> Inr cs
          | Pg_Timeout t \<Rightarrow> Inl (Stop_Timeout t)
          | Pg_Error x \<Rightarrow> Inl (Stop_Raise x), b))"

text \<open>The command of a step; a missing field fails the \<^verbatim>\<open>assert\<close>, a missing credential is a \<^verbatim>\<open>KeyError\<close>.\<close>

definition need :: "'a option \<Rightarrow> ('a \<Rightarrow> replay_stop + 'c) \<Rightarrow> replay_stop + 'c" where
  "need x f = (case x of None \<Rightarrow> Inl (Stop_Raise Assertion_Error) | Some v \<Rightarrow> f v)"

definition step_cmd :: "(string, credential) dict \<Rightarrow> login_step \<Rightarrow> replay_stop + page_cmd" where
  "step_cmd creds s =
     (let t = ls_timeout_s s * 1000
      in case ls_action s of
           GOTO \<Rightarrow> need (ls_value s) (\<lambda>v. Inr (Page_Goto v t))
         | FILL \<Rightarrow> need (ls_selector s) (\<lambda>q. need (ls_value s) (\<lambda>v. Inr (Page_Fill q (code_points v) t)))
         | FILL_SECRET \<Rightarrow>
             need (ls_selector s) (\<lambda>q. need (ls_credential_ref s) (\<lambda>r.
               case dict_get creds r of
                 None \<Rightarrow> Inl (Stop_Missing r)
               | Some c \<Rightarrow> Inr (Page_Fill q (cr_secret c) t)))
         | CLICK \<Rightarrow> need (ls_selector s) (\<lambda>q. Inr (Page_Click q t))
         | WAIT_FOR_SELECTOR \<Rightarrow> need (ls_selector s) (\<lambda>q. Inr (Page_Wait_Selector q None t))
         | WAIT_FOR_URL \<Rightarrow> need (ls_value s) (\<lambda>v. Inr (Page_Wait_Url v t)))"

fun run_steps :: "'b driver \<Rightarrow> (string, credential) dict \<Rightarrow> login_step list \<Rightarrow> 'b browser \<Rightarrow> 'b page_run" where
  "run_steps drv creds [] b = (Inr [], b)"
| "run_steps drv creds (s # ss) b =
     (case step_cmd creds s of
        Inl x \<Rightarrow> (Inl x, b)
      | Inr c \<Rightarrow>
          (case run_cmd drv c b of
             (Inl x, b) \<Rightarrow> (Inl x, b)
           | (Inr _, b) \<Rightarrow> run_steps drv creds ss b))"

definition assertion_cmd :: "success_assertion \<Rightarrow> page_cmd" where
  "assertion_cmd a =
     (let t = sa_timeout_s a * 1000
      in case sa_kind a of
           URL_CONTAINS \<Rightarrow> Page_Wait_Url (''**'' @ sa_value a @ ''**'') t
         | SELECTOR_VISIBLE \<Rightarrow> Page_Wait_Selector (sa_value a) (Some ''visible'') t
         | SELECTOR_HIDDEN \<Rightarrow> Page_Wait_Selector (sa_value a) (Some ''hidden'') t)"

fun assertion_kind_value :: "assertion_kind \<Rightarrow> string" where
  "assertion_kind_value URL_CONTAINS = ''url_contains''"
| "assertion_kind_value SELECTOR_VISIBLE = ''selector_visible''"
| "assertion_kind_value SELECTOR_HIDDEN = ''selector_hidden''"

text \<open>The body of the \<^verbatim>\<open>try\<close>: its result, or what stopped it.\<close>

definition failed_login :: "string \<Rightarrow> login_replay_result" where
  "failed_login err = \<lparr>lrr_success = False, lrr_storage_state = None, lrr_error = Some err\<rparr>"

definition replay_body ::
  "'b driver \<Rightarrow> login_recipe \<Rightarrow> (string, credential) dict \<Rightarrow> 'b browser \<Rightarrow>
     (replay_stop + login_replay_result) \<times> 'b browser" where
  "replay_body drv recipe creds b =
     (case run_cmd drv (Page_Goto (lr_start_url recipe) (lr_max_duration_s recipe * 1000)) b of
        (Inl x, b) \<Rightarrow> (Inl x, b)
      | (Inr _, b) \<Rightarrow>
          (case run_steps drv creds (lr_steps recipe) b of
             (Inl x, b) \<Rightarrow> (Inl x, b)
           | (Inr _, b) \<Rightarrow>
               (let a = lr_success_assertion recipe
                in case run_cmd drv (assertion_cmd a) b of
                     (Inl (Stop_Timeout _), b) \<Rightarrow>
                       (Inr (failed_login (''Success assertion failed: '' @ assertion_kind_value (sa_kind a) @
                          ''='' @ py_repr (sa_value a))), b)
                   | (Inl x, b) \<Rightarrow> (Inl x, b)
                   | (Inr _, b) \<Rightarrow>
                       (case run_cmd drv Context_Storage_State b of
                          (Inl x, b) \<Rightarrow> (Inl x, b)
                        | (Inr cs, b) \<Rightarrow>
                            (Inr \<lparr>lrr_success = True, lrr_storage_state = Some cs, lrr_error = None\<rparr>, b)))))"

text \<open>
  The whole of \<^verbatim>\<open>replay\<close>: two commands outside the \<^verbatim>\<open>try\<close>, the body, the two \<^verbatim>\<open>except\<close> clauses,
  and the \<^verbatim>\<open>finally\<close>, whose own failure takes precedence.
\<close>

definition stop_exn :: "replay_stop \<Rightarrow> exn" where
  "stop_exn x = (case x of Stop_Timeout t \<Rightarrow> Other_Error t | Stop_Missing r \<Rightarrow> Key_Error r | Stop_Raise x \<Rightarrow> x)"

definition handle_stop :: "replay_stop + login_replay_result \<Rightarrow> login_replay_result res" where
  "handle_stop r =
     (case r of
        Inr res \<Rightarrow> Inr res
      | Inl (Stop_Timeout t) \<Rightarrow> Inr (failed_login (''timeout: '' @ t))
      | Inl (Stop_Missing k) \<Rightarrow> Inr (failed_login (''missing credential for ref '' @ py_repr k))
      | Inl (Stop_Raise (Key_Error k)) \<Rightarrow> Inr (failed_login (''missing credential for ref '' @ py_repr k))
      | Inl (Stop_Raise x) \<Rightarrow> Inl x)"

definition replay ::
  "'b driver \<Rightarrow> login_recipe \<Rightarrow> (string, credential) dict \<Rightarrow> 'b browser \<Rightarrow> login_replay_result res \<times> 'b browser" where
  "replay drv recipe creds b =
     (case run_cmd drv New_Context b of
        (Inl x, b) \<Rightarrow> (Inl (stop_exn x), b)
      | (Inr _, b) \<Rightarrow>
          (case run_cmd drv New_Page b of
             (Inl x, b) \<Rightarrow> (Inl (stop_exn x), b)
           | (Inr _, b) \<Rightarrow>
               (let (r, b) = replay_body drv recipe creds b
                in case run_cmd drv Context_Close b of
                     (Inl x, b) \<Rightarrow> (Inl (stop_exn x), b)
                   | (Inr _, b) \<Rightarrow> (handle_stop r, b))))"

section \<open>Facts\<close>

lemma session_cookies_from:
  assumes "dict_get (session_cookies ps) n = Some v"
  shows "\<exists>c\<in>set (ps_storage_cookies ps). ck_name c = n \<and> ck_value c = v \<and> \<not> foreign_cookie ps c"
proof -
  have "dict_get (fold (\<lambda>c d. if foreign_cookie ps c then d else dict_set (ck_name c) (ck_value c) d) cs d) n = Some v \<Longrightarrow>
      dict_get d n = Some v \<or> (\<exists>c\<in>set cs. ck_name c = n \<and> ck_value c = v \<and> \<not> foreign_cookie ps c)" for cs d
  proof (induction cs arbitrary: d)
    case (Cons c cs)
    from Cons.IH [of "if foreign_cookie ps c then d else dict_set (ck_name c) (ck_value c) d"] Cons.prems
    show ?case by (auto split: if_splits)
  qed simp
  from this [of "ps_storage_cookies ps" "[]"] assms show ?thesis
    by (simp add: session_cookies_def dict_get_def)
qed

lemma find_unique_line_SomeD:
  assumes "find_unique_line auth anon = Some l"
  shows "sublist l auth" and "6 \<le> length l" and "l \<notin> set (text_splitlines anon)"
proof -
  from assms obtain x where "x \<in> set (text_splitlines auth)" "l = text_strip x"
    "6 \<le> length l" "l \<notin> set (text_splitlines anon)"
    by (auto simp: find_unique_line_def Let_def dest!: find_SomeD)
  then show "sublist l auth" "6 \<le> length l" "l \<notin> set (text_splitlines anon)"
    using text_splitlines_sublist text_strip_sublist by (metis sublist_order.order.trans)+
qed

lemma run_cmd_log: "br_log (snd (run_cmd drv c b)) = c # br_log b"
  by (simp add: run_cmd_def Let_def split: prod.split)

lemma run_cmdE:
  assumes "run_cmd drv c b = (r, b')"
  shows "br_log b' = c # br_log b"
  using run_cmd_log [of drv c b] assms by simp

lemma run_steps_log:
  "run_steps drv creds ss b = (Inr x, b') \<Longrightarrow>
     \<exists>cmds. list_all2 (\<lambda>s c. step_cmd creds s = Inr c) ss cmds \<and> br_log b' = rev cmds @ br_log b"
proof (induction ss arbitrary: b)
  case (Cons s ss)
  obtain c where c: "step_cmd creds s = Inr c"
    using Cons.prems by (cases "step_cmd creds s") auto
  obtain y b1 where r: "run_cmd drv c b = (Inr y, b1)"
    using Cons.prems c by (cases "run_cmd drv c b"; cases "fst (run_cmd drv c b)") auto
  with Cons.prems c have "run_steps drv creds ss b1 = (Inr x, b')" by simp
  from Cons.IH [OF this] obtain cmds where
    "list_all2 (\<lambda>s c. step_cmd creds s = Inr c) ss cmds" "br_log b' = rev cmds @ br_log b1" by blast
  with c run_cmdE [OF r] show ?case by (intro exI [of _ "c # cmds"]) simp
qed simp

lemma replay_body_success:
  assumes "replay_body drv recipe creds b = (Inr res, b')" and "lrr_success res"
  shows "\<exists>cmds. list_all2 (\<lambda>s c. step_cmd creds s = Inr c) (lr_steps recipe) cmds \<and>
     br_log b' = [Context_Storage_State, assertion_cmd (lr_success_assertion recipe)] @ rev cmds @
       [Page_Goto (lr_start_url recipe) (lr_max_duration_s recipe * 1000)] @ br_log b"
proof -
  let ?goto = "Page_Goto (lr_start_url recipe) (lr_max_duration_s recipe * 1000)"
  let ?a = "assertion_cmd (lr_success_assertion recipe)"
  obtain r1 b1 where s1: "run_cmd drv ?goto b = (r1, b1)" by fastforce
  obtain r2 b2 where s2: "run_steps drv creds (lr_steps recipe) b1 = (r2, b2)" by fastforce
  obtain r3 b3 where s3: "run_cmd drv ?a b2 = (r3, b3)" by fastforce
  obtain r4 b4 where s4: "run_cmd drv Context_Storage_State b3 = (r4, b4)" by fastforce
  obtain x2 where "r2 = Inr x2" "b' = b4"
    using assms s1 s2 s3 s4
    by (auto simp: replay_body_def Let_def failed_login_def split: sum.splits replay_stop.splits)
  with run_steps_log [of drv creds "lr_steps recipe" b1 x2 b2] s2
    run_cmdE [OF s1] run_cmdE [OF s3] run_cmdE [OF s4] show ?thesis by auto
qed

lemma handle_stop_success: "handle_stop r = Inr res \<Longrightarrow> lrr_success res \<Longrightarrow> r = Inr res"
  by (auto simp: handle_stop_def failed_login_def split: sum.splits replay_stop.splits exn.splits)

section \<open>Properties\<close>

text \<open>
  C32. A session never carries a foreign cookie: with a target host, every cookie a persona sends
  comes from the recorded storage state and its domain is empty, the host itself, or a parent
  domain of the host at a label boundary; cookies of an identity provider visited during the
  login stay behind.
\<close>

theorem no_foreign_cookies:
  assumes "ps_target_host ps = Some host" and "host \<noteq> []"
    and "dict_get (sess_cookies (session_of ps)) n = Some v"
  shows "\<exists>c\<in>set (ps_storage_cookies ps). ck_name c = n \<and> ck_value c = v \<and>
     (let d = lstrip_by is_dot (ck_domain c) in d = [] \<or> host = d \<or> suffix (''.'' @ d) host)"
  using session_cookies_from [of ps n v] assms
  by (auto simp: session_of_def foreign_cookie_def domain_matches_def Let_def)

theorem no_foreign_cookies_witness:
  "\<exists>c\<in>set [\<lparr>ck_domain = ''.shop.io'', ck_name = ''sid'', ck_value = ''1''\<rparr>,
           \<lparr>ck_domain = ''idp.com'', ck_name = ''idp'', ck_value = ''2''\<rparr>].
     ck_name c = ''sid'' \<and> ck_value c = ''1'' \<and>
     (let d = lstrip_by is_dot (ck_domain c) in d = [] \<or> ''www.shop.io'' = d \<or> suffix (''.'' @ d) ''www.shop.io'')"
proof -
  let ?ps = "\<lparr>ps_persona_id = ''p'', ps_storage_cookies =
      [\<lparr>ck_domain = ''.shop.io'', ck_name = ''sid'', ck_value = ''1''\<rparr>,
       \<lparr>ck_domain = ''idp.com'', ck_name = ''idp'', ck_value = ''2''\<rparr>], ps_target_host = Some ''www.shop.io''\<rparr>"
  have "dict_get (sess_cookies (session_of ?ps)) ''sid'' = Some ''1''"
    by (simp add: session_of_def session_cookies_def foreign_cookie_def domain_matches_def Let_def
        lstrip_by_def suffix_to_prefix dict_get_def)
  from no_foreign_cookies [OF _ _ this, of "''www.shop.io''"] show ?thesis by simp
qed

text \<open>
  An established oracle recognises the session it was made from, and one that rests on the
  status code also tells it from the anonymous response.
\<close>

lemma established_oracle_accepts_its_session:
  assumes "or_oracle (compare_responses m u auth anon) = Some orc"
  shows "matches orc auth \<and> (signal orc = SIG_STATUS_CODE \<longrightarrow> \<not> matches orc anon)"
proof (cases "er_status_code auth = er_status_code anon")
  case False
  with assms have "orc = \<lparr>probe_method = m, probe_url = u, signal = SIG_STATUS_CODE, authenticated_value = status_text auth\<rparr>"
    by (simp add: compare_responses_def)
  with False show ?thesis by (simp add: matches_def status_text_def)
next
  case True
  with assms obtain l where "find_unique_line (er_text auth) (er_text anon) = Some l"
    "orc = \<lparr>probe_method = m, probe_url = u, signal = SIG_BODY_CONTAINS, authenticated_value = l\<rparr>"
    by (auto simp: compare_responses_def split: option.splits if_splits)
  with find_unique_line_SomeD(1) show ?thesis by (simp add: matches_def)
qed

definition plain_response :: "nat \<Rightarrow> string \<Rightarrow> engine_response" where
  "plain_response n body = \<lparr>er_status_code = n, er_headers = [], er_body = code_points body,
     er_elapsed_ms = 0, er_transcript_id = [], er_url = []\<rparr>"

text \<open>
  The body oracle can fail to tell the two apart: \<^verbatim>\<open>_find_unique_line\<close> compares stripped lines
  of one body with unstripped lines of the other, so an indented line that both bodies have is
  taken for unique, and the oracle that is established accepts the anonymous response as
  authenticated.
\<close>

lemma body_oracle_may_accept_anonymous:
  "\<exists>auth anon orc. or_oracle (compare_responses ''GET'' ''https://shop.io/me'' auth anon) = Some orc \<and>
     matches orc auth \<and> matches orc anon"
proof -
  let ?anon = "plain_response 200 ''  Welcome!''" and ?auth = "plain_response 200 (''  Welcome!'' @ [CHR 0x0A] @ ''Ann'')"
  let ?l = "code_points ''Welcome!''"
  have ascii: "list_all (\<lambda>c. of_char c < (128 :: nat)) s \<Longrightarrow> er_text (plain_response n s) = code_points s" for n s
  proof (induction s)
    case Nil
    then show ?case by (simp add: er_text_def plain_response_def code_points_def utf8_decode_replace.simps)
  next
    case (Cons c s)
    then show ?case
      by (simp add: er_text_def plain_response_def code_points_def utf8_decode_replace.simps [of "_ # _"]
          utf8_step.simps(2))
  qed
  have t: "er_text ?anon = code_points ''  Welcome!''"
    "er_text ?auth = code_points (''  Welcome!'' @ [CHR 0x0A] @ ''Ann'')"
    by (rule ascii, simp)+
  have "find_unique_line (er_text ?auth) (er_text ?anon) = Some ?l"
    unfolding t by (simp add: find_unique_line_def code_points_def text_splitlines_def linebreak_code_def text_strip_def
        lstrip_by_def rstrip_by_def space_code_def)
  moreover have "er_text ?auth \<noteq> er_text ?anon" unfolding t by (simp add: code_points_def)
  moreover have "er_status_code ?auth = er_status_code ?anon" by (simp add: plain_response_def)
  ultimately have orc: "or_oracle (compare_responses ''GET'' ''https://shop.io/me'' ?auth ?anon) =
      Some \<lparr>probe_method = ''GET'', probe_url = ''https://shop.io/me'', signal = SIG_BODY_CONTAINS, authenticated_value = ?l\<rparr>"
    by (simp add: compare_responses_def)
  have "sublist ?l (er_text ?anon)" "sublist ?l (er_text ?auth)"
    unfolding t by (simp_all add: code_points_def sublist_Cons_right)
  with orc show ?thesis
    by (intro exI [of _ ?auth] exI [of _ ?anon] exI conjI) (assumption, simp_all add: matches_def)
qed


definition demo_recipe :: login_recipe where
  "demo_recipe = \<lparr>lr_start_url = ''https://shop.io/login'', lr_steps =
     [\<lparr>ls_action = FILL_SECRET, ls_selector = Some ''#pw'', ls_value = None, ls_credential_ref = Some ''pw'', ls_timeout_s = 10\<rparr>],
     lr_success_assertion = \<lparr>sa_kind = SELECTOR_VISIBLE, sa_value = ''#me'', sa_timeout_s = 10\<rparr>, lr_max_duration_s = 30\<rparr>"


end
