(* ===== verification/Recipe_Store.thy ===== *)
theory Recipe_Store
  imports Auth
begin

text \<open>
  A login recipe between its two representations: the document that \<^verbatim>\<open>model_dump\<close> makes of a validated payload
  (\<^verbatim>\<open>apps/api/sentinel_api_app/schemas/persona.py\<close>) and that the database keeps, and what \<^verbatim>\<open>build_login_recipe\<close>
  (\<^verbatim>\<open>apps/worker/sentinel_worker_app/auth_adapter.py\<close>) makes of it when the login is replayed. How a number is printed
  and read is a parameter. A text that is none of the literals the schema accepts, or a value of another type, is an error here
  at once; the code would keep it until it is used, and no accepted payload has one. The texts of a recipe are strings of
  characters below 256, as everywhere in the model.
\<close>

section \<open>The names of the literals\<close>

fun action_value :: "step_action \<Rightarrow> string" where
  "action_value GOTO = ''goto''"
| "action_value FILL = ''fill''"
| "action_value FILL_SECRET = ''fill_secret''"
| "action_value CLICK = ''click''"
| "action_value WAIT_FOR_SELECTOR = ''wait_for_selector''"
| "action_value WAIT_FOR_URL = ''wait_for_url''"

definition ACTIONS :: "step_action list" where
  "ACTIONS = [GOTO, FILL, FILL_SECRET, CLICK, WAIT_FOR_SELECTOR, WAIT_FOR_URL]"

definition ASSERTION_KINDS :: "assertion_kind list" where
  "ASSERTION_KINDS = [URL_CONTAINS, SELECTOR_VISIBLE, SELECTOR_HIDDEN]"

section \<open>Dumping\<close>

definition json_text :: "string \<Rightarrow> json" where
  "json_text s = JStr (code_points s)"

definition json_opt :: "string option \<Rightarrow> json" where
  "json_opt x = (case x of None \<Rightarrow> JNull | Some s \<Rightarrow> json_text s)"

definition json_object :: "(string \<times> json) list \<Rightarrow> json" where
  "json_object kvs = JObj (map (\<lambda>(k, v). (code_points k, v)) kvs)"

definition step_dump :: "(rat \<Rightarrow> string) \<Rightarrow> login_step \<Rightarrow> json" where
  "step_dump pr s = json_object
     [(''action'', json_text (action_value (ls_action s))), (''selector'', json_opt (ls_selector s)),
      (''value'', json_opt (ls_value s)), (''credential_ref'', json_opt (ls_credential_ref s)),
      (''timeout_s'', JNum (pr (ls_timeout_s s)))]"

definition assertion_dump :: "(rat \<Rightarrow> string) \<Rightarrow> success_assertion \<Rightarrow> json" where
  "assertion_dump pr a = json_object
     [(''kind'', json_text (assertion_kind_value (sa_kind a))), (''value'', json_text (sa_value a)),
      (''timeout_s'', JNum (pr (sa_timeout_s a)))]"

definition recipe_dump :: "(rat \<Rightarrow> string) \<Rightarrow> login_recipe \<Rightarrow> json" where
  "recipe_dump pr r = json_object
     [(''start_url'', json_text (lr_start_url r)), (''steps'', JArr (map (step_dump pr) (lr_steps r))),
      (''success_assertion'', assertion_dump pr (lr_success_assertion r)), (''strategy'', json_text ''form''),
      (''max_duration_s'', JNum (pr (lr_max_duration_s r)))]"

section \<open>Building\<close>

text \<open>\<^verbatim>\<open>raw[k]\<close> and \<^verbatim>\<open>raw.get(k)\<close>.\<close>

fun json_field :: "json \<Rightarrow> string \<Rightarrow> json option res" where
  "json_field (JObj kvs) k = Inr (dict_get kvs (code_points k))"
| "json_field _ k = Inl (Type_Error ''indices must be integers or slices, not str'')"

definition json_item :: "json \<Rightarrow> string \<Rightarrow> json res" where
  "json_item j k = bind_res (json_field j k) (\<lambda>v. case v of None \<Rightarrow> Inl (Key_Error k) | Some v \<Rightarrow> Inr v)"

fun read_text :: "json \<Rightarrow> string res" where
  "read_text (JStr t) = Inr (map char_of t)"
| "read_text _ = Inl (Type_Error ''expected str'')"

definition read_opt :: "json option \<Rightarrow> string option res" where
  "read_opt x = (case x of None \<Rightarrow> Inr None | Some JNull \<Rightarrow> Inr None | Some j \<Rightarrow> bind_res (read_text j) (\<lambda>s. Inr (Some s)))"

fun read_number :: "(string \<Rightarrow> rat) \<Rightarrow> rat \<Rightarrow> json option \<Rightarrow> rat res" where
  "read_number rd d None = Inr d"
| "read_number rd d (Some (JNum s)) = Inr (rd s)"
| "read_number rd d _ = Inl (Type_Error ''expected float'')"

definition read_literal :: "('a \<Rightarrow> string) \<Rightarrow> 'a list \<Rightarrow> json \<Rightarrow> 'a res" where
  "read_literal nm xs j = bind_res (read_text j) (\<lambda>s.
     case find (\<lambda>x. nm x = s) xs of None \<Rightarrow> Inl (Value_Error (''Unknown login step action: '' @ s)) | Some x \<Rightarrow> Inr x)"

definition build_step :: "(string \<Rightarrow> rat) \<Rightarrow> json \<Rightarrow> login_step res" where
  "build_step rd j =
     bind_res (bind_res (json_item j ''action'') (read_literal action_value ACTIONS)) (\<lambda>a.
     bind_res (bind_res (json_field j ''selector'') read_opt) (\<lambda>sel.
     bind_res (bind_res (json_field j ''value'') read_opt) (\<lambda>v.
     bind_res (bind_res (json_field j ''credential_ref'') read_opt) (\<lambda>cr.
     bind_res (bind_res (json_field j ''timeout_s'') (read_number rd 10)) (\<lambda>t.
       Inr \<lparr>ls_action = a, ls_selector = sel, ls_value = v, ls_credential_ref = cr, ls_timeout_s = t\<rparr>)))))"

definition build_assertion :: "(string \<Rightarrow> rat) \<Rightarrow> json \<Rightarrow> success_assertion res" where
  "build_assertion rd j =
     bind_res (bind_res (json_item j ''kind'') (read_literal assertion_kind_value ASSERTION_KINDS)) (\<lambda>k.
     bind_res (bind_res (json_item j ''value'') read_text) (\<lambda>v.
     bind_res (bind_res (json_field j ''timeout_s'') (read_number rd 10)) (\<lambda>t.
       Inr \<lparr>sa_kind = k, sa_value = v, sa_timeout_s = t\<rparr>)))"

fun json_items :: "json \<Rightarrow> json list res" where
  "json_items (JArr js) = Inr js"
| "json_items _ = Inl (Type_Error ''not iterable as steps'')"

text \<open>The strategy is kept by the code and read by nothing.\<close>

definition build_login_recipe :: "(string \<Rightarrow> rat) \<Rightarrow> json \<Rightarrow> login_recipe res" where
  "build_login_recipe rd raw =
     bind_res (bind_res (json_item raw ''steps'') json_items) (\<lambda>js.
     bind_res (map_res (build_step rd) js) (\<lambda>steps.
     bind_res (bind_res (json_item raw ''success_assertion'') (build_assertion rd)) (\<lambda>a.
     bind_res (bind_res (json_item raw ''start_url'') read_text) (\<lambda>u.
     bind_res (bind_res (json_field raw ''max_duration_s'') (read_number rd 30)) (\<lambda>m.
       Inr \<lparr>lr_start_url = u, lr_steps = steps, lr_success_assertion = a, lr_max_duration_s = m\<rparr>)))))"

section \<open>A recipe survives the database\<close>

definition recipe_numbers :: "login_recipe \<Rightarrow> rat list" where
  "recipe_numbers r = map ls_timeout_s (lr_steps r) @ [sa_timeout_s (lr_success_assertion r), lr_max_duration_s r]"

lemma read_text_of [simp]: "read_text (json_text s) = Inr s"
  by (induction s) (simp_all add: json_text_def code_points_def)

lemma read_opt_of [simp]: "read_opt (Some (json_opt x)) = Inr x"
proof (cases x)
  case (Some s)
  have "read_opt (Some (json_text s)) = bind_res (read_text (json_text s)) (\<lambda>s. Inr (Some s))"
    unfolding read_opt_def json_text_def by simp
  with Some show ?thesis by (simp add: json_opt_def)
qed (simp add: json_opt_def read_opt_def)

lemma read_action_of [simp]: "read_literal action_value ACTIONS (json_text (action_value a)) = Inr a"
  by (cases a) (simp_all add: read_literal_def ACTIONS_def)

lemma read_kind_of [simp]: "read_literal assertion_kind_value ASSERTION_KINDS (json_text (assertion_kind_value k)) = Inr k"
  by (cases k) (simp_all add: read_literal_def ASSERTION_KINDS_def)

lemma json_field_object [simp]: "json_field (json_object kvs) k = Inr (dict_get kvs k)"
  by (induction kvs) (auto simp: json_object_def dict_get_def)

lemma build_step_dump: "rd (pr (ls_timeout_s s)) = ls_timeout_s s \<Longrightarrow> build_step rd (step_dump pr s) = Inr s"
  by (simp add: build_step_def step_dump_def json_item_def dict_get_def)

lemma build_assertion_dump:
  "rd (pr (sa_timeout_s a)) = sa_timeout_s a \<Longrightarrow> build_assertion rd (assertion_dump pr a) = Inr a"
  by (simp add: build_assertion_def assertion_dump_def json_item_def dict_get_def)

lemma build_steps_dump:
  "\<forall>s\<in>set ss. rd (pr (ls_timeout_s s)) = ls_timeout_s s \<Longrightarrow> map_res (build_step rd) (map (step_dump pr) ss) = Inr ss"
  by (induction ss) (simp_all add: build_step_dump)

lemma build_dump:
  assumes "\<forall>q\<in>set (recipe_numbers r). rd (pr q) = q"
  shows "build_login_recipe rd (recipe_dump pr r) = Inr r"
proof -
  from assms have "\<forall>s\<in>set (lr_steps r). rd (pr (ls_timeout_s s)) = ls_timeout_s s"
    "rd (pr (sa_timeout_s (lr_success_assertion r))) = sa_timeout_s (lr_success_assertion r)"
    "rd (pr (lr_max_duration_s r)) = lr_max_duration_s r"
    by (auto simp: recipe_numbers_def)
  then show ?thesis
    by (simp add: build_login_recipe_def recipe_dump_def json_item_def dict_get_def build_steps_dump build_assertion_dump)
qed

text \<open>The keys of the assertion and of the recipe that have no default are required.\<close>

lemma build_missing_steps:
  "dict_get kvs ''steps'' = None \<Longrightarrow> build_login_recipe rd (json_object kvs) = Inl (Key_Error ''steps'')"
  by (simp add: build_login_recipe_def json_item_def)

end
