(* ===== verification/Db_Models.thy ===== *)
theory Db_Models
  imports State_Machine Scope_Guard Recipe_Store
begin

text \<open>
  The rows of the database: \<^verbatim>\<open>packages/db/src/sentinel_db/models/\<close> and \<^verbatim>\<open>enums.py\<close>. A table is the
  list of its rows; a UUID is a natural number, and \<open>db_next\<close> is the next one that
  \<^verbatim>\<open>uuid4\<close> gives. Times are rationals. The columns that no modelled operation reads or writes are
  left out. The hook that guards confirmed findings (\<^verbatim>\<open>finding.py\<close>) is modelled with the part of
  the ORM session it looks at.
\<close>

section \<open>Enumerations\<close>

datatype ownership_method = DNS_TXT | WELL_KNOWN_FILE | META_TAG

datatype login_strategy =
  LS_FORM | LS_OAUTH_REDIRECT | LS_SAML | LS_API_TOKEN | LS_HAR_REPLAY | LS_MANUAL_SESSION

datatype credential_kind = CK_PASSWORD | CK_TOTP_SECRET | CK_API_TOKEN | CK_SESSION_IMPORT

datatype finding_severity = SEV_CRITICAL | SEV_HIGH | SEV_MEDIUM | SEV_LOW | SEV_INFO

datatype finding_confidence = CONFIRMED | PROBABLE | INFORMATIONAL

datatype finding_status = FS_OPEN | FS_FIXED | FS_REGRESSED | FS_ACCEPTED_RISK | FS_FALSE_POSITIVE

section \<open>Rows\<close>

type_synonym uid = nat

record organization =
  org_id :: uid
  org_name :: string
  org_slug :: string
  org_wrapped_data_key :: bytes
  org_plan :: string

record target =
  tg_id :: uid
  tg_organization_id :: uid
  tg_root_domain :: string
  tg_display_name :: string
  tg_is_production :: bool
  tg_ownership_verified :: bool
  tg_verification_method :: "ownership_method option"
  tg_verification_token :: "string option"
  tg_verified_at :: "rat option"
  tg_authorization_accepted :: bool
  tg_authorization_accepted_at :: "rat option"

definition is_scannable :: "target \<Rightarrow> bool" where
  "is_scannable t \<longleftrightarrow> tg_ownership_verified t \<and> tg_authorization_accepted t"

record scope_rule_row =
  sr_id :: uid
  sr_target_id :: uid
  sr_rule :: scope_rule

record credential_row =
  cred_id :: uid
  cred_kind :: credential_kind
  cred_ciphertext :: bytes

record persona_row =
  pe_id :: uid
  pe_target_id :: uid
  pe_label :: string
  pe_role_name :: string
  pe_trust_rank :: nat
  pe_tenant_key :: "string option"
  pe_credential_id :: "uid option"
  pe_login_strategy :: "login_strategy option"
  pe_login_recipe :: "json option"
  pe_session_state_ciphertext :: "bytes option"
  pe_session_state_updated_at :: "rat option"
  pe_session_oracle :: "session_oracle option"
  pe_expected_denied :: "string list"
  pe_is_available :: bool
  pe_unavailable_reason :: "string option"

record scan_row =
  sc_id :: uid
  sc_target_id :: uid
  sc_triggered_by :: string
  sc_state :: scan_state
  sc_paused_from :: "scan_state option"
  sc_fail_reason :: "string option"
  sc_is_degraded :: bool
  sc_degraded_reasons :: "ptext list"
  sc_started_at :: "rat option"
  sc_finished_at :: "rat option"
  sc_llm_token_budget :: nat
  sc_llm_tokens_used :: nat

record phase_row =
  ph_id :: uid
  ph_scan_id :: uid
  ph_name :: scan_phase_name
  ph_status :: phase_status
  ph_started_at :: "rat option"
  ph_finished_at :: "rat option"
  ph_error :: "string option"
  ph_stats :: json

record asset_row =
  as_id :: uid
  as_scan_id :: uid
  as_host :: ptext
  as_ip_addresses :: "string list"
  as_http_probes :: json
  as_discovery_source :: string

record endpoint_row =
  ep_asset_id :: uid
  ep_method :: string
  ep_path_template :: string
  ep_discovered_by :: "string list"
  ep_discovery_source :: string

record verification =
  ver_reproduced_count :: int
  ver_attempted_count :: int
  ver_passed :: bool

definition MIN_REPRODUCTIONS_FOR_CONFIRMED :: int where
  "MIN_REPRODUCTIONS_FOR_CONFIRMED = 2"

definition satisfies_confirmed :: "verification \<Rightarrow> bool" where
  "satisfies_confirmed v \<longleftrightarrow> ver_passed v \<and> MIN_REPRODUCTIONS_FOR_CONFIRMED \<le> ver_reproduced_count v"

record evidence =
  ev_transcript_id :: string
  ev_role :: string
  ev_note :: string

text \<open>A finding, with the rows of its evidence.\<close>

record finding_row =
  fi_id :: uid
  fi_scan_id :: uid
  fi_fingerprint :: string
  fi_rule_id :: string
  fi_title :: string
  fi_cwe :: "int list"
  fi_owasp_top10 :: "string option"
  fi_cvss_vector :: "string option"
  fi_severity :: finding_severity
  fi_confidence :: finding_confidence
  fi_status :: finding_status
  fi_reproduction :: json
  fi_narrative :: string
  fi_remediation :: json
  fi_evidence :: "evidence list"

text \<open>\<^verbatim>\<open>Finding.compute_fingerprint\<close>; SHA-256 is the parameter \<open>sha\<close>.\<close>

definition fingerprint_raw :: "string \<Rightarrow> string \<Rightarrow> string \<Rightarrow> string \<Rightarrow> string" where
  "fingerprint_raw rule_id endpoint_template param persona_pair =
     rule_id @ ''|'' @ endpoint_template @ ''|'' @ param @ ''|'' @ persona_pair"

definition compute_fingerprint :: "(bytes \<Rightarrow> string) \<Rightarrow> string \<Rightarrow> string \<Rightarrow> string \<Rightarrow> string \<Rightarrow> string" where
  "compute_fingerprint sha rule_id endpoint_template param persona_pair =
     sha (utf8_encode (code_points (fingerprint_raw rule_id endpoint_template param persona_pair)))"

section \<open>The database\<close>

record database =
  db_orgs :: "organization list"
  db_targets :: "target list"
  db_scope_rules :: "scope_rule_row list"
  db_credentials :: "credential_row list"
  db_personas :: "persona_row list"
  db_scans :: "scan_row list"
  db_phases :: "phase_row list"
  db_assets :: "asset_row list"
  db_endpoints :: "endpoint_row list"
  db_findings :: "finding_row list"
  db_verifications :: "uid \<Rightarrow> verification option"
  db_next :: uid

definition empty_database :: database where
  "empty_database = \<lparr>db_orgs = [], db_targets = [], db_scope_rules = [], db_credentials = [], db_personas = [],
     db_scans = [], db_phases = [], db_assets = [], db_endpoints = [], db_findings = [],
     db_verifications = (\<lambda>_. None), db_next = 0\<rparr>"

definition get_org :: "uid \<Rightarrow> database \<Rightarrow> organization option" where
  "get_org i db = find (\<lambda>o1. org_id o1 = i) (db_orgs db)"

definition get_target :: "uid \<Rightarrow> database \<Rightarrow> target option" where
  "get_target i db = find (\<lambda>t. tg_id t = i) (db_targets db)"

definition get_scan_row :: "uid \<Rightarrow> database \<Rightarrow> scan_row option" where
  "get_scan_row i db = find (\<lambda>s. sc_id s = i) (db_scans db)"

text \<open>\<^verbatim>\<open>Scan.phases\<close>.\<close>

definition phases_of :: "uid \<Rightarrow> database \<Rightarrow> phase_row list" where
  "phases_of i db = filter (\<lambda>p. ph_scan_id p = i) (db_phases db)"

definition update_target :: "uid \<Rightarrow> (target \<Rightarrow> target) \<Rightarrow> database \<Rightarrow> database" where
  "update_target i f db = db\<lparr>db_targets := map (\<lambda>t. if tg_id t = i then f t else t) (db_targets db)\<rparr>"

section \<open>Confirmed findings\<close>

text \<open>
  The pending changes of a session: findings it adds, findings it changed, and verifications it
  adds, changes or deletes (\<open>None\<close>). The hook sees the verification of a finding with the pending
  change applied.
\<close>

record orm_session =
  s_new :: "finding_row list"
  s_dirty :: "finding_row list"
  s_verifications :: "(uid \<times> verification option) list"

definition pending_verification :: "orm_session \<Rightarrow> database \<Rightarrow> uid \<Rightarrow> verification option" where
  "pending_verification s db i =
     (case map_of (s_verifications s) i of None \<Rightarrow> db_verifications db i | Some v \<Rightarrow> v)"

definition confirmed_ok :: "verification option \<Rightarrow> bool" where
  "confirmed_ok v = (case v of None \<Rightarrow> False | Some v \<Rightarrow> satisfies_confirmed v)"

text \<open>The dash of the message, which is not a Latin-1 character, is written as a hyphen.\<close>

definition cannot_confirm_text :: "finding_row \<Rightarrow> string" where
  "cannot_confirm_text f = ''Finding '' @ show_nat (fi_id f) @ '' (rule='' @ py_repr (fi_rule_id f) @
     '') cannot be persisted with confidence=CONFIRMED without a linked Verification where passed=True and '' @
     ''reproduced_count >= '' @ show_int MIN_REPRODUCTIONS_FOR_CONFIRMED @
     ''. See docs/adr/0001-engine-split-ai-vs-deterministic.md - the LLM never has the last word.''"

definition enforce_confirmed_requires_verification :: "orm_session \<Rightarrow> database \<Rightarrow> exn option" where
  "enforce_confirmed_requires_verification s db =
     map_option (\<lambda>f. Value_Error (cannot_confirm_text f))
       (find (\<lambda>f. fi_confidence f = CONFIRMED \<and> \<not> confirmed_ok (pending_verification s db (fi_id f)))
         (s_new s @ s_dirty s))"

text \<open>\<^verbatim>\<open>session.flush()\<close>: the hook, then the writes.\<close>

definition write_dirty :: "finding_row list \<Rightarrow> finding_row \<Rightarrow> finding_row" where
  "write_dirty dirty f = (case find (\<lambda>d. fi_id d = fi_id f) dirty of None \<Rightarrow> f | Some d \<Rightarrow> d)"

definition flush :: "orm_session \<Rightarrow> database \<Rightarrow> database res" where
  "flush s db =
     (case enforce_confirmed_requires_verification s db of
        Some x \<Rightarrow> Inl x
      | None \<Rightarrow>
          Inr (db\<lparr>db_findings := map (write_dirty (s_dirty s)) (db_findings db) @ s_new s,
                  db_verifications := pending_verification s db\<rparr>))"

definition confirmed_verified :: "database \<Rightarrow> bool" where
  "confirmed_verified db \<longleftrightarrow>
     (\<forall>f\<in>set (db_findings db). fi_confidence f = CONFIRMED \<longrightarrow> confirmed_ok (db_verifications db (fi_id f)))"

lemma enforce_None:
  "enforce_confirmed_requires_verification s db = None \<longleftrightarrow>
     (\<forall>f\<in>set (s_new s) \<union> set (s_dirty s). fi_confidence f = CONFIRMED \<longrightarrow>
        confirmed_ok (pending_verification s db (fi_id f)))"
  by (auto simp: enforce_confirmed_requires_verification_def find_None_iff)

lemma flush_InrD:
  assumes "flush s db = Inr db'"
  shows "enforce_confirmed_requires_verification s db = None"
    and "db_verifications db' = pending_verification s db"
    and "db_findings db' = map (write_dirty (s_dirty s)) (db_findings db) @ s_new s"
  using assms by (auto simp: flush_def split: option.splits)

section \<open>Properties\<close>

text \<open>A finding and its verifications for the examples.\<close>

definition demo_finding :: "finding_confidence \<Rightarrow> finding_row" where
  "demo_finding c = \<lparr>fi_id = 1, fi_scan_id = 0, fi_fingerprint = ''f'', fi_rule_id = ''authz'',
     fi_title = ''IDOR'', fi_cwe = [639], fi_owasp_top10 = None, fi_cvss_vector = None,
     fi_severity = SEV_HIGH, fi_confidence = c, fi_status = FS_OPEN, fi_reproduction = JObj [], fi_narrative = [],
     fi_remediation = JObj [], fi_evidence = []\<rparr>"

definition demo_verification :: "int \<Rightarrow> verification" where
  "demo_verification n = \<lparr>ver_reproduced_count = n, ver_attempted_count = 3, ver_passed = True\<rparr>"



text \<open>
  The hook looks at findings only: a session that changes nothing but the verification of a
  confirmed finding, here to one that reproduced once, flushes, and the finding stays confirmed
  without a verification that supports it.
\<close>

lemma verification_change_escapes_hook:
  "\<exists>db s db'. confirmed_verified db \<and> flush s db = Inr db' \<and> \<not> confirmed_verified db'"
proof -
  let ?db = "empty_database\<lparr>db_findings := [demo_finding CONFIRMED], db_verifications := (\<lambda>_. Some (demo_verification 2))\<rparr>"
  let ?s = "\<lparr>s_new = [], s_dirty = [], s_verifications = [(1, Some (demo_verification 1))]\<rparr>"
  let ?db' = "?db\<lparr>db_verifications := pending_verification ?s ?db\<rparr>"
  have "confirmed_verified ?db"
    by (simp add: confirmed_verified_def confirmed_ok_def satisfies_confirmed_def
        MIN_REPRODUCTIONS_FOR_CONFIRMED_def demo_verification_def)
  moreover have "flush ?s ?db = Inr ?db'"
    by (simp add: flush_def enforce_confirmed_requires_verification_def write_dirty_def)
  moreover have "\<not> confirmed_verified ?db'"
    by (simp add: confirmed_verified_def pending_verification_def confirmed_ok_def satisfies_confirmed_def
        MIN_REPRODUCTIONS_FOR_CONFIRMED_def demo_verification_def demo_finding_def)
  ultimately show ?thesis by blast
qed

lemma bar_split:
  "CHR ''|'' \<notin> set a \<Longrightarrow> CHR ''|'' \<notin> set b \<Longrightarrow> a @ ''|'' @ x = b @ ''|'' @ y \<Longrightarrow> a = b \<and> x = y"
proof (induction a arbitrary: b)
  case Nil
  then show ?case by (cases b) auto
next
  case (Cons c a)
  then show ?case by (cases b) auto
qed

text \<open>
  A fingerprint identifies its four parts if the hash has no collision among the texts in play and
  the first three parts have no vertical bar; with a bar in a part, two different findings can have
  the same fingerprint whatever the hash is.
\<close>

lemma fingerprint_identifies_finding:
  assumes "inj_on sha U" and "utf8_encode (code_points (fingerprint_raw r e p q)) \<in> U"
    and "utf8_encode (code_points (fingerprint_raw r' e' p' q')) \<in> U"
    and "CHR ''|'' \<notin> set (r @ e @ p)" and "CHR ''|'' \<notin> set (r' @ e' @ p')"
    and "compute_fingerprint sha r e p q = compute_fingerprint sha r' e' p' q'"
  shows "(r, e, p, q) = (r', e', p', q')"
proof -
  have "utf8_encode (code_points (fingerprint_raw r e p q)) = utf8_encode (code_points (fingerprint_raw r' e' p' q'))"
    using assms(6) unfolding compute_fingerprint_def by (rule inj_onD [OF assms(1) _ assms(2,3)])
  then have eq: "r @ ''|'' @ e @ ''|'' @ p @ ''|'' @ q = r' @ ''|'' @ e' @ ''|'' @ p' @ ''|'' @ q'"
    unfolding encode_string_inj fingerprint_raw_def .
  have no: "CHR ''|'' \<notin> set r" "CHR ''|'' \<notin> set e" "CHR ''|'' \<notin> set p"
    "CHR ''|'' \<notin> set r'" "CHR ''|'' \<notin> set e'" "CHR ''|'' \<notin> set p'"
    using assms(4,5) by simp_all
  from bar_split [OF no(1,4) eq] have "r = r'" and eq2: "e @ ''|'' @ p @ ''|'' @ q = e' @ ''|'' @ p' @ ''|'' @ q'" by blast+
  from bar_split [OF no(2,5) eq2] have "e = e'" and eq3: "p @ ''|'' @ q = p' @ ''|'' @ q'" by blast+
  from bar_split [OF no(3,6) eq3] \<open>r = r'\<close> \<open>e = e'\<close> show ?thesis by simp
qed

end
