(* ===== verification/Ownership.thy ===== *)
theory Ownership
  imports Db_Models Regex
begin

text \<open>
  Ownership verification: \<^verbatim>\<open>apps/api/sentinel_api_app/services/ownership.py\<close>. DNS and the HTTP client
  are parameters: a TXT lookup gives the records, each a list of byte strings; fetching a URL gives
  the status and the text of the final response. Either can fail with an exception that the code
  catches (\<^verbatim>\<open>DNSException\<close>, \<^verbatim>\<open>httpx.HTTPError\<close>), of which the text matters, or raise another one
  that passes through.
\<close>

record net_lib =
  dns_txt :: "string \<Rightarrow> bytes list list net_reply"
  http_fetch :: "string \<Rightarrow> (nat \<times> ptext) net_reply"

record verification_result =
  vr_verified :: bool
  vr_detail :: string

definition TOKEN_PREFIX :: string where
  "TOKEN_PREFIX = ''sentinel-verify''"

text \<open>\<^verbatim>\<open>secrets.token_hex(16)\<close> is the argument.\<close>

definition generate_verification_token :: "string \<Rightarrow> string" where
  "generate_verification_token hex = TOKEN_PREFIX @ ''='' @ hex"

section \<open>The three methods\<close>

definition txt_value :: "bytes list \<Rightarrow> ptext" where
  "txt_value strings = text_strip (utf8_decode_replace (concat strings))"

definition verify_dns_txt :: "net_lib \<Rightarrow> string \<Rightarrow> string \<Rightarrow> verification_result res" where
  "verify_dns_txt net domain token =
     (let record_name = ''_sentinel-verify.'' @ domain
      in case dns_txt net record_name of
           Raises x \<Rightarrow> Inl x
         | Failure err \<Rightarrow> Inr \<lparr>vr_verified = False, vr_detail = ''DNS TXT lookup for '' @ record_name @ '' failed: '' @ err\<rparr>
         | Reply answer \<Rightarrow>
             if list_ex (\<lambda>r. txt_value r = code_points token) answer
             then Inr \<lparr>vr_verified = True, vr_detail = ''Matched TXT record at '' @ record_name @ ''.''\<rparr>
             else Inr \<lparr>vr_verified = False, vr_detail = ''No TXT record at '' @ record_name @ '' matched the expected token.''\<rparr>)"

definition well_known_url :: "string \<Rightarrow> string" where
  "well_known_url domain = ''https://'' @ domain @ ''/.well-known/sentinel-verify.txt''"

definition verify_well_known_file :: "net_lib \<Rightarrow> string \<Rightarrow> string \<Rightarrow> verification_result res" where
  "verify_well_known_file net domain token =
     (let url = well_known_url domain
      in case http_fetch net url of
           Raises x \<Rightarrow> Inl x
         | Failure err \<Rightarrow> Inr \<lparr>vr_verified = False, vr_detail = ''Fetching '' @ url @ '' failed: '' @ err\<rparr>
         | Reply (code, body) \<Rightarrow>
             if code \<noteq> 200 then Inr \<lparr>vr_verified = False, vr_detail = url @ '' returned HTTP '' @ show_nat code @ ''.''\<rparr>
             else if text_strip body = code_points token
             then Inr \<lparr>vr_verified = True, vr_detail = ''Matched file content at '' @ url @ ''.''\<rparr>
             else Inr \<lparr>vr_verified = False, vr_detail = ''Content at '' @ url @ '' did not match the expected token.''\<rparr>)"

text \<open>
  The pattern of the meta tag. With \<^verbatim>\<open>re.IGNORECASE\<close> a letter also matches the few code points beyond
  ASCII that Python folds to it.
\<close>

definition ascii_lower :: "nat \<Rightarrow> nat" where
  "ascii_lower n = (if 65 \<le> n \<and> n \<le> 90 then n + 32 else n)"

definition same_letter :: "nat \<Rightarrow> nat \<Rightarrow> bool" where
  "same_letter x c \<longleftrightarrow>
     ascii_lower c = ascii_lower x \<or> ascii_lower x = 0x69 \<and> c \<in> {0x130, 0x131} \<or>
     ascii_lower x = 0x73 \<and> c = 0x17F \<or> ascii_lower x = 0x6B \<and> c = 0x212A"

definition rlit_ci :: "string \<Rightarrow> nat rx" where
  "rlit_ci w = rseq (map (\<lambda>x. RCls (same_letter x)) (code_points w))"

definition quote_code :: "nat \<Rightarrow> bool" where
  "quote_code c \<longleftrightarrow> c = 0x22 \<or> c = 0x27"

definition META_PRE :: "nat rx" where
  "META_PRE =
     rseq [rlit_ci ''<meta'', RRun space_code 1 None, RRun (\<lambda>c. c \<noteq> 0x3E) 0 None, rlit_ci ''name='',
           RCls quote_code, rlit_ci ''sentinel-verify'', RCls quote_code, RRun (\<lambda>c. c \<noteq> 0x3E) 0 None,
           rlit_ci ''content='', RCls quote_code]"

definition meta_content :: "ptext \<Rightarrow> ptext option" where
  "meta_content t = group_search META_PRE (RRun (\<lambda>c. \<not> quote_code c) 1 None) (RCls quote_code) t"

definition root_page_url :: "string \<Rightarrow> string" where
  "root_page_url domain = ''https://'' @ domain @ ''/''"

definition verify_meta_tag :: "net_lib \<Rightarrow> string \<Rightarrow> string \<Rightarrow> verification_result res" where
  "verify_meta_tag net domain token =
     (let url = root_page_url domain
      in case http_fetch net url of
           Raises x \<Rightarrow> Inl x
         | Failure err \<Rightarrow> Inr \<lparr>vr_verified = False, vr_detail = ''Fetching '' @ url @ '' failed: '' @ err\<rparr>
         | Reply (code, body) \<Rightarrow>
             if code \<noteq> 200 then Inr \<lparr>vr_verified = False, vr_detail = url @ '' returned HTTP '' @ show_nat code @ ''.''\<rparr>
             else if map_option text_strip (meta_content body) = Some (code_points token)
             then Inr \<lparr>vr_verified = True, vr_detail = ''Matched <meta name='' @ [CHR 0x22] @ ''sentinel-verify'' @ [CHR 0x22] @ ''> tag at '' @ url @ ''.''\<rparr>
             else Inr \<lparr>vr_verified = False, vr_detail = ''No matching sentinel-verify meta tag found at '' @ url @ ''.''\<rparr>)"

definition verify_ownership :: "net_lib \<Rightarrow> ownership_method \<Rightarrow> string \<Rightarrow> string \<Rightarrow> verification_result res" where
  "verify_ownership net m domain token =
     (case m of
        DNS_TXT \<Rightarrow> verify_dns_txt net domain token
      | WELL_KNOWN_FILE \<Rightarrow> verify_well_known_file net domain token
      | META_TAG \<Rightarrow> verify_meta_tag net domain token)"

section \<open>What a verification shows\<close>

text \<open>The token stands where only the owner of the domain can put it.\<close>

definition token_published :: "net_lib \<Rightarrow> ownership_method \<Rightarrow> string \<Rightarrow> string \<Rightarrow> bool" where
  "token_published net m domain token \<longleftrightarrow>
     (case m of
        DNS_TXT \<Rightarrow> \<exists>answer r. dns_txt net (''_sentinel-verify.'' @ domain) = Reply answer \<and> r \<in> set answer \<and>
          sublist (code_points token) (utf8_decode_replace (concat r))
      | WELL_KNOWN_FILE \<Rightarrow> \<exists>body. http_fetch net (well_known_url domain) = Reply (200, body) \<and>
          sublist (code_points token) body \<and> text_strip body = code_points token
      | META_TAG \<Rightarrow> \<exists>body. http_fetch net (root_page_url domain) = Reply (200, body) \<and>
          sublist (code_points token) body)"

lemma group_at_sublist: "group_at pre g post (b, s) = Some t \<Longrightarrow> sublist t s"
proof -
  assume "group_at pre g post (b, s) = Some t"
  then obtain q1 q2 rest where hd: "[(q1, q2). q1 \<leftarrow> rx_ms pre (b, s), q2 \<leftarrow> rx_ms g q1, rx_ms post q2 \<noteq> []] = (q1, q2) # rest"
    and t: "t = take (length (snd q1) - length (snd q2)) (snd q1)"
    by (auto simp: group_at_def split: list.splits)
  from hd have "(q1, q2) \<in> set [(q1, q2). q1 \<leftarrow> rx_ms pre (b, s), q2 \<leftarrow> rx_ms g q1, rx_ms post q2 \<noteq> []]" by simp
  then have "q1 \<in> set (rx_ms pre (b, s))" by auto
  from rx_ms_splits [OF this] have "suffix (snd q1) s" by (auto simp: splits_def suffix_def)
  then show ?thesis unfolding t by (meson suffix_imp_sublist sublist_order.order.trans sublist_take)
qed

lemma group_search_sublist: "group_search pre g post s = Some t \<Longrightarrow> sublist t s"
proof -
  have "group_search_from pre g post b s = Some t \<Longrightarrow> sublist t s" for b
  proof (induction s arbitrary: b)
    case Nil
    then show ?case using group_at_sublist [of pre g post b "[]" t] by simp
  next
    case (Cons c cs)
    then show ?case
      using group_at_sublist [of pre g post b "c # cs" t]
      by (auto simp: sublist_Cons_right split: option.splits)
  qed
  then show "group_search pre g post s = Some t \<Longrightarrow> sublist t s" by (simp add: group_search_def)
qed

lemma text_strip_eq_sublist: "text_strip t = x \<Longrightarrow> sublist x t"
  using text_strip_sublist by metis

lemma verify_ownership_published:
  assumes "verify_ownership net m domain token = Inr r" and "vr_verified r"
  shows "token_published net m domain token"
proof (cases m)
  case DNS_TXT
  with assms show ?thesis
    by (auto simp: verify_ownership_def verify_dns_txt_def token_published_def Let_def list_ex_iff txt_value_def
        dest!: text_strip_eq_sublist split: net_reply.splits if_splits)
next
  case WELL_KNOWN_FILE
  with assms show ?thesis
    by (auto simp: verify_ownership_def verify_well_known_file_def token_published_def Let_def
        intro: text_strip_eq_sublist split: net_reply.splits if_splits)
next
  case META_TAG
  with assms obtain body c where b: "http_fetch net (root_page_url domain) = Reply (200, body)"
    "meta_content body = Some c" "text_strip c = code_points token"
    by (auto simp: verify_ownership_def verify_meta_tag_def Let_def split: net_reply.splits if_splits)
  have "sublist c body" using b(2) unfolding meta_content_def by (rule group_search_sublist)
  with text_strip_eq_sublist [OF b(3)] have "sublist (code_points token) body"
    by (meson sublist_order.order.trans)
  with b(1) META_TAG show ?thesis by (simp add: token_published_def)
qed

end
