(* ===== verification/Envelope_Crypto.thy ===== *)
theory Envelope_Crypto
  imports Utf8
begin

text \<open>
  Envelope encryption: \<^verbatim>\<open>packages/core/src/sentinel_core/crypto/envelope.py\<close>. The package
  \<^verbatim>\<open>cryptography\<close> is a parameter, the record \<open>fernet_lib\<close>: whether a text is a Fernet key, the two
  operations of \<^verbatim>\<open>Fernet\<close> and of \<^verbatim>\<open>MultiFernet\<close> (the random number of an encryption is an
  argument), and the generation of a key. \<open>fernet_ok\<close> states what its documentation promises.
\<close>

record fernet_lib =
  fernet_key :: "bytes \<Rightarrow> bool"
  fernet_generate :: "nat \<Rightarrow> bytes"
  fernet_encrypt :: "bytes \<Rightarrow> nat \<Rightarrow> bytes \<Rightarrow> bytes"
  fernet_decrypt :: "bytes \<Rightarrow> bytes \<Rightarrow> bytes option"
  multi_encrypt :: "bytes list \<Rightarrow> nat \<Rightarrow> bytes \<Rightarrow> bytes"
  multi_decrypt :: "bytes list \<Rightarrow> bytes \<Rightarrow> bytes option"

text \<open>
  \<^verbatim>\<open>MultiFernet\<close> encrypts with the first key of its list and decrypts with whichever of its keys
  fits.
\<close>

definition fernet_ok :: "fernet_lib \<Rightarrow> bool" where
  "fernet_ok lib \<longleftrightarrow>
     (\<forall>s. fernet_key lib (fernet_generate lib s)) \<and>
     (\<forall>k s m. fernet_key lib k \<longrightarrow> fernet_decrypt lib k (fernet_encrypt lib k s m) = Some m) \<and>
     (\<forall>k ks ks' s m. list_all (fernet_key lib) (k # ks) \<and> list_all (fernet_key lib) ks' \<and> k \<in> set ks' \<longrightarrow>
        multi_decrypt lib ks' (multi_encrypt lib (k # ks) s m) = Some m)"

section \<open>Master keys\<close>

record master_key_provider =
  provider_keys :: "bytes list"

definition new_local_provider :: "fernet_lib \<Rightarrow> bytes list \<Rightarrow> master_key_provider res" where
  "new_local_provider lib keys =
     (if keys = [] then Inl (Value_Error ''At least one master key is required.'')
      else if \<not> list_all (fernet_key lib) keys
      then Inl (Value_Error ''Fernet key must be 32 url-safe base64-encoded bytes.'')
      else Inr \<lparr>provider_keys = keys\<rparr>)"

definition wrap :: "fernet_lib \<Rightarrow> master_key_provider \<Rightarrow> nat \<Rightarrow> bytes \<Rightarrow> bytes" where
  "wrap lib p seed data_key = multi_encrypt lib (provider_keys p) seed data_key"

definition unwrap :: "fernet_lib \<Rightarrow> master_key_provider \<Rightarrow> bytes \<Rightarrow> bytes res" where
  "unwrap lib p wrapped =
     (case multi_decrypt lib (provider_keys p) wrapped of None \<Rightarrow> Inl Invalid_Token | Some k \<Rightarrow> Inr k)"

section \<open>Envelope\<close>

definition generate_data_key :: "fernet_lib \<Rightarrow> nat \<Rightarrow> bytes" where
  "generate_data_key lib seed = fernet_generate lib seed"

text \<open>The constructor of \<^verbatim>\<open>Fernet\<close> refuses a text that is no key.\<close>

definition with_key :: "fernet_lib \<Rightarrow> bytes \<Rightarrow> 'a res \<Rightarrow> 'a res" where
  "with_key lib k r =
     (if fernet_key lib k then r
      else Inl (Value_Error ''Fernet key must be 32 url-safe base64-encoded bytes.''))"

definition env_encrypt :: "fernet_lib \<Rightarrow> bytes \<Rightarrow> nat \<Rightarrow> bytes \<Rightarrow> bytes res" where
  "env_encrypt lib data_key seed plaintext = with_key lib data_key (Inr (fernet_encrypt lib data_key seed plaintext))"

definition env_decrypt :: "fernet_lib \<Rightarrow> bytes \<Rightarrow> bytes \<Rightarrow> bytes res" where
  "env_decrypt lib data_key ciphertext =
     with_key lib data_key
       (case fernet_decrypt lib data_key ciphertext of None \<Rightarrow> Inl Invalid_Token | Some m \<Rightarrow> Inr m)"

lemma new_local_providerD:
  "new_local_provider lib keys = Inr p \<Longrightarrow>
     provider_keys p = keys \<and> keys \<noteq> [] \<and> list_all (fernet_key lib) keys"
  by (auto simp: new_local_provider_def split: if_splits)

section \<open>Properties\<close>


text \<open>A cipher for the example: the key, framed by its length, stands before the message.\<close>

definition toy_seal :: "bytes \<Rightarrow> bytes \<Rightarrow> bytes" where
  "toy_seal k m = length k # k @ m"

definition toy_open :: "bytes \<Rightarrow> bytes \<Rightarrow> bytes option" where
  "toy_open k c = (if prefix (length k # k) c then Some (drop (Suc (length k)) c) else None)"

definition toy_lib :: fernet_lib where
  "toy_lib = \<lparr>fernet_key = (\<lambda>k. length k = 4), fernet_generate = (\<lambda>s. [s, 1, 2, 3]),
     fernet_encrypt = (\<lambda>k s m. toy_seal k m), fernet_decrypt = toy_open,
     multi_encrypt = (\<lambda>ks s m. toy_seal (hd ks) m),
     multi_decrypt = (\<lambda>ks c. case find (\<lambda>k. toy_open k c \<noteq> None) ks of None \<Rightarrow> None | Some k \<Rightarrow> toy_open k c)\<rparr>"

lemma toy_open_seal: "length j = length k \<Longrightarrow> toy_open j (toy_seal k m) = (if j = k then Some m else None)"
  by (auto simp: toy_open_def toy_seal_def prefix_def append_eq_append_conv)

lemma toy_lib_ok: "fernet_ok toy_lib"
proof -
  have "multi_decrypt toy_lib ks' (multi_encrypt toy_lib (k # ks) s m) = Some m"
    if "list_all (fernet_key toy_lib) (k # ks)" "list_all (fernet_key toy_lib) ks'" "k \<in> set ks'" for k ks ks' s m
  proof -
    have len: "length j = length k" if "j \<in> set ks'" for j
      using that \<open>list_all (fernet_key toy_lib) ks'\<close> \<open>list_all (fernet_key toy_lib) (k # ks)\<close>
      by (simp add: toy_lib_def list_all_iff)
    then have "find (\<lambda>j. toy_open j (toy_seal k m) \<noteq> None) ks' = find (\<lambda>j. j = k) ks'"
      by (intro find_cong) (auto simp: toy_open_seal)
    also have "\<dots> = Some k" using that(3) by (induction ks') auto
    finally show ?thesis by (simp add: toy_lib_def toy_open_seal)
  qed
  then show ?thesis by (auto simp: fernet_ok_def) (simp_all add: toy_lib_def toy_open_seal)
qed


end
