(* ===== verification/Api.thy ===== *)
theory Api
  imports Ownership Envelope_Crypto
begin

text \<open>
  The control-plane API: \<^verbatim>\<open>apps/api/sentinel_api_app/deps.py\<close>, the routers, the response schemas and
  \<^verbatim>\<open>celery_client.py\<close>. A request is handled in one step on the database; what a handler takes from
  outside during that step (the clock, random values, the network, the broker, the settings) is the
  record \<open>api_env\<close>, which may differ from request to request. The framework is not modelled: a
  request reaches its handler with its parameters parsed and its payload validated, and a handler's
  dependencies are resolved in the order of its parameters before its body runs.
\<close>

section \<open>Environment, errors and world\<close>

text \<open>
  \<open>api_uuid\<close> is \<^verbatim>\<open>UUID(text)\<close>, \<open>api_db_uuid\<close> what the database driver makes of a text compared
  with a UUID column, \<open>api_number\<close> the text of a number in a stored document.
\<close>

record api_env =
  api_uuid :: "string \<Rightarrow> uid option"
  api_db_uuid :: "string \<Rightarrow> uid res"
  api_net :: net_lib
  api_fernet :: fernet_lib
  api_kms_master_key :: string
  api_seed_key :: nat
  api_seed_cipher :: nat
  api_token_hex :: string
  api_now :: rat
  api_broker_up :: bool
  api_number :: "rat \<Rightarrow> string"

datatype http_error =
    Http_Exception nat string
  | Server_Error exn

record api_world =
  aw_db :: database
  aw_queue :: "uid list"

definition server_res :: "'a res \<Rightarrow> http_error + 'a" where
  "server_res r = (case r of Inl x \<Rightarrow> Inl (Server_Error x) | Inr a \<Rightarrow> Inr a)"

text \<open>A handler whose dependencies failed changes nothing.\<close>

definition handled :: "http_error + 'a \<Rightarrow> api_world \<Rightarrow> ('a \<Rightarrow> (http_error + 'b) \<times> api_world) \<Rightarrow> (http_error + 'b) \<times> api_world" where
  "handled r w f = (case r of Inl x \<Rightarrow> (Inl x, w) | Inr a \<Rightarrow> f a)"

section \<open>Dependencies\<close>

definition get_current_org :: "api_env \<Rightarrow> string option \<Rightarrow> database \<Rightarrow> http_error + organization" where
  "get_current_org env x_org_id db =
     (case x_org_id of
        None \<Rightarrow> Inl (Http_Exception 401 ''Missing X-Org-Id header (dev auth stand-in for Clerk - see app.deps).'')
      | Some h \<Rightarrow>
          if h = [] then Inl (Http_Exception 401 ''Missing X-Org-Id header (dev auth stand-in for Clerk - see app.deps).'')
          else case api_uuid env h of
                 None \<Rightarrow> Inl (Http_Exception 400 ''X-Org-Id is not a valid UUID.'')
               | Some i \<Rightarrow>
                   (case get_org i db of
                      None \<Rightarrow> Inl (Http_Exception 404 ''Organization not found.'')
                    | Some org \<Rightarrow> Inr org))"

definition kms_missing_text :: string where
  "kms_missing_text = ''KMS_MASTER_KEY is not configured. Generate one with `python -c '' @ [CHR 0x22] @
     ''from cryptography.fernet import Fernet; print(Fernet.generate_key().decode())'' @ [CHR 0x22] @
     ''` and set it in .env.''"

definition local_provider_of :: "api_env \<Rightarrow> master_key_provider res" where
  "local_provider_of env =
     (if api_kms_master_key env = [] then Inl (Runtime_Error kms_missing_text)
      else new_local_provider (api_fernet env) [utf8_encode (code_points (api_kms_master_key env))])"

definition get_crypto :: "api_env \<Rightarrow> http_error + master_key_provider" where
  "get_crypto env = server_res (local_provider_of env)"

definition get_owned_target :: "api_env \<Rightarrow> string option \<Rightarrow> uid \<Rightarrow> database \<Rightarrow> http_error + target" where
  "get_owned_target env x_org_id target_id db =
     bind_res (get_current_org env x_org_id db) (\<lambda>org.
       case get_target target_id db of
         None \<Rightarrow> Inl (Http_Exception 404 ''Target not found.'')
       | Some t \<Rightarrow>
           if tg_organization_id t \<noteq> org_id org then Inl (Http_Exception 404 ''Target not found.'') else Inr t)"

section \<open>Responses\<close>

record organization_out =
  oo_id :: uid
  oo_name :: string
  oo_slug :: string
  oo_plan :: string

definition organization_out_of :: "organization \<Rightarrow> organization_out" where
  "organization_out_of org = \<lparr>oo_id = org_id org, oo_name = org_name org, oo_slug = org_slug org, oo_plan = org_plan org\<rparr>"

record target_out =
  to_id :: uid
  to_root_domain :: string
  to_display_name :: string
  to_is_production :: bool
  to_ownership_verified :: bool
  to_verification_method :: "ownership_method option"
  to_verified_at :: "rat option"
  to_authorization_accepted :: bool
  to_is_scannable :: bool

definition target_out_of :: "target \<Rightarrow> target_out" where
  "target_out_of t =
     \<lparr>to_id = tg_id t, to_root_domain = tg_root_domain t, to_display_name = tg_display_name t,
      to_is_production = tg_is_production t, to_ownership_verified = tg_ownership_verified t,
      to_verification_method = tg_verification_method t, to_verified_at = tg_verified_at t,
      to_authorization_accepted = tg_authorization_accepted t, to_is_scannable = is_scannable t\<rparr>"

record persona_out =
  po_id :: uid
  po_label :: string
  po_role_name :: string
  po_trust_rank :: nat
  po_tenant_key :: "string option"
  po_login_strategy :: "login_strategy option"
  po_is_available :: bool
  po_unavailable_reason :: "string option"
  po_expected_denied :: "string list"
  po_has_login_recipe :: bool

definition persona_out_of :: "persona_row \<Rightarrow> persona_out" where
  "persona_out_of p =
     \<lparr>po_id = pe_id p, po_label = pe_label p, po_role_name = pe_role_name p, po_trust_rank = pe_trust_rank p,
      po_tenant_key = pe_tenant_key p, po_login_strategy = pe_login_strategy p, po_is_available = pe_is_available p,
      po_unavailable_reason = pe_unavailable_reason p, po_expected_denied = pe_expected_denied p,
      po_has_login_recipe = (pe_login_recipe p \<noteq> None)\<rparr>"

text \<open>What the answer has of a scope rule, of a scan with its phases, and of a finding with its verification.\<close>

record scope_rule_out =
  so_id :: uid
  so_kind :: string
  so_pattern :: string
  so_effect :: string
  so_label :: string

definition scope_rule_out_of :: "scope_rule_row \<Rightarrow> scope_rule_out" where
  "scope_rule_out_of r =
     \<lparr>so_id = sr_id r, so_kind = rule_kind (sr_rule r), so_pattern = rule_pattern (sr_rule r),
      so_effect = rule_effect (sr_rule r), so_label = rule_label (sr_rule r)\<rparr>"

record scan_phase_out =
  pho_name :: scan_phase_name
  pho_status :: phase_status
  pho_started_at :: "rat option"
  pho_finished_at :: "rat option"
  pho_error :: "string option"
  pho_stats_json :: json

definition scan_phase_out_of :: "phase_row \<Rightarrow> scan_phase_out" where
  "scan_phase_out_of p =
     \<lparr>pho_name = ph_name p, pho_status = ph_status p, pho_started_at = ph_started_at p, pho_finished_at = ph_finished_at p,
      pho_error = ph_error p, pho_stats_json = ph_stats p\<rparr>"

record scan_out =
  sco_id :: uid
  sco_target_id :: uid
  sco_state :: scan_state
  sco_triggered_by :: string
  sco_is_degraded :: bool
  sco_degraded_reasons :: "ptext list"
  sco_fail_reason :: "string option"
  sco_started_at :: "rat option"
  sco_finished_at :: "rat option"
  sco_llm_tokens_used :: nat
  sco_llm_token_budget :: nat
  sco_phases :: "scan_phase_out list"

definition scan_out_of :: "scan_row \<Rightarrow> phase_row list \<Rightarrow> scan_out" where
  "scan_out_of s ps =
     \<lparr>sco_id = sc_id s, sco_target_id = sc_target_id s, sco_state = sc_state s, sco_triggered_by = sc_triggered_by s,
      sco_is_degraded = sc_is_degraded s, sco_degraded_reasons = sc_degraded_reasons s,
      sco_fail_reason = sc_fail_reason s, sco_started_at = sc_started_at s, sco_finished_at = sc_finished_at s,
      sco_llm_tokens_used = sc_llm_tokens_used s, sco_llm_token_budget = sc_llm_token_budget s, sco_phases = map scan_phase_out_of ps\<rparr>"

record verification_out =
  vo_reproduced_count :: int
  vo_attempted_count :: int
  vo_passed :: bool

definition verification_out_of :: "verification \<Rightarrow> verification_out" where
  "verification_out_of v = \<lparr>vo_reproduced_count = ver_reproduced_count v, vo_attempted_count = ver_attempted_count v,
     vo_passed = ver_passed v\<rparr>"

record evidence_out =
  eo_transcript_id :: string
  eo_role :: string
  eo_note :: string

definition evidence_out_of :: "evidence \<Rightarrow> evidence_out" where
  "evidence_out_of e = \<lparr>eo_transcript_id = ev_transcript_id e, eo_role = ev_role e, eo_note = ev_note e\<rparr>"

record finding_out =
  fo_id :: uid
  fo_scan_id :: uid
  fo_fingerprint :: string
  fo_rule_id :: string
  fo_title :: string
  fo_cwe :: "int list"
  fo_owasp_top10 :: "string option"
  fo_cvss_vector :: "string option"
  fo_severity :: finding_severity
  fo_confidence :: finding_confidence
  fo_status :: finding_status
  fo_narrative :: string
  fo_remediation :: json
  fo_reproduction :: json
  fo_evidence :: "evidence_out list"
  fo_verification :: "verification_out option"

definition finding_out_of :: "finding_row \<Rightarrow> verification option \<Rightarrow> finding_out" where
  "finding_out_of f v =
     \<lparr>fo_id = fi_id f, fo_scan_id = fi_scan_id f, fo_fingerprint = fi_fingerprint f, fo_rule_id = fi_rule_id f,
      fo_title = fi_title f, fo_cwe = fi_cwe f, fo_owasp_top10 = fi_owasp_top10 f, fo_cvss_vector = fi_cvss_vector f,
      fo_severity = fi_severity f, fo_confidence = fi_confidence f, fo_status = fi_status f, fo_narrative = fi_narrative f,
      fo_remediation = fi_remediation f, fo_reproduction = fi_reproduction f, fo_evidence = map evidence_out_of (fi_evidence f),
      fo_verification = map_option verification_out_of v\<rparr>"

text \<open>The answers about the ownership of a target.\<close>

record ownership_challenge_out =
  oc_method :: ownership_method
  oc_token :: string
  oc_instructions :: string

record ownership_verify_result =
  ov_verified :: bool
  ov_detail :: string

datatype api_reply =
    R_Organization organization_out
  | R_Target target_out
  | R_Targets "target_out list"
  | R_Challenge ownership_challenge_out
  | R_Verified ownership_verify_result
  | R_Scope_Rule scope_rule_out
  | R_Scope_Rules "scope_rule_out list"
  | R_Persona persona_out
  | R_Personas "persona_out list"
  | R_Scan scan_out
  | R_Scans "scan_out list"
  | R_Findings "finding_out list"

type_synonym handler_result = "(http_error + api_reply) \<times> api_world"

section \<open>Organizations\<close>

definition create_organization :: "api_env \<Rightarrow> string \<Rightarrow> string \<Rightarrow> api_world \<Rightarrow> handler_result" where
  "create_organization env nm slug w =
     handled (get_crypto env) w (\<lambda>crypto.
       let db = aw_db w in
       if list_ex (\<lambda>r. org_slug r = slug) (db_orgs db)
       then (Inl (Http_Exception 409 ''An organization with this slug already exists.''), w)
       else
         let data_key = generate_data_key (api_fernet env) (api_seed_key env);
             org = \<lparr>org_id = db_next db, org_name = nm, org_slug = slug,
                    org_wrapped_data_key = wrap (api_fernet env) crypto (api_seed_cipher env) data_key, org_plan = ''free_scan''\<rparr>
         in (Inr (R_Organization (organization_out_of org)),
             w\<lparr>aw_db := db\<lparr>db_orgs := db_orgs db @ [org], db_next := db_next db + 1\<rparr>\<rparr>))"

definition get_my_organization :: "api_env \<Rightarrow> string option \<Rightarrow> api_world \<Rightarrow> handler_result" where
  "get_my_organization env h w =
     handled (get_current_org env h (aw_db w)) w (\<lambda>org. (Inr (R_Organization (organization_out_of org)), w))"

section \<open>Targets\<close>

definition create_target :: "api_env \<Rightarrow> string option \<Rightarrow> string \<Rightarrow> string \<Rightarrow> bool \<Rightarrow> api_world \<Rightarrow> handler_result" where
  "create_target env h root_domain display_name production w =
     handled (get_current_org env h (aw_db w)) w (\<lambda>org.
       let db = aw_db w;
           t = \<lparr>tg_id = db_next db, tg_organization_id = org_id org, tg_root_domain = root_domain,
                tg_display_name = display_name, tg_is_production = production, tg_ownership_verified = False,
                tg_verification_method = None, tg_verification_token = None, tg_verified_at = None,
                tg_authorization_accepted = False, tg_authorization_accepted_at = None\<rparr>
       in (Inr (R_Target (target_out_of t)),
           w\<lparr>aw_db := db\<lparr>db_targets := db_targets db @ [t], db_next := db_next db + 1\<rparr>\<rparr>))"

definition list_targets :: "api_env \<Rightarrow> string option \<Rightarrow> api_world \<Rightarrow> handler_result" where
  "list_targets env h w =
     handled (get_current_org env h (aw_db w)) w (\<lambda>org.
       (Inr (R_Targets (map target_out_of
          (filter (\<lambda>t. tg_organization_id t = org_id org) (db_targets (aw_db w))))), w))"

definition read_target :: "api_env \<Rightarrow> string option \<Rightarrow> uid \<Rightarrow> api_world \<Rightarrow> handler_result" where
  "read_target env h i w =
     handled (get_owned_target env h i (aw_db w)) w (\<lambda>t. (Inr (R_Target (target_out_of t)), w))"

definition INSTRUCTIONS :: "ownership_method \<Rightarrow> string \<Rightarrow> string" where
  "INSTRUCTIONS m domain =
     (case m of
        DNS_TXT \<Rightarrow> ''Create a TXT record at _sentinel-verify.'' @ domain @ '' with the exact value shown.''
      | WELL_KNOWN_FILE \<Rightarrow> ''Serve a file at https://'' @ domain @
          ''/.well-known/sentinel-verify.txt whose entire body is the exact value shown.''
      | META_TAG \<Rightarrow> ''Add <meta name='' @ [CHR 0x22] @ ''sentinel-verify'' @ [CHR 0x22] @ '' content='' @ [CHR 0x22] @
          ''TOKEN'' @ [CHR 0x22] @ ''> to the <head> of https://'' @ domain @
          ''/, replacing TOKEN with the exact value shown.'')"

definition create_ownership_challenge :: "api_env \<Rightarrow> string option \<Rightarrow> uid \<Rightarrow> ownership_method \<Rightarrow> api_world \<Rightarrow> handler_result" where
  "create_ownership_challenge env h i m w =
     handled (get_owned_target env h i (aw_db w)) w (\<lambda>t.
       let token = generate_verification_token (api_token_hex env)
       in (Inr (R_Challenge \<lparr>oc_method = m, oc_token = token, oc_instructions = INSTRUCTIONS m (tg_root_domain t)\<rparr>),
           w\<lparr>aw_db := update_target (tg_id t) (\<lambda>t. t\<lparr>tg_verification_method := Some m,
                tg_verification_token := Some token, tg_ownership_verified := False, tg_verified_at := None\<rparr>) (aw_db w)\<rparr>))"

text \<open>A token that is the empty text counts as none.\<close>

definition run_ownership_verification :: "api_env \<Rightarrow> string option \<Rightarrow> uid \<Rightarrow> api_world \<Rightarrow> handler_result" where
  "run_ownership_verification env h i w =
     handled (get_owned_target env h i (aw_db w)) w (\<lambda>t.
       case (tg_verification_method t, or_default (tg_verification_token t) []) of
         (Some m, c # cs) \<Rightarrow>
           handled (server_res (verify_ownership (api_net env) m (tg_root_domain t) (c # cs))) w (\<lambda>r.
             (Inr (R_Verified \<lparr>ov_verified = vr_verified r, ov_detail = vr_detail r\<rparr>),
              w\<lparr>aw_db := update_target (tg_id t) (\<lambda>t. t\<lparr>tg_ownership_verified := vr_verified r,
                   tg_verified_at := (if vr_verified r then Some (api_now env) else None)\<rparr>) (aw_db w)\<rparr>))
       | _ \<Rightarrow> (Inl (Http_Exception 400 (''No ownership challenge has been issued for this target yet - '' @
                ''call POST /targets/{id}/ownership-challenge first.'')), w))"

definition accept_authorization :: "api_env \<Rightarrow> string option \<Rightarrow> uid \<Rightarrow> bool \<Rightarrow> api_world \<Rightarrow> handler_result" where
  "accept_authorization env h i accepted w =
     handled (get_owned_target env h i (aw_db w)) w (\<lambda>t.
       if \<not> accepted then (Inl (Http_Exception 400 ''Authorization must be explicitly accepted.''), w)
       else
         let accept = (\<lambda>t. t\<lparr>tg_authorization_accepted := True, tg_authorization_accepted_at := Some (api_now env)\<rparr>)
         in (Inr (R_Target (target_out_of (accept t))),
             w\<lparr>aw_db := update_target (tg_id t) accept (aw_db w)\<rparr>))"

definition create_scope_rule :: "api_env \<Rightarrow> string option \<Rightarrow> uid \<Rightarrow> scope_rule \<Rightarrow> api_world \<Rightarrow> handler_result" where
  "create_scope_rule env h i rule w =
     handled (get_owned_target env h i (aw_db w)) w (\<lambda>t.
       let db = aw_db w; row = \<lparr>sr_id = db_next db, sr_target_id = tg_id t, sr_rule = rule\<rparr>
       in (Inr (R_Scope_Rule (scope_rule_out_of row)),
           w\<lparr>aw_db := db\<lparr>db_scope_rules := db_scope_rules db @ [row], db_next := db_next db + 1\<rparr>\<rparr>))"

definition list_scope_rules :: "api_env \<Rightarrow> string option \<Rightarrow> uid \<Rightarrow> api_world \<Rightarrow> handler_result" where
  "list_scope_rules env h i w =
     handled (get_owned_target env h i (aw_db w)) w (\<lambda>t.
       (Inr (R_Scope_Rules (map scope_rule_out_of (filter (\<lambda>r. sr_target_id r = tg_id t) (db_scope_rules (aw_db w))))), w))"

section \<open>Personas\<close>

record persona_create =
  pc_label :: string
  pc_role_name :: string
  pc_trust_rank :: nat
  pc_tenant_key :: "string option"
  pc_login_strategy :: "login_strategy option"
  pc_credential :: "(credential_kind \<times> ptext) option"
  pc_login_recipe :: "login_recipe option"
  pc_expected_denied :: "string list"

definition encrypt_secret :: "api_env \<Rightarrow> master_key_provider \<Rightarrow> organization \<Rightarrow> ptext \<Rightarrow> bytes res" where
  "encrypt_secret env crypto org secret =
     bind_res (unwrap (api_fernet env) crypto (org_wrapped_data_key org)) (\<lambda>data_key.
       if \<not> list_all scalar secret then Inl Unicode_Error
       else env_encrypt (api_fernet env) data_key (api_seed_cipher env) (utf8_encode secret))"

text \<open>The credential, if there is one, is written first and takes the next id.\<close>

definition add_credential ::
  "api_env \<Rightarrow> master_key_provider \<Rightarrow> organization \<Rightarrow> (credential_kind \<times> ptext) option \<Rightarrow> database \<Rightarrow> (uid option \<times> database) res" where
  "add_credential env crypto org cred db =
     (case cred of
        None \<Rightarrow> Inr (None, db)
      | Some (kind, secret) \<Rightarrow>
          bind_res (encrypt_secret env crypto org secret) (\<lambda>c.
            Inr (Some (db_next db),
                 db\<lparr>db_credentials := db_credentials db @ [\<lparr>cred_id = db_next db, cred_kind = kind, cred_ciphertext = c\<rparr>],
                    db_next := db_next db + 1\<rparr>)))"

definition create_persona :: "api_env \<Rightarrow> string option \<Rightarrow> uid \<Rightarrow> persona_create \<Rightarrow> api_world \<Rightarrow> handler_result" where
  "create_persona env h i payload w =
     handled (get_owned_target env h i (aw_db w)) w (\<lambda>t.
     handled (get_current_org env h (aw_db w)) w (\<lambda>org.
     handled (get_crypto env) w (\<lambda>crypto.
     handled (server_res (add_credential env crypto org (pc_credential payload) (aw_db w))) w (\<lambda>(credential_id, db).
       let p = \<lparr>pe_id = db_next db, pe_target_id = tg_id t, pe_label = pc_label payload,
                pe_role_name = pc_role_name payload, pe_trust_rank = pc_trust_rank payload,
                pe_tenant_key = pc_tenant_key payload, pe_credential_id = credential_id,
                pe_login_strategy = pc_login_strategy payload, 
                pe_login_recipe = map_option (recipe_dump (api_number env)) (pc_login_recipe payload),
                pe_session_state_ciphertext = None, pe_session_state_updated_at = None, pe_session_oracle = None,
                pe_expected_denied = pc_expected_denied payload, pe_is_available = True,
                pe_unavailable_reason = None\<rparr>
       in (Inr (R_Persona (persona_out_of p)),
           w\<lparr>aw_db := db\<lparr>db_personas := db_personas db @ [p], db_next := db_next db + 1\<rparr>\<rparr>)))))"

definition list_personas :: "api_env \<Rightarrow> string option \<Rightarrow> uid \<Rightarrow> api_world \<Rightarrow> handler_result" where
  "list_personas env h i w =
     handled (get_owned_target env h i (aw_db w)) w (\<lambda>t.
       (Inr (R_Personas (map persona_out_of (filter (\<lambda>p. pe_target_id p = tg_id t) (db_personas (aw_db w))))), w))"

section \<open>Scans and findings\<close>

text \<open>Whether the broker took the task; a failure is logged and is not fatal.\<close>

definition dispatch_scan :: "api_env \<Rightarrow> uid \<Rightarrow> api_world \<Rightarrow> bool \<times> api_world" where
  "dispatch_scan env i w =
     (if api_broker_up env then (True, w\<lparr>aw_queue := aw_queue w @ [i]\<rparr>) else (False, w))"

definition not_scannable_text :: string where
  "not_scannable_text = ''Target is not scannable yet - ownership must be verified and authorization '' @
     ''accepted first (see docs/06-safety-legal-abuse.md '' @ [CHR 0xA7] @ ''1).''"

definition create_scan :: "api_env \<Rightarrow> string option \<Rightarrow> uid \<Rightarrow> string \<Rightarrow> api_world \<Rightarrow> handler_result" where
  "create_scan env h i triggered_by w =
     handled (get_owned_target env h i (aw_db w)) w (\<lambda>t.
       if \<not> is_scannable t then (Inl (Http_Exception 403 not_scannable_text), w)
       else
         let db = aw_db w;
             scan = \<lparr>sc_id = db_next db, sc_target_id = tg_id t, sc_triggered_by = triggered_by, sc_state = QUEUED,
                     sc_paused_from = None, sc_fail_reason = None, sc_is_degraded = False, sc_degraded_reasons = [],
                     sc_started_at = None, sc_finished_at = None, sc_llm_token_budget = 200000, sc_llm_tokens_used = 0\<rparr>;
             committed = w\<lparr>aw_db := db\<lparr>db_scans := db_scans db @ [scan], db_next := db_next db + 1\<rparr>\<rparr>
         in (Inr (R_Scan (scan_out_of scan (phases_of (sc_id scan) (aw_db committed)))),
             snd (dispatch_scan env (sc_id scan) committed)))"

definition list_scans :: "api_env \<Rightarrow> string option \<Rightarrow> uid \<Rightarrow> api_world \<Rightarrow> handler_result" where
  "list_scans env h i w =
     handled (get_owned_target env h i (aw_db w)) w (\<lambda>t.
       (Inr (R_Scans (map (\<lambda>s. scan_out_of s (phases_of (sc_id s) (aw_db w)))
          (filter (\<lambda>s. sc_target_id s = tg_id t) (db_scans (aw_db w))))), w))"

text \<open>The join of the scans with the targets of the organization, at one scan id.\<close>

definition joined_scans :: "uid \<Rightarrow> uid \<Rightarrow> database \<Rightarrow> scan_row list" where
  "joined_scans i org db =
     [s. s \<leftarrow> db_scans db, t \<leftarrow> db_targets db, sc_target_id s = tg_id t \<and> sc_id s = i \<and> tg_organization_id t = org]"

definition one_or_404 :: "'a list \<Rightarrow> http_error + 'a" where
  "one_or_404 rows =
     (case rows of [] \<Rightarrow> Inl (Http_Exception 404 ''Scan not found.'')
      | [s] \<Rightarrow> Inr s
      | _ \<Rightarrow> Inl (Server_Error (Other_Error ''MultipleResultsFound'')))"

definition owned_scan :: "api_env \<Rightarrow> string option \<Rightarrow> string \<Rightarrow> database \<Rightarrow> http_error + scan_row" where
  "owned_scan env h scan_id db =
     bind_res (get_current_org env h db) (\<lambda>org.
       bind_res (server_res (api_db_uuid env scan_id)) (\<lambda>i.
         one_or_404 (joined_scans i (org_id org) db)))"

definition read_scan :: "api_env \<Rightarrow> string option \<Rightarrow> string \<Rightarrow> api_world \<Rightarrow> handler_result" where
  "read_scan env h scan_id w =
     handled (owned_scan env h scan_id (aw_db w)) w (\<lambda>s.
       (Inr (R_Scan (scan_out_of s (phases_of (sc_id s) (aw_db w)))), w))"

definition list_findings :: "api_env \<Rightarrow> string option \<Rightarrow> string \<Rightarrow> api_world \<Rightarrow> handler_result" where
  "list_findings env h scan_id w =
     handled (owned_scan env h scan_id (aw_db w)) w (\<lambda>s.
       (Inr (R_Findings (map (\<lambda>f. finding_out_of f (db_verifications (aw_db w) (fi_id f)))
          (filter (\<lambda>f. fi_scan_id f = sc_id s) (db_findings (aw_db w))))), w))"

section \<open>The routes\<close>

datatype api_request =
    Create_Organization string string
  | Get_My_Organization
  | Create_Target string string bool
  | List_Targets
  | Get_Target uid
  | Ownership_Challenge uid ownership_method
  | Ownership_Verify uid
  | Authorization uid bool
  | Create_Scope_Rule uid scope_rule
  | List_Scope_Rules uid
  | Create_Persona uid persona_create
  | List_Personas uid
  | Create_Scan uid string
  | List_Scans uid
  | Get_Scan string
  | List_Findings string

definition serve :: "api_env \<Rightarrow> string option \<Rightarrow> api_request \<Rightarrow> api_world \<Rightarrow> handler_result" where
  "serve env h r w =
     (case r of
        Create_Organization nm slug \<Rightarrow> create_organization env nm slug w
      | Get_My_Organization \<Rightarrow> get_my_organization env h w
      | Create_Target d nm p \<Rightarrow> create_target env h d nm p w
      | List_Targets \<Rightarrow> list_targets env h w
      | Get_Target i \<Rightarrow> read_target env h i w
      | Ownership_Challenge i m \<Rightarrow> create_ownership_challenge env h i m w
      | Ownership_Verify i \<Rightarrow> run_ownership_verification env h i w
      | Authorization i b \<Rightarrow> accept_authorization env h i b w
      | Create_Scope_Rule i rule \<Rightarrow> create_scope_rule env h i rule w
      | List_Scope_Rules i \<Rightarrow> list_scope_rules env h i w
      | Create_Persona i p \<Rightarrow> create_persona env h i p w
      | List_Personas i \<Rightarrow> list_personas env h i w
      | Create_Scan i s \<Rightarrow> create_scan env h i s w
      | List_Scans i \<Rightarrow> list_scans env h i w
      | Get_Scan s \<Rightarrow> read_scan env h s w
      | List_Findings s \<Rightarrow> list_findings env h s w)"

text \<open>Requests in sequence, each with what it met.\<close>

type_synonym api_step = "api_env \<times> string option \<times> api_request"

definition served :: "api_step list \<Rightarrow> api_world \<Rightarrow> api_world" where
  "served steps w = fold (\<lambda>(env, h, r) w. snd (serve env h r w)) steps w"

section \<open>An example\<close>

text \<open>
  Two customers, whose header is the letter of their organization. The first one proves that it owns
  its domain with a file and starts a scan.
\<close>

definition demo_api_env :: "api_env" where
  "demo_api_env = \<lparr>api_uuid = (\<lambda>h. if h = ''a'' then Some 0 else if h = ''b'' then Some 1 else None),
     api_db_uuid = (\<lambda>s. Inl (Other_Error ''DataError'')),
     api_net = \<lparr>dns_txt = (\<lambda>d. Failure ''NXDOMAIN''), http_fetch = (\<lambda>u. Reply (200, code_points (generate_verification_token ''5e''))) \<rparr>,
     api_fernet = toy_lib, api_kms_master_key = ''key1'', api_seed_key = 3, api_seed_cipher = 4, api_token_hex = ''5e'',
     api_now = 0, api_broker_up = True,
     api_number = (\<lambda>q. if q = 10 then ''10.0'' else ''30.0'')\<rparr>"

definition demo_api_world :: api_world where
  "demo_api_world = \<lparr>aw_db = empty_database, aw_queue = []\<rparr>"

lemma demo_crypto: "get_crypto demo_api_env = Inr \<lparr>provider_keys = [utf8_encode (code_points ''key1'')]\<rparr>"
proof -
  have "length (utf8_encode (code_points ''key1'')) = 4" by (simp add: utf8_encode_def code_points_def encode_cp_def)
  then show ?thesis by (simp add: get_crypto_def server_res_def local_provider_of_def demo_api_env_def new_local_provider_def toy_lib_def)
qed

lemma demo_verified: "verify_ownership (api_net demo_api_env) WELL_KNOWN_FILE d (generate_verification_token ''5e'') =
   Inr \<lparr>vr_verified = True, vr_detail = ''Matched file content at '' @ well_known_url d @ ''.''\<rparr>"
proof -
  have "text_strip (code_points (generate_verification_token ''5e'')) = code_points (generate_verification_token ''5e'')"
    by (simp add: text_strip_def space_code_def code_points_def generate_verification_token_def TOKEN_PREFIX_def rstrip_by_def lstrip_by_def)
  then show ?thesis by (simp add: verify_ownership_def verify_well_known_file_def demo_api_env_def)
qed

definition demo_steps :: "api_step list" where
  "demo_steps = map (\<lambda>(h, r). (demo_api_env, h, r))
     [(None, Create_Organization ''A'' ''a''), (None, Create_Organization ''B'' ''b''),
      (Some ''a'', Create_Target ''shop.io'' ''Shop'' True),
      (Some ''a'', Ownership_Challenge 2 WELL_KNOWN_FILE), (Some ''a'', Ownership_Verify 2), (Some ''a'', Authorization 2 True),
      (Some ''a'', Create_Scan 2 ''manual'')]"

lemma demo_uuid [simp]: "api_uuid demo_api_env ''a'' = Some 0" "api_uuid demo_api_env ''b'' = Some 1"
  "api_token_hex demo_api_env = ''5e''"
  by (simp_all add: demo_api_env_def)

lemma demo_served:
  "(let db = aw_db (served demo_steps demo_api_world)
    in (map sc_target_id (db_scans db), map tg_organization_id (db_targets db), map org_id (db_orgs db))) = ([2], [0], [0, 1])"
proof -
  note crypto = demo_crypto handled_def create_organization_def organization_out_of_def
  note tgt = get_current_org_def get_org_def get_target_def get_owned_target_def update_target_def is_scannable_def
    create_target_def create_ownership_challenge_def run_ownership_verification_def accept_authorization_def create_scan_def dispatch_scan_def
  note ver = demo_verified [unfolded generate_verification_token_def TOKEN_PREFIX_def, simplified]
  show ?thesis
    unfolding served_def demo_steps_def
    by (simp add: serve_def crypto tgt ver server_res_def demo_api_world_def empty_database_def Let_def
        generate_verification_token_def TOKEN_PREFIX_def)
qed

end
