(* ===== verification/Api_Isolation.thy ===== *)
theory Api_Isolation
  imports Api
begin

text \<open>
  Isolation of the customers of the API. \<open>tenant_db\<close> is the part of the database that belongs to one
  organization. The answer to a request is computed from the part of the caller, and no request
  changes the part of another organization. The writes of all handlers are summed up once, in the
  relation \<open>api_effect\<close>, on which the invariants are proved.
\<close>

section \<open>Tenants\<close>

text \<open>The organization a request claims to come from.\<close>

definition caller :: "api_env \<Rightarrow> string option \<Rightarrow> uid option" where
  "caller env h = (case h of None \<Rightarrow> None | Some x \<Rightarrow> if x = [] then None else api_uuid env x)"

text \<open>The part of the database that belongs to one organization; the counter of ids is not part of it.\<close>

definition target_ids :: "uid \<Rightarrow> database \<Rightarrow> uid set" where
  "target_ids a db = tg_id ` {t \<in> set (db_targets db). tg_organization_id t = a}"

definition scan_ids :: "uid \<Rightarrow> database \<Rightarrow> uid set" where
  "scan_ids a db = sc_id ` {s \<in> set (db_scans db). sc_target_id s \<in> target_ids a db}"

definition asset_ids :: "uid \<Rightarrow> database \<Rightarrow> uid set" where
  "asset_ids a db = as_id ` {r \<in> set (db_assets db). as_scan_id r \<in> scan_ids a db}"

definition credential_ids :: "uid \<Rightarrow> database \<Rightarrow> uid set" where
  "credential_ids a db = {c. \<exists>p\<in>set (db_personas db). pe_target_id p \<in> target_ids a db \<and> pe_credential_id p = Some c}"

definition finding_ids :: "uid \<Rightarrow> database \<Rightarrow> uid set" where
  "finding_ids a db = fi_id ` {f \<in> set (db_findings db). fi_scan_id f \<in> scan_ids a db}"

definition tenant_db :: "uid \<Rightarrow> database \<Rightarrow> database" where
  "tenant_db a db = db\<lparr>
     db_orgs := filter (\<lambda>r. org_id r = a) (db_orgs db),
     db_targets := filter (\<lambda>t. tg_organization_id t = a) (db_targets db),
     db_scope_rules := filter (\<lambda>r. sr_target_id r \<in> target_ids a db) (db_scope_rules db),
     db_credentials := filter (\<lambda>c. cred_id c \<in> credential_ids a db) (db_credentials db),
     db_personas := filter (\<lambda>p. pe_target_id p \<in> target_ids a db) (db_personas db),
     db_scans := filter (\<lambda>s. sc_target_id s \<in> target_ids a db) (db_scans db),
     db_phases := filter (\<lambda>p. ph_scan_id p \<in> scan_ids a db) (db_phases db),
     db_assets := filter (\<lambda>r. as_scan_id r \<in> scan_ids a db) (db_assets db),
     db_endpoints := filter (\<lambda>e. ep_asset_id e \<in> asset_ids a db) (db_endpoints db),
     db_findings := filter (\<lambda>f. fi_scan_id f \<in> scan_ids a db) (db_findings db),
     db_verifications := (\<lambda>i. if i \<in> finding_ids a db then db_verifications db i else None)\<rparr>"

text \<open>The keys of the schema: ids are unique and below the counter, and references have a row.\<close>

definition db_ok :: "database \<Rightarrow> bool" where
  "db_ok db \<longleftrightarrow>
     distinct (map org_id (db_orgs db)) \<and> distinct (map tg_id (db_targets db)) \<and> distinct (map sc_id (db_scans db)) \<and>
     (\<forall>r\<in>set (db_orgs db). org_id r < db_next db) \<and>
     (\<forall>t\<in>set (db_targets db). tg_id t < db_next db \<and> tg_organization_id t < db_next db) \<and>
     (\<forall>s\<in>set (db_scans db). sc_id s < db_next db \<and> sc_target_id s < db_next db) \<and>
     (\<forall>p\<in>set (db_personas db). pe_target_id p < db_next db \<and> (\<forall>c. pe_credential_id p = Some c \<longrightarrow> c < db_next db)) \<and>
     (\<forall>r\<in>set (db_scope_rules db). sr_target_id r < db_next db) \<and>
     (\<forall>p\<in>set (db_phases db). ph_scan_id p < db_next db) \<and>
     (\<forall>c\<in>set (db_credentials db). cred_id c < db_next db)"

lemma find_key:
  "distinct (map f xs) \<Longrightarrow> find (\<lambda>x. f x = k) xs = Some x \<longleftrightarrow> x \<in> set xs \<and> f x = k"
  by (induction xs) auto

lemma find_filter: "(\<And>x. P x \<Longrightarrow> Q x) \<Longrightarrow> find P (filter Q xs) = find P xs"
  by (induction xs) auto

lemma get_current_orgD:
  assumes "get_current_org env h db = Inr org"
  shows "caller env h = Some (org_id org)" and "org \<in> set (db_orgs db)"
proof -
  obtain x i where "h = Some x" "x \<noteq> []" "api_uuid env x = Some i" "get_org i db = Some org"
    using assms unfolding get_current_org_def by (simp split: option.splits if_splits)
  then show "caller env h = Some (org_id org)" "org \<in> set (db_orgs db)"
    by (auto simp: caller_def get_org_def dest!: find_SomeD)
qed

lemma get_owned_targetD:
  assumes "get_owned_target env h i db = Inr t"
  shows "t \<in> set (db_targets db)" "tg_id t = i" "caller env h = Some (tg_organization_id t)"
    "\<exists>org. get_current_org env h db = Inr org"
proof -
  from assms obtain org where org: "get_current_org env h db = Inr org"
    unfolding get_owned_target_def bind_res_Inr_iff by blast
  with assms have "get_target i db = Some t \<and> tg_organization_id t = org_id org"
    unfolding get_owned_target_def by (simp split: option.splits if_splits)
  then show "t \<in> set (db_targets db)" "tg_id t = i" "caller env h = Some (tg_organization_id t)"
    "\<exists>org. get_current_org env h db = Inr org"
    using get_current_orgD(1) [OF org] org find_SomeD [of "\<lambda>t. tg_id t = i" "db_targets db" t]
    by (simp_all add: get_target_def)
qed

subsection \<open>Reads\<close>

lemma current_org_tenant:
  "caller env h = Some a \<Longrightarrow> get_current_org env h (tenant_db a db) = get_current_org env h db"
proof -
  assume a: "caller env h = Some a"
  have "get_org a (tenant_db a db) = get_org a db"
    by (simp add: get_org_def tenant_db_def find_filter)
  with a show ?thesis
    by (auto simp: get_current_org_def caller_def split: option.splits if_splits)
qed


lemma owned_target_tenant:
  assumes "db_ok db" and "caller env h = Some a"
  shows "get_owned_target env h i (tenant_db a db) = get_owned_target env h i db"
proof (cases "get_current_org env h db")
  case (Inl x)
  then show ?thesis by (simp add: get_owned_target_def current_org_tenant [OF assms(2)])
next
  case (Inr org)
  with assms(2) get_current_orgD(1) have a: "org_id org = a" by fastforce
  have d: "distinct (map tg_id (db_targets db))" using assms(1) by (simp add: db_ok_def)
  then have d': "distinct (map tg_id (filter (\<lambda>t. tg_organization_id t = a) (db_targets db)))"
    by (rule distinct_map_filter)
  have "get_target i (tenant_db a db) =
      (case get_target i db of None \<Rightarrow> None | Some t \<Rightarrow> if tg_organization_id t = a then Some t else None)"
  proof (cases "get_target i (tenant_db a db)")
    case None
    then have "\<not> (t \<in> set (db_targets db) \<and> tg_organization_id t = a \<and> tg_id t = i)" for t
      by (auto simp: get_target_def tenant_db_def find_None_iff)
    then show ?thesis using None find_key [OF d]
      by (auto simp: get_target_def split: option.splits)
  next
    case (Some t)
    then have "t \<in> set (db_targets db) \<and> tg_organization_id t = a \<and> tg_id t = i"
      using find_key [OF d'] by (auto simp: get_target_def tenant_db_def)
    moreover from this have "get_target i db = Some t" using find_key [OF d] by (auto simp: get_target_def)
    ultimately show ?thesis using Some by simp
  qed
  then show ?thesis
    by (auto simp: get_owned_target_def current_org_tenant [OF assms(2)] Inr a split: option.splits)
qed

lemma owned_target_ids:
  "get_owned_target env h i db = Inr t \<Longrightarrow> caller env h = Some a \<Longrightarrow> tg_id t \<in> target_ids a db"
  using get_owned_targetD [of env h i db t] by (auto simp: target_ids_def)

lemma joined_scans_concat:
  "joined_scans i a db =
     concat (map (\<lambda>s. map (\<lambda>t. s) (filter (\<lambda>t. sc_target_id s = tg_id t \<and> sc_id s = i \<and> tg_organization_id t = a) (db_targets db)))
       (db_scans db))"
proof -
  have "[s. t \<leftarrow> ts, sc_target_id s = tg_id t \<and> sc_id s = i \<and> tg_organization_id t = a] =
     map (\<lambda>t. s) (filter (\<lambda>t. sc_target_id s = tg_id t \<and> sc_id s = i \<and> tg_organization_id t = a) ts)" for s :: scan_row and ts
    by (induction ts) auto
  note inner = this
  show ?thesis unfolding joined_scans_def inner ..
qed

lemma joined_scansD:
  "s \<in> set (joined_scans i a db) \<Longrightarrow> sc_id s = i \<and> s \<in> set (db_scans db) \<and> sc_target_id s \<in> target_ids a db"
  by (auto simp: joined_scans_def target_ids_def)

lemma joined_scans_tenant: "joined_scans i a (tenant_db a db) = joined_scans i a db"
proof -
  let ?P = "\<lambda>s t. sc_target_id s = tg_id t \<and> sc_id s = i \<and> tg_organization_id t = a"
  have inner: "filter (?P s) (filter (\<lambda>t. tg_organization_id t = a) ts) = filter (?P s) ts" for s ts
    by (induction ts) auto
  have none: "sc_target_id s \<notin> target_ids a db \<Longrightarrow> filter (?P s) (db_targets db) = []" for s
    by (auto simp: target_ids_def filter_empty_conv)
  have "concat (map (\<lambda>s. map (\<lambda>t. s) (filter (?P s) (db_targets db))) (filter (\<lambda>s. sc_target_id s \<in> target_ids a db) ss)) =
        concat (map (\<lambda>s. map (\<lambda>t. s) (filter (?P s) (db_targets db))) ss)" for ss
    by (induction ss) (simp_all add: none)
  then show ?thesis by (simp add: joined_scans_concat tenant_db_def inner del: filter_filter)
qed

lemma owned_scan_tenant:
  "caller env h = Some a \<Longrightarrow> owned_scan env h s (tenant_db a db) = owned_scan env h s db"
proof -
  assume a: "caller env h = Some a"
  show ?thesis
  proof (cases "get_current_org env h db")
    case (Inl x)
    then show ?thesis by (simp add: owned_scan_def current_org_tenant [OF a])
  next
    case (Inr org)
    with a get_current_orgD(1) have "org_id org = a" by fastforce
    with Inr show ?thesis by (simp add: owned_scan_def current_org_tenant [OF a] joined_scans_tenant)
  qed
qed

lemma owned_scanD:
  assumes "owned_scan env h s db = Inr sc" and "caller env h = Some a"
  shows "sc_id sc \<in> scan_ids a db" and "sc \<in> set (db_scans db)"
proof -
  obtain org i where org: "get_current_org env h db = Inr org" and one: "one_or_404 (joined_scans i (org_id org) db) = Inr sc"
    using assms(1) by (auto simp: owned_scan_def res_simps)
  have "org_id org = a" using get_current_orgD(1) [OF org] assms(2) by simp
  moreover have "sc \<in> set (joined_scans i (org_id org) db)"
    using one by (auto simp: one_or_404_def split: list.splits)
  ultimately show "sc_id sc \<in> scan_ids a db" "sc \<in> set (db_scans db)"
    using joined_scansD [of sc i a db] by (auto simp: scan_ids_def)
qed

lemma filter_tenant: "i \<in> S \<Longrightarrow> filter (\<lambda>x. f x = i) (filter (\<lambda>x. f x \<in> S) xs) = filter (\<lambda>x. f x = i) xs"
  by (induction xs) auto

lemma phases_tenant: "i \<in> scan_ids a db \<Longrightarrow> phases_of i (tenant_db a db) = phases_of i db"
  by (simp add: phases_of_def tenant_db_def filter_tenant del: filter_filter)


text \<open>With the dependencies resolved alike, a handler that reads rows of the target reads them from the tenant's part.\<close>

lemma target_rows_tenant:
  assumes "i \<in> target_ids a db"
  shows "filter (\<lambda>r. sr_target_id r = i) (db_scope_rules (tenant_db a db)) = filter (\<lambda>r. sr_target_id r = i) (db_scope_rules db)"
    and "filter (\<lambda>p. pe_target_id p = i) (db_personas (tenant_db a db)) = filter (\<lambda>p. pe_target_id p = i) (db_personas db)"
    and "map (\<lambda>s. scan_out_of s (phases_of (sc_id s) (tenant_db a db))) (filter (\<lambda>s. sc_target_id s = i) (db_scans (tenant_db a db))) =
         map (\<lambda>s. scan_out_of s (phases_of (sc_id s) db)) (filter (\<lambda>s. sc_target_id s = i) (db_scans db))"
proof -
  show "filter (\<lambda>r. sr_target_id r = i) (db_scope_rules (tenant_db a db)) = filter (\<lambda>r. sr_target_id r = i) (db_scope_rules db)"
    "filter (\<lambda>p. pe_target_id p = i) (db_personas (tenant_db a db)) = filter (\<lambda>p. pe_target_id p = i) (db_personas db)"
    using assms by (simp_all add: tenant_db_def filter_tenant del: filter_filter)
  have "filter (\<lambda>s. sc_target_id s = i) (db_scans (tenant_db a db)) = filter (\<lambda>s. sc_target_id s = i) (db_scans db)"
    using assms by (simp add: tenant_db_def filter_tenant del: filter_filter)
  moreover have "phases_of (sc_id s) (tenant_db a db) = phases_of (sc_id s) db"
    if "s \<in> set (filter (\<lambda>s. sc_target_id s = i) (db_scans db))" for s
    using that assms by (intro phases_tenant) (auto simp: scan_ids_def)
  ultimately show "map (\<lambda>s. scan_out_of s (phases_of (sc_id s) (tenant_db a db))) (filter (\<lambda>s. sc_target_id s = i) (db_scans (tenant_db a db))) =
         map (\<lambda>s. scan_out_of s (phases_of (sc_id s) db)) (filter (\<lambda>s. sc_target_id s = i) (db_scans db))"
    by (auto intro: map_cong)
qed

lemma findings_tenant:
  assumes "i \<in> scan_ids a db"
  shows "map (\<lambda>f. finding_out_of f (db_verifications (tenant_db a db) (fi_id f))) (filter (\<lambda>f. fi_scan_id f = i) (db_findings (tenant_db a db))) =
         map (\<lambda>f. finding_out_of f (db_verifications db (fi_id f))) (filter (\<lambda>f. fi_scan_id f = i) (db_findings db))"
proof -
  have "filter (\<lambda>f. fi_scan_id f = i) (db_findings (tenant_db a db)) = filter (\<lambda>f. fi_scan_id f = i) (db_findings db)"
    using assms by (simp add: tenant_db_def filter_tenant del: filter_filter)
  moreover have "db_verifications (tenant_db a db) (fi_id f) = db_verifications db (fi_id f)"
    if "f \<in> set (filter (\<lambda>f. fi_scan_id f = i) (db_findings db))" for f
    using that assms by (auto simp: tenant_db_def finding_ids_def)
  ultimately show ?thesis by (auto intro: map_cong)
qed

lemma tenant_targets: "db_targets (tenant_db a db) = filter (\<lambda>t. tg_organization_id t = a) (db_targets db)"
  by (simp add: tenant_db_def)

lemma fst_handled_cong:
  "r = r' \<Longrightarrow> (\<And>a. r' = Inr a \<Longrightarrow> fst (f a) = fst (f' a)) \<Longrightarrow> fst (handled r w f) = fst (handled r' w' f')"
  by (auto simp: handled_def split: sum.splits)

lemma new_scan_phases:
  assumes "db_ok db"
  shows "phases_of (db_next db) (db\<lparr>db_scans := ss, db_next := n\<rparr>) = []"
  using assms by (auto simp: phases_of_def db_ok_def filter_empty_conv)

lemma tenant_db_next [simp]: "db_next (tenant_db a db) = db_next db"
  by (simp add: tenant_db_def)

lemma tenant_phases_bound: "db_ok db \<Longrightarrow> phases_of (db_next db) ((tenant_db a db)\<lparr>db_scans := ss, db_next := n\<rparr>) = []"
  by (auto simp: phases_of_def db_ok_def tenant_db_def filter_empty_conv)

lemma add_credential_reply:
  assumes "\<And>c d d'. db_next d = db_next d' \<Longrightarrow> fst (f (c, d)) = fst (f' (c, d'))" and "db_next db = db_next db'"
  shows "fst (handled (server_res (add_credential env crypto org cr db)) w f) =
         fst (handled (server_res (add_credential env crypto org cr db')) w' f')"
proof (cases cr)
  case None
  then show ?thesis using assms by (simp add: add_credential_def server_res_def handled_def)
next
  case (Some ks)
  obtain kind secret where ks: "ks = (kind, secret)" by (cases ks)
  show ?thesis
    using assms by (cases "encrypt_secret env crypto org secret") (simp_all add: Some ks add_credential_def server_res_def handled_def)
qed


section \<open>What a request can do\<close>

text \<open>A persona that no worker has logged in.\<close>

definition fresh_session :: "persona_row \<Rightarrow> bool" where
  "fresh_session p \<longleftrightarrow> pe_session_state_ciphertext p = None \<and> pe_session_state_updated_at p = None \<and>
     pe_session_oracle p = None \<and> pe_unavailable_reason p = None"

text \<open>
  The effects of a request on the database, one rule per handler that writes. The invariants and the
  isolation of the tenants are proved by cases on them.
\<close>

inductive api_effect :: "api_env \<Rightarrow> uid option \<Rightarrow> api_request \<Rightarrow> database \<Rightarrow> database \<Rightarrow> bool"
  for env c where
  eff_none: "api_effect env c r db db"
| eff_org: "org_id org = db_next db \<Longrightarrow>
     api_effect env c (Create_Organization nm slug) db (db\<lparr>db_orgs := db_orgs db @ [org], db_next := Suc (db_next db)\<rparr>)"
| eff_target: "c = Some (tg_organization_id t) \<Longrightarrow> tg_organization_id t \<in> org_id ` set (db_orgs db) \<Longrightarrow>
     tg_id t = db_next db \<Longrightarrow> \<not> tg_ownership_verified t \<Longrightarrow> \<not> tg_authorization_accepted t \<Longrightarrow> tg_verification_token t = None \<Longrightarrow>
     api_effect env c (Create_Target d nm p) db (db\<lparr>db_targets := db_targets db @ [t], db_next := Suc (db_next db)\<rparr>)"
| eff_challenge: "t \<in> set (db_targets db) \<Longrightarrow> c = Some (tg_organization_id t) \<Longrightarrow>
     api_effect env c (Ownership_Challenge (tg_id t) m) db
       (update_target (tg_id t) (\<lambda>t. t\<lparr>tg_verification_method := Some m,
          tg_verification_token := Some (generate_verification_token (api_token_hex env)),
          tg_ownership_verified := False, tg_verified_at := None\<rparr>) db)"
| eff_verify: "t \<in> set (db_targets db) \<Longrightarrow> c = Some (tg_organization_id t) \<Longrightarrow>
     tg_verification_method t = Some m \<Longrightarrow> tg_verification_token t = Some tok \<Longrightarrow>
     verify_ownership (api_net env) m (tg_root_domain t) tok = Inr vr \<Longrightarrow>
     api_effect env c (Ownership_Verify (tg_id t)) db
       (update_target (tg_id t) (\<lambda>t. t\<lparr>tg_ownership_verified := vr_verified vr, tg_verified_at := v\<rparr>) db)"
| eff_accept: "t \<in> set (db_targets db) \<Longrightarrow> c = Some (tg_organization_id t) \<Longrightarrow>
     api_effect env c (Authorization (tg_id t) True) db
       (update_target (tg_id t) (\<lambda>t. t\<lparr>tg_authorization_accepted := True, tg_authorization_accepted_at := v\<rparr>) db)"
| eff_rule: "t \<in> set (db_targets db) \<Longrightarrow> c = Some (tg_organization_id t) \<Longrightarrow> sr_target_id row = tg_id t \<Longrightarrow>
     api_effect env c r db (db\<lparr>db_scope_rules := db_scope_rules db @ [row], db_next := Suc (db_next db)\<rparr>)"
| eff_persona: "t \<in> set (db_targets db) \<Longrightarrow> c = Some (tg_organization_id t) \<Longrightarrow> pe_target_id p = tg_id t \<Longrightarrow>
     pe_credential_id p = None \<Longrightarrow> fresh_session p \<Longrightarrow>
     api_effect env c r db (db\<lparr>db_personas := db_personas db @ [p], db_next := Suc (db_next db)\<rparr>)"
| eff_secret: "t \<in> set (db_targets db) \<Longrightarrow> c = Some (tg_organization_id t) \<Longrightarrow> pe_target_id p = tg_id t \<Longrightarrow>
     pe_credential_id p = Some (db_next db) \<Longrightarrow> cred_id cr = db_next db \<Longrightarrow> fresh_session p \<Longrightarrow>
     api_effect env c r db (db\<lparr>db_credentials := db_credentials db @ [cr], db_personas := db_personas db @ [p],
       db_next := Suc (Suc (db_next db))\<rparr>)"
| eff_scan: "t \<in> set (db_targets db) \<Longrightarrow> c = Some (tg_organization_id t) \<Longrightarrow> is_scannable t \<Longrightarrow>
     sc_target_id s = tg_id t \<Longrightarrow> sc_id s = db_next db \<Longrightarrow>
     api_effect env c (Create_Scan (tg_id t) who) db (db\<lparr>db_scans := db_scans db @ [s], db_next := Suc (db_next db)\<rparr>)"

lemma handled_cases:
  "P w \<Longrightarrow> (\<And>a. r = Inr a \<Longrightarrow> P (snd (f a))) \<Longrightarrow> P (snd (handled r w f))"
  by (auto simp: handled_def split: sum.splits)

lemma serve_org: "api_effect env (caller env h) (Create_Organization nm slug) (aw_db w) (aw_db (snd (create_organization env nm slug w)))"
  unfolding create_organization_def
  by (rule handled_cases) (auto simp: Let_def intro: eff_none eff_org)

lemma serve_target: "api_effect env (caller env h) (Create_Target d nm p) (aw_db w) (aw_db (snd (create_target env h d nm p w)))"
  unfolding create_target_def
  by (rule handled_cases) (auto simp: Let_def intro!: eff_none eff_target dest: get_current_orgD)

lemma serve_challenge: "api_effect env (caller env h) (Ownership_Challenge i m) (aw_db w) (aw_db (snd (create_ownership_challenge env h i m w)))"
  unfolding create_ownership_challenge_def
proof (rule handled_cases)
  fix t
  assume t: "get_owned_target env h i (aw_db w) = Inr t"
  show "api_effect env (caller env h) (Ownership_Challenge i m) (aw_db w)
      (aw_db (snd (let token = generate_verification_token (api_token_hex env)
       in (Inr (R_Challenge \<lparr>oc_method = m, oc_token = token, oc_instructions = INSTRUCTIONS m (tg_root_domain t)\<rparr>),
           w\<lparr>aw_db := update_target (tg_id t) (\<lambda>t. t\<lparr>tg_verification_method := Some m,
                tg_verification_token := Some token, tg_ownership_verified := False, tg_verified_at := None\<rparr>) (aw_db w)\<rparr>))))"
    using eff_challenge [OF get_owned_targetD(1,3) [OF t], of env m] get_owned_targetD(2) [OF t] by (simp add: Let_def)
qed (rule eff_none)

lemma serve_verify: "api_effect env (caller env h) (Ownership_Verify i) (aw_db w) (aw_db (snd (run_ownership_verification env h i w)))"
proof (cases "get_owned_target env h i (aw_db w)")
  case (Inl x)
  then show ?thesis by (simp add: run_ownership_verification_def handled_def eff_none)
next
  case (Inr t)
  note own = get_owned_targetD [OF Inr]
  show ?thesis
  proof (cases "\<exists>m c cs r. tg_verification_method t = Some m \<and> tg_verification_token t = Some (c # cs) \<and>
      verify_ownership (api_net env) m (tg_root_domain t) (c # cs) = Inr r")
    case True
    then obtain m c cs r where v: "tg_verification_method t = Some m" "tg_verification_token t = Some (c # cs)"
      "verify_ownership (api_net env) m (tg_root_domain t) (c # cs) = Inr r" by blast
    show ?thesis
      using eff_verify [OF own(1,3) v] own(2) by (simp add: run_ownership_verification_def Inr handled_def v server_res_def)
  next
    case False
    then have "aw_db (snd (run_ownership_verification env h i w)) = aw_db w"
      unfolding run_ownership_verification_def handled_def Inr sum.case
      by (cases "tg_verification_method t"; cases "tg_verification_token t")
        (simp_all add: server_res_def split: list.split sum.split)
    then show ?thesis by (simp add: eff_none)
  qed
qed

lemma serve_accept: "api_effect env (caller env h) (Authorization i b) (aw_db w) (aw_db (snd (accept_authorization env h i b w)))"
  unfolding accept_authorization_def
proof (rule handled_cases)
  fix t
  assume t: "get_owned_target env h i (aw_db w) = Inr t"
  note eff = eff_accept [OF get_owned_targetD(1,3) [OF t], of env "Some (api_now env)", unfolded get_owned_targetD(2) [OF t]]
  show "api_effect env (caller env h) (Authorization i b) (aw_db w)
      (aw_db (snd (if \<not> b then (Inl (Http_Exception 400 ''Authorization must be explicitly accepted.''), w)
       else
         let accept = (\<lambda>t. t\<lparr>tg_authorization_accepted := True, tg_authorization_accepted_at := Some (api_now env)\<rparr>)
         in (Inr (R_Target (target_out_of (accept t))),
             w\<lparr>aw_db := update_target (tg_id t) accept (aw_db w)\<rparr>))))"
    using eff eff_none by (simp add: Let_def get_owned_targetD(2) [OF t])
qed (rule eff_none)

lemma serve_rule: "api_effect env (caller env h) r (aw_db w) (aw_db (snd (create_scope_rule env h i rule w)))"
  unfolding create_scope_rule_def
  by (rule handled_cases) (auto simp: Let_def intro!: eff_none eff_rule dest: get_owned_targetD)

lemma add_credentialE:
  assumes "add_credential env crypto org cr db = Inr (c, db')"
  obtains "c = None" "db' = db"
  | row where "c = Some (db_next db)" "cred_id row = db_next db"
      "db' = db\<lparr>db_credentials := db_credentials db @ [row], db_next := Suc (db_next db)\<rparr>"
proof (cases cr)
  case None
  with assms that(1) show thesis by (simp add: add_credential_def)
next
  case (Some ks)
  obtain kind secret where ks: "ks = (kind, secret)" by (cases ks)
  from assms obtain e where "encrypt_secret env crypto org secret = Inr e"
    by (auto simp: add_credential_def Some ks bind_res_Inr_iff)
  with assms have "c = Some (db_next db)"
    "db' = db\<lparr>db_credentials := db_credentials db @ [\<lparr>cred_id = db_next db, cred_kind = kind, cred_ciphertext = e\<rparr>],
       db_next := Suc (db_next db)\<rparr>"
    by (simp_all add: add_credential_def Some ks)
  then show thesis by (intro that(2)) simp_all
qed

lemma serve_persona: "api_effect env (caller env h) r (aw_db w) (aw_db (snd (create_persona env h i p w)))"
proof (cases "\<exists>t org crypto cd. get_owned_target env h i (aw_db w) = Inr t \<and> get_current_org env h (aw_db w) = Inr org \<and>
    get_crypto env = Inr crypto \<and> add_credential env crypto org (pc_credential p) (aw_db w) = Inr cd")
  case False
  then have "aw_db (snd (create_persona env h i p w)) = aw_db w"
    unfolding create_persona_def by (auto simp: handled_def server_res_def split: sum.splits)
  then show ?thesis by (simp add: eff_none)
next
  case True
  then obtain t org crypto c db where ok: "get_owned_target env h i (aw_db w) = Inr t" "get_current_org env h (aw_db w) = Inr org"
    "get_crypto env = Inr crypto" and cr: "add_credential env crypto org (pc_credential p) (aw_db w) = Inr (c, db)" by auto
  note own = get_owned_targetD(1,3) [OF ok(1)]
  from cr show ?thesis
  proof (cases rule: add_credentialE)
    case 1
    show ?thesis unfolding create_persona_def handled_def ok cr server_res_def sum.case prod.case Let_def
      by (simp add: 1 eff_persona [OF own] fresh_session_def)
  next
    case (2 row)
    show ?thesis unfolding create_persona_def handled_def ok cr server_res_def sum.case prod.case Let_def
      by (simp add: 2 eff_secret [OF own] fresh_session_def)
  qed
qed

lemma serve_scan: "api_effect env (caller env h) (Create_Scan i s) (aw_db w) (aw_db (snd (create_scan env h i s w)))"
  unfolding create_scan_def
proof (rule handled_cases)
  fix t
  assume t: "get_owned_target env h i (aw_db w) = Inr t"
  note eff = eff_scan [OF get_owned_targetD(1,3) [OF t]]
  show "api_effect env (caller env h) (Create_Scan i s) (aw_db w)
     (aw_db (snd (if \<not> is_scannable t then (Inl (Http_Exception 403 not_scannable_text), w)
       else
         let db = aw_db w;
             scan = \<lparr>sc_id = db_next db, sc_target_id = tg_id t, sc_triggered_by = s, sc_state = QUEUED,
                     sc_paused_from = None, sc_fail_reason = None, sc_is_degraded = False, sc_degraded_reasons = [],
                     sc_started_at = None, sc_finished_at = None, sc_llm_token_budget = 200000, sc_llm_tokens_used = 0\<rparr>;
             committed = w\<lparr>aw_db := db\<lparr>db_scans := db_scans db @ [scan], db_next := db_next db + 1\<rparr>\<rparr>
         in (Inr (R_Scan (scan_out_of scan (phases_of (sc_id scan) (aw_db committed)))),
             snd (dispatch_scan env (sc_id scan) committed)))))"
    using get_owned_targetD(2) [OF t] by (auto simp: Let_def dispatch_scan_def intro: eff_none eff)
qed (rule eff_none)

lemma serve_effect: "api_effect env (caller env h) r (aw_db w) (aw_db (snd (serve env h r w)))"
proof (cases r)
  case (Create_Scan i s)
  then show ?thesis by (simp add: serve_def serve_scan)
next
  case (Create_Persona i p)
  then show ?thesis by (simp add: serve_def serve_persona)
next
  case (Ownership_Verify i)
  then show ?thesis by (simp add: serve_def serve_verify)
next
  case (Ownership_Challenge i m)
  then show ?thesis by (simp add: serve_def serve_challenge)
next
  case (Authorization i b)
  then show ?thesis by (simp add: serve_def serve_accept)
next
  case (Create_Scope_Rule i rule)
  then show ?thesis by (simp add: serve_def serve_rule)
qed (simp_all add: serve_def serve_org serve_target get_my_organization_def list_targets_def read_target_def list_scope_rules_def
    list_personas_def list_scans_def read_scan_def list_findings_def handled_def eff_none split: sum.splits)


section \<open>Keys and isolation\<close>

lemma update_target_ids: "(\<And>t. tg_id (f t) = tg_id t) \<Longrightarrow> map tg_id (db_targets (update_target i f db)) = map tg_id (db_targets db)"
  by (simp add: update_target_def)

lemma update_target_sel [simp]:
  "db_orgs (update_target i f db) = db_orgs db" "db_scans (update_target i f db) = db_scans db"
  "db_personas (update_target i f db) = db_personas db" "db_scope_rules (update_target i f db) = db_scope_rules db"
  "db_phases (update_target i f db) = db_phases db" "db_next (update_target i f db) = db_next db"
  "db_credentials (update_target i f db) = db_credentials db" "db_assets (update_target i f db) = db_assets db"
  "db_endpoints (update_target i f db) = db_endpoints db" "db_findings (update_target i f db) = db_findings db"
  "db_verifications (update_target i f db) = db_verifications db"
  by (simp_all add: update_target_def)

lemma db_ok_update_target:
  assumes "db_ok db" and "\<And>t. tg_id (f t) = tg_id t" and "\<And>t. tg_organization_id (f t) = tg_organization_id t"
  shows "db_ok (update_target i f db)"
proof -
  have "\<forall>t\<in>set (db_targets (update_target i f db)). tg_id t < db_next db \<and> tg_organization_id t < db_next db"
    using assms by (auto simp: update_target_def db_ok_def)
  with assms(1) show ?thesis
    unfolding db_ok_def update_target_ids [OF assms(2)] update_target_sel by blast
qed

lemma api_effect_db_ok: "api_effect env c r db db' \<Longrightarrow> db_ok db \<Longrightarrow> db_ok db'"
proof (induction rule: api_effect.induct)
  case (eff_org org db nm slug)
  then show ?case by (auto simp: db_ok_def)
next
  case (eff_target t db d nm p)
  then show ?case by (auto simp: db_ok_def)
next
  case (eff_rule t db row r)
  then show ?case by (auto simp: db_ok_def)
next
  case (eff_persona t db p r)
  then show ?case by (auto simp: db_ok_def)
next
  case (eff_secret t db p cr r)
  then show ?case by (auto simp: db_ok_def)
next
  case (eff_scan t db s who)
  then show ?case by (auto simp: db_ok_def)
qed (auto intro!: db_ok_update_target)

interpretation api_keys: invariant_system "\<lambda>w. aw_db w = empty_database" "\<lambda>w w'. \<exists>env h r. w' = snd (serve env h r w)" "\<lambda>w. db_ok (aw_db w)"
proof
  fix s :: api_world
  assume "aw_db s = empty_database"
  then show "db_ok (aw_db s)" by (simp add: db_ok_def empty_database_def)
next
  fix s t :: api_world
  assume "db_ok (aw_db s)" "\<exists>env h r. t = snd (serve env h r s)"
  then show "db_ok (aw_db t)" using api_effect_db_ok serve_effect by blast
qed

text \<open>The rows of a tenant without the counter.\<close>

definition tenant_rows :: "uid \<Rightarrow> database \<Rightarrow> database" where
  "tenant_rows a db = (tenant_db a db)\<lparr>db_next := 0\<rparr>"

lemma other_target_id:
  assumes "db_ok db" and "t \<in> set (db_targets db)" and "tg_organization_id t \<noteq> b"
  shows "tg_id t \<notin> target_ids b db"
proof
  assume "tg_id t \<in> target_ids b db"
  then obtain t' where "t' \<in> set (db_targets db)" "tg_organization_id t' = b" "tg_id t' = tg_id t"
    by (auto simp: target_ids_def)
  with assms show False by (auto simp: db_ok_def distinct_map dest: inj_onD)
qed

lemma tenant_rows_cong:
  assumes "target_ids b db' = target_ids b db" and "scan_ids b db' = scan_ids b db" and "credential_ids b db' = credential_ids b db"
    and "db_assets db' = db_assets db" "db_findings db' = db_findings db" "db_phases db' = db_phases db"
      "db_endpoints db' = db_endpoints db" "db_verifications db' = db_verifications db"
    and "filter (\<lambda>r. org_id r = b) (db_orgs db') = filter (\<lambda>r. org_id r = b) (db_orgs db)"
    and "filter (\<lambda>t. tg_organization_id t = b) (db_targets db') = filter (\<lambda>t. tg_organization_id t = b) (db_targets db)"
    and "filter (\<lambda>r. sr_target_id r \<in> target_ids b db) (db_scope_rules db') = filter (\<lambda>r. sr_target_id r \<in> target_ids b db) (db_scope_rules db)"
    and "filter (\<lambda>c. cred_id c \<in> credential_ids b db) (db_credentials db') = filter (\<lambda>c. cred_id c \<in> credential_ids b db) (db_credentials db)"
    and "filter (\<lambda>p. pe_target_id p \<in> target_ids b db) (db_personas db') = filter (\<lambda>p. pe_target_id p \<in> target_ids b db) (db_personas db)"
    and "filter (\<lambda>s. sc_target_id s \<in> target_ids b db) (db_scans db') = filter (\<lambda>s. sc_target_id s \<in> target_ids b db) (db_scans db)"
  shows "tenant_rows b db' = tenant_rows b db"
proof -
  have "asset_ids b db' = asset_ids b db" "finding_ids b db' = finding_ids b db"
    by (simp_all add: asset_ids_def finding_ids_def assms(2,4,5))
  then show ?thesis unfolding tenant_rows_def tenant_db_def by (intro database.equality) (simp_all add: assms cong: if_cong)
qed

lemma tenant_rows_update:
  assumes "db_ok db" and "t \<in> set (db_targets db)" and "tg_organization_id t \<noteq> b"
    and "\<And>t. tg_id (f t) = tg_id t" and "\<And>t. tg_organization_id (f t) = tg_organization_id t"
  shows "tenant_rows b (update_target (tg_id t) f db) = tenant_rows b db"
proof -
  let ?g = "\<lambda>x. if tg_id x = tg_id t then f x else x"
  have other: "\<forall>x\<in>set (db_targets db). tg_id x = tg_id t \<longrightarrow> tg_organization_id x \<noteq> b"
  proof (intro ballI impI notI)
    fix x
    assume "x \<in> set (db_targets db)" "tg_id x = tg_id t" "tg_organization_id x = b"
    then have "tg_id t \<in> target_ids b db" by (auto simp: target_ids_def intro!: rev_image_eqI)
    with other_target_id [OF assms(1-3)] show False ..
  qed
  have "filter (\<lambda>t. tg_organization_id t = b) (map ?g ts) = filter (\<lambda>t. tg_organization_id t = b) ts"
    if "\<forall>x\<in>set ts. tg_id x = tg_id t \<longrightarrow> tg_organization_id x \<noteq> b" for ts
    using that by (induction ts) (auto simp: assms(5))
  note same = this [OF other]
  have "target_ids b (update_target (tg_id t) f db) = tg_id ` set (filter (\<lambda>t. tg_organization_id t = b) (map ?g (db_targets db)))"
    by (simp add: target_ids_def update_target_def)
  then have ids: "target_ids b (update_target (tg_id t) f db) = target_ids b db"
    unfolding same by (simp add: target_ids_def)
  have "scan_ids b (update_target (tg_id t) f db) = scan_ids b db" "credential_ids b (update_target (tg_id t) f db) = credential_ids b db"
    unfolding scan_ids_def credential_ids_def ids by simp_all
  moreover have "filter (\<lambda>t. tg_organization_id t = b) (db_targets (update_target (tg_id t) f db)) =
      filter (\<lambda>t. tg_organization_id t = b) (db_targets db)"
    using same by (simp add: update_target_def)
  ultimately show ?thesis using ids by (intro tenant_rows_cong) simp_all
qed

lemma api_effect_other_tenant:
  "api_effect env c r db db' \<Longrightarrow> db_ok db \<Longrightarrow> c \<noteq> Some b \<Longrightarrow> b < db_next db \<Longrightarrow> tenant_rows b db' = tenant_rows b db"
proof (induction rule: api_effect.induct)
  case (eff_org org db nm slug)
  then show ?case by (intro tenant_rows_cong) (simp_all add: target_ids_def scan_ids_def credential_ids_def)
next
  case (eff_target t db d nm p)
  have "tg_organization_id t \<noteq> b" using eff_target by auto
  then have "target_ids b (db\<lparr>db_targets := db_targets db @ [t], db_next := Suc (db_next db)\<rparr>) = target_ids b db"
    by (auto simp: target_ids_def)
  with \<open>tg_organization_id t \<noteq> b\<close> show ?case by (intro tenant_rows_cong) (simp_all add: scan_ids_def credential_ids_def)
next
  case (eff_rule t db row r)
  have "tg_id t \<notin> target_ids b db" using eff_rule by (intro other_target_id) auto
  with eff_rule show ?case by (intro tenant_rows_cong) (simp_all add: target_ids_def scan_ids_def credential_ids_def)
next
  case (eff_persona t db p r)
  have no: "tg_id t \<notin> target_ids b db" using eff_persona by (intro other_target_id) auto
  let ?db = "db\<lparr>db_personas := db_personas db @ [p], db_next := Suc (db_next db)\<rparr>"
  have ids: "target_ids b ?db = target_ids b db" by (simp add: target_ids_def)
  then have "credential_ids b ?db = credential_ids b db" using no eff_persona unfolding credential_ids_def by simp
  with ids no eff_persona show ?case by (intro tenant_rows_cong) (simp_all add: scan_ids_def)
next
  case (eff_secret t db p cr r)
  have no: "tg_id t \<notin> target_ids b db" using eff_secret by (intro other_target_id) auto
  let ?db = "db\<lparr>db_credentials := db_credentials db @ [cr], db_personas := db_personas db @ [p], db_next := Suc (Suc (db_next db))\<rparr>"
  have ids: "target_ids b ?db = target_ids b db" by (simp add: target_ids_def)
  then have "credential_ids b ?db = credential_ids b db" using no eff_secret unfolding credential_ids_def by simp
  moreover have "cred_id cr \<notin> credential_ids b db"
    using eff_secret by (auto simp: credential_ids_def db_ok_def)
  ultimately show ?case using ids no eff_secret by (intro tenant_rows_cong) (simp_all add: scan_ids_def)
next
  case (eff_scan t db s who)
  have no: "tg_id t \<notin> target_ids b db" using eff_scan by (intro other_target_id) auto
  let ?db = "db\<lparr>db_scans := db_scans db @ [s], db_next := Suc (db_next db)\<rparr>"
  have ids: "target_ids b ?db = target_ids b db" by (simp add: target_ids_def)
  then have "scan_ids b ?db = scan_ids b db" using no eff_scan unfolding scan_ids_def by auto
  with ids no eff_scan show ?case by (intro tenant_rows_cong) (simp_all add: credential_ids_def)
qed (auto intro!: tenant_rows_update)


section \<open>Properties\<close>

lemma served_db_ok: "db_ok (aw_db w) \<Longrightarrow> db_ok (aw_db (served steps w))"
proof (induction steps arbitrary: w)
  case (Cons x steps)
  obtain env h r where x: "x = (env, h, r)" by (cases x)
  have "db_ok (aw_db (snd (serve env h r w)))" using api_keys.inv_step Cons.prems by blast
  from Cons.IH [OF this] show ?case by (simp add: served_def x)
qed (simp add: served_def)

lemma demo_db_ok: "db_ok (aw_db (served demo_steps demo_api_world))"
  using api_keys.inv_init [of demo_api_world] by (intro served_db_ok) (simp add: demo_api_world_def)



text \<open>
  C9. No request changes another customer's rows: whatever a request of one organization does, and
  whatever happens while it is handled, the targets, rules, personas, credentials, scans, phases,
  assets, endpoints and findings of every other organization that exists are exactly what they were.
\<close>

theorem other_tenants_untouched:
  assumes "db_ok (aw_db w)" and "caller env h \<noteq> Some b" and "b \<in> org_id ` set (db_orgs (aw_db w))"
  shows "tenant_rows b (aw_db (snd (serve env h r w))) = tenant_rows b (aw_db w)"
  using assms api_effect_other_tenant [OF serve_effect [of env h r w]] by (auto simp: db_ok_def)

theorem other_tenants_untouched_witness:
  "tenant_rows 0 (aw_db (snd (serve demo_api_env (Some ''b'') (Authorization 2 True) (served demo_steps demo_api_world)))) =
     tenant_rows 0 (aw_db (served demo_steps demo_api_world))"
proof (rule other_tenants_untouched [OF demo_db_ok])
  show "caller demo_api_env (Some ''b'') \<noteq> Some 0" by (simp add: caller_def demo_api_env_def)
  have "0 \<in> set (map org_id (db_orgs (aw_db (served demo_steps demo_api_world))))"
    using demo_served by (simp add: Let_def)
  then show "0 \<in> org_id ` set (db_orgs (aw_db (served demo_steps demo_api_world)))" by simp
qed

end
