(* ===== verification/Api_History.thy ===== *)
theory Api_History
  imports Api_Isolation
begin

text \<open>
  What the flags of a target stand for: the requests that led to them. A target is scannable only after
  a challenge, a check that found the issued token published at the target's domain, and the
  acceptance of the authorization, all by the organization of the target.
\<close>

section \<open>No scan without proof of ownership\<close>

text \<open>A token that an earlier challenge for the target, made by the organization of the target, gave out.\<close>

definition issued :: "api_step list \<Rightarrow> target \<Rightarrow> ownership_method \<Rightarrow> string \<Rightarrow> bool" where
  "issued steps t m tok \<longleftrightarrow> (\<exists>env h. (env, h, Ownership_Challenge (tg_id t) m) \<in> set steps \<and>
     caller env h = Some (tg_organization_id t) \<and> tok = generate_verification_token (api_token_hex env))"

text \<open>A check, asked for by that organization, that found an issued token published at the target's domain.\<close>

definition owner_proved :: "api_step list \<Rightarrow> target \<Rightarrow> bool" where
  "owner_proved steps t \<longleftrightarrow> (\<exists>pre env h rest m tok. steps = pre @ (env, h, Ownership_Verify (tg_id t)) # rest \<and>
     caller env h = Some (tg_organization_id t) \<and> issued pre t m tok \<and>
     token_published (api_net env) m (tg_root_domain t) tok)"

definition owner_authorized :: "api_step list \<Rightarrow> target \<Rightarrow> bool" where
  "owner_authorized steps t \<longleftrightarrow> (\<exists>env h. (env, h, Authorization (tg_id t) True) \<in> set steps \<and>
     caller env h = Some (tg_organization_id t))"

definition same_identity :: "target \<Rightarrow> target \<Rightarrow> bool" where
  "same_identity t t' \<longleftrightarrow> tg_id t' = tg_id t \<and> tg_organization_id t' = tg_organization_id t \<and> tg_root_domain t' = tg_root_domain t"

lemma history_mono:
  assumes "same_identity t t'"
  shows "issued steps t m tok \<Longrightarrow> issued (steps @ later) t' m tok"
    and "owner_proved steps t \<Longrightarrow> owner_proved (steps @ later) t'"
    and "owner_authorized steps t \<Longrightarrow> owner_authorized (steps @ later) t'"
proof -
  have i: "issued pre t m tok \<Longrightarrow> issued pre t' m tok" for pre m tok
    using assms by (simp add: issued_def same_identity_def)
  moreover have "issued steps t' m tok \<Longrightarrow> issued (steps @ later) t' m tok" by (auto simp: issued_def)
  ultimately show "issued steps t m tok \<Longrightarrow> issued (steps @ later) t' m tok" by blast
  show "owner_authorized steps t \<Longrightarrow> owner_authorized (steps @ later) t'"
    using assms by (auto simp: owner_authorized_def same_identity_def)
  assume "owner_proved steps t"
  then obtain pre env h rest m tok where "steps = pre @ (env, h, Ownership_Verify (tg_id t)) # rest"
    "caller env h = Some (tg_organization_id t)" "issued pre t m tok" "token_published (api_net env) m (tg_root_domain t) tok"
    unfolding owner_proved_def by blast
  with i assms have "steps @ later = pre @ (env, h, Ownership_Verify (tg_id t')) # (rest @ later) \<and>
     caller env h = Some (tg_organization_id t') \<and> issued pre t' m tok \<and> token_published (api_net env) m (tg_root_domain t') tok"
    by (simp add: same_identity_def)
  then show "owner_proved (steps @ later) t'" unfolding owner_proved_def by blast
qed

text \<open>What the flags and the token of a target row stand for.\<close>

definition row_backed :: "api_step list \<Rightarrow> target \<Rightarrow> bool" where
  "row_backed steps t \<longleftrightarrow>
     (\<forall>m tok. tg_verification_method t = Some m \<and> tg_verification_token t = Some tok \<longrightarrow> issued steps t m tok) \<and>
     (tg_ownership_verified t \<longrightarrow> owner_proved steps t) \<and>
     (tg_authorization_accepted t \<longrightarrow> owner_authorized steps t)"

definition scan_backed :: "api_step list \<Rightarrow> database \<Rightarrow> scan_row \<Rightarrow> bool" where
  "scan_backed steps db s \<longleftrightarrow>
     (\<exists>t\<in>set (db_targets db). tg_id t = sc_target_id s \<and> owner_proved steps t \<and> owner_authorized steps t)"

definition history_ok :: "api_step list \<Rightarrow> database \<Rightarrow> bool" where
  "history_ok steps db \<longleftrightarrow> db_ok db \<and> (\<forall>t\<in>set (db_targets db). row_backed steps t) \<and> (\<forall>s\<in>set (db_scans db). scan_backed steps db s)"

lemma row_backed_mono: "row_backed steps t \<Longrightarrow> row_backed (steps @ later) t"
  using history_mono [of t t] by (auto simp: row_backed_def same_identity_def)

lemma scan_backed_mono:
  assumes "scan_backed steps db s" and "\<And>t. t \<in> set (db_targets db) \<Longrightarrow> \<exists>t'\<in>set (db_targets db'). same_identity t t'"
  shows "scan_backed (steps @ later) db' s"
proof -
  obtain t where t: "t \<in> set (db_targets db)" "tg_id t = sc_target_id s" "owner_proved steps t" "owner_authorized steps t"
    using assms(1) unfolding scan_backed_def by blast
  obtain t' where t': "t' \<in> set (db_targets db')" "same_identity t t'" using assms(2) [OF t(1)] by blast
  from history_mono(2,3) [OF t'(2)] t t' show ?thesis
    unfolding scan_backed_def same_identity_def by metis
qed

text \<open>A step that leaves the scans alone and, of the targets, at most rewrites one row with its identity kept.\<close>

lemma history_update:
  assumes "history_ok steps db" and t: "t \<in> set (db_targets db)" and f: "\<And>x. same_identity x (f x)"
    and new: "row_backed steps t \<Longrightarrow> row_backed (steps @ [x]) (f t)"
  shows "history_ok (steps @ [x]) (update_target (tg_id t) f db)"
proof -
  have ok: "db_ok db" using assms(1) by (simp add: history_ok_def)
  then have "db_ok (update_target (tg_id t) f db)" using f by (intro db_ok_update_target) (simp_all add: same_identity_def)
  moreover have "row_backed (steps @ [x]) t'" if "t' \<in> set (db_targets (update_target (tg_id t) f db))" for t'
  proof -
    from that have "t' \<in> (\<lambda>u. if tg_id u = tg_id t then f u else u) ` set (db_targets db)" by (simp add: update_target_def)
    then obtain u where u: "u \<in> set (db_targets db)" "t' = (if tg_id u = tg_id t then f u else u)" by (elim imageE)
    show ?thesis
    proof (cases "tg_id u = tg_id t")
      case True
      with ok u t have "u = t" by (auto simp: db_ok_def distinct_map dest: inj_onD)
      with u new assms(1) t show ?thesis by (simp add: history_ok_def)
    next
      case False
      with u assms(1) show ?thesis by (simp add: history_ok_def row_backed_mono)
    qed
  qed
  moreover have "scan_backed (steps @ [x]) (update_target (tg_id t) f db) s" if "s \<in> set (db_scans (update_target (tg_id t) f db))" for s
  proof (rule scan_backed_mono)
    show "scan_backed steps db s" using that assms(1) by (simp add: history_ok_def)
    fix u
    assume "u \<in> set (db_targets db)"
    then show "\<exists>t'\<in>set (db_targets (update_target (tg_id t) f db)). same_identity u t'"
      by (intro bexI [of _ "if tg_id u = tg_id t then f u else u"]) (auto simp: update_target_def f, auto simp: same_identity_def)
  qed
  ultimately show ?thesis unfolding history_ok_def by blast
qed

text \<open>A step that adds rows and leaves those of the targets and scans alone.\<close>

lemma history_keep:
  assumes "history_ok steps db" and "db_ok db'" and "db_targets db' = db_targets db" and "db_scans db' = db_scans db"
  shows "history_ok (steps @ [x]) db'"
proof -
  have "scan_backed (steps @ [x]) db' s" if "s \<in> set (db_scans db)" for s
    using assms that by (intro scan_backed_mono [of _ db]) (auto simp: history_ok_def same_identity_def)
  with assms show ?thesis by (simp add: history_ok_def row_backed_mono)
qed

lemma history_effect:
  assumes "api_effect env c r db db'" and "c = caller env h" and "history_ok steps db"
  shows "history_ok (steps @ [(env, h, r)]) db'"
  using assms
proof (induction rule: api_effect.induct)
  case (eff_none r db)
  then show ?case by (intro history_keep) (auto simp: history_ok_def)
next
  case (eff_org org db nm slug)
  then show ?case
    using api_effect_db_ok [OF api_effect.eff_org [OF eff_org(1)]] by (intro history_keep [of _ db]) (auto simp: history_ok_def)
next
  case (eff_target t db d nm p)
  let ?db = "db\<lparr>db_targets := db_targets db @ [t], db_next := Suc (db_next db)\<rparr>"
  have "db_ok ?db" using eff_target api_effect_db_ok [OF api_effect.eff_target [OF eff_target(1-6)]] by (simp add: history_ok_def)
  moreover have "row_backed steps' t" for steps' using eff_target by (simp add: row_backed_def)
  moreover have "scan_backed (steps @ [x]) ?db s" if "s \<in> set (db_scans db)" for s x
    using eff_target that by (intro scan_backed_mono [of _ db]) (auto simp: history_ok_def same_identity_def)
  ultimately show ?case using eff_target by (auto simp: history_ok_def row_backed_mono)
next
  case (eff_challenge t db m)
  show ?case
  proof (rule history_update [of steps])
    assume "row_backed steps t"
    moreover have "same_identity t (t\<lparr>tg_verification_method := Some m,
       tg_verification_token := Some (generate_verification_token (api_token_hex env)), tg_ownership_verified := False, tg_verified_at := None\<rparr>)"
      by (simp add: same_identity_def)
    ultimately show "row_backed (steps @ [(env, h, Ownership_Challenge (tg_id t) m)]) (t\<lparr>tg_verification_method := Some m,
       tg_verification_token := Some (generate_verification_token (api_token_hex env)), tg_ownership_verified := False, tg_verified_at := None\<rparr>)"
      using eff_challenge(2,3) history_mono(3) by (auto simp: row_backed_def issued_def)
  qed (use eff_challenge in \<open>auto simp: same_identity_def\<close>)
next
  case (eff_verify t db m tok vr v)
  let ?u = "t\<lparr>tg_ownership_verified := vr_verified vr, tg_verified_at := v\<rparr>"
  show ?case
  proof (rule history_update [of steps])
    assume bk: "row_backed steps t"
    have id: "same_identity t ?u" by (simp add: same_identity_def)
    have "owner_proved (steps @ [(env, h, Ownership_Verify (tg_id t))]) ?u" if "vr_verified vr"
    proof -
      have "issued steps ?u m tok" using bk eff_verify(3,4) history_mono(1) [OF id, of steps m tok "[]"] by (simp add: row_backed_def)
      moreover have "token_published (api_net env) m (tg_root_domain ?u) tok"
        using verify_ownership_published [OF eff_verify(5) that] by simp
      ultimately show ?thesis
        unfolding owner_proved_def using eff_verify(2,6)
        by (intro exI [of _ steps] exI [of _ env] exI [of _ h] exI [of _ "[]"] exI [of _ m] exI [of _ tok]) simp
    qed
    with bk history_mono(1,3) [OF id] show "row_backed (steps @ [(env, h, Ownership_Verify (tg_id t))]) ?u"
      by (auto simp: row_backed_def)
  qed (use eff_verify in \<open>auto simp: same_identity_def\<close>)
next
  case (eff_accept t db v)
  let ?u = "t\<lparr>tg_authorization_accepted := True, tg_authorization_accepted_at := v\<rparr>"
  have id: "same_identity t ?u" by (simp add: same_identity_def)
  show ?case
  proof (rule history_update [of steps])
    assume "row_backed steps t"
    with history_mono(1,2) [OF id] eff_accept(2,3) show "row_backed (steps @ [(env, h, Authorization (tg_id t) True)]) ?u"
      by (auto simp: row_backed_def owner_authorized_def)
  qed (use eff_accept in \<open>auto simp: same_identity_def\<close>)
next
  case (eff_rule t db row r)
  then show ?case
    using api_effect_db_ok [OF api_effect.eff_rule [OF eff_rule(1-3)]] by (intro history_keep [of _ db]) (auto simp: history_ok_def)
next
  case (eff_persona t db p r)
  then show ?case
    using api_effect_db_ok [OF api_effect.eff_persona [OF eff_persona(1-5)]] by (intro history_keep [of _ db]) (auto simp: history_ok_def)
next
  case (eff_secret t db p cr r)
  then show ?case
    using api_effect_db_ok [OF api_effect.eff_secret [OF eff_secret(1-6)]] by (intro history_keep [of _ db]) (auto simp: history_ok_def)
next
  case (eff_scan t db s who)
  let ?x = "(env, h, Create_Scan (tg_id t) who)" and ?db = "db\<lparr>db_scans := db_scans db @ [s], db_next := Suc (db_next db)\<rparr>"
  have ok: "db_ok ?db" using eff_scan api_effect_db_ok [OF api_effect.eff_scan [OF eff_scan(1-5)]] by (simp add: history_ok_def)
  have "row_backed (steps @ [?x]) t" using eff_scan by (simp add: history_ok_def row_backed_mono)
  then have "scan_backed (steps @ [?x]) ?db s"
    using eff_scan(1,3,4) by (auto simp: scan_backed_def row_backed_def is_scannable_def)
  moreover have "scan_backed (steps @ [?x]) ?db u" if "u \<in> set (db_scans db)" for u
    using eff_scan that by (intro scan_backed_mono [of _ db]) (auto simp: history_ok_def same_identity_def)
  ultimately show ?case using eff_scan ok by (auto simp: history_ok_def row_backed_mono)
qed

lemma history_served: "history_ok pre (aw_db w) \<Longrightarrow> history_ok (pre @ steps) (aw_db (served steps w))"
proof (induction steps arbitrary: pre w)
  case (Cons x steps)
  obtain env h r where x: "x = (env, h, r)" by (cases x)
  have "history_ok (pre @ [(env, h, r)]) (aw_db (snd (serve env h r w)))"
    using history_effect [OF serve_effect refl Cons.prems] .
  from Cons.IH [OF this] show ?case by (simp add: served_def x)
qed (simp add: served_def)

text \<open>
  C7. No scan without proof of ownership: however the requests of however many customers are ordered,
  every scan row is for a target for which its organization had asked for a challenge, and had then
  asked for a check that found the issued token published at the target's own domain, and had accepted
  the authorization.
\<close>

theorem no_scan_without_proof:
  assumes "aw_db w = empty_database" and "s \<in> set (db_scans (aw_db (served steps w)))"
  shows "\<exists>t\<in>set (db_targets (aw_db (served steps w))). tg_id t = sc_target_id s \<and>
           owner_proved steps t \<and> owner_authorized steps t"
proof -
  have "history_ok [] (aw_db w)"
    by (simp add: assms(1) history_ok_def empty_database_def db_ok_def)
  from history_served [OF this, of steps] assms(2) show ?thesis by (auto simp: history_ok_def scan_backed_def)
qed

theorem no_scan_without_proof_witness:
  "\<exists>t\<in>set (db_targets (aw_db (served demo_steps demo_api_world))). tg_id t = 2 \<and>
     owner_proved demo_steps t \<and> owner_authorized demo_steps t"
proof -
  let ?w = "served demo_steps demo_api_world"
  obtain s where "s \<in> set (db_scans (aw_db ?w))" "sc_target_id s = 2"
    using demo_served by (cases "db_scans (aw_db ?w)") (auto simp: Let_def)
  with no_scan_without_proof [of demo_api_world s demo_steps] show ?thesis by (simp add: demo_api_world_def)
qed

end
