(* ===== verification/Json_Reader.thy ===== *)
theory Json_Reader
  imports Json
begin

text \<open>
  \<^verbatim>\<open>json.loads\<close>: the scanner of the standard library, one function per kind of value, on the code
  points of the text. A value is returned with the text behind it; \<open>None\<close> is \<^verbatim>\<open>JSONDecodeError\<close>. The
  main result is that a printed document is read back.
\<close>

section \<open>The scanner\<close>

definition json_space :: "nat \<Rightarrow> bool" where
  "json_space c \<longleftrightarrow> c = 0x20 \<or> c = 0x09 \<or> c = 0x0A \<or> c = 0x0D"

definition skip_space :: "ptext \<Rightarrow> ptext" where
  "skip_space s = dropWhile json_space s"

definition digit_code :: "nat \<Rightarrow> bool" where
  "digit_code c \<longleftrightarrow> 48 \<le> c \<and> c \<le> 57"

text \<open>
  The number pattern \<^verbatim>\<open>(-?(?:0|[1-9]\d*))(\.\d+)?([eE][-+]?\d+)?\<close>, part by part: each gives what it
  takes and what is left.
\<close>

definition take_digits :: "ptext \<Rightarrow> ptext \<times> ptext" where
  "take_digits s = (takeWhile digit_code s, dropWhile digit_code s)"

definition take_minus :: "ptext \<Rightarrow> ptext \<times> ptext" where
  "take_minus s = (case s of c # r \<Rightarrow> if c = 0x2D then ([c], r) else ([], s) | [] \<Rightarrow> ([], []))"

definition take_int :: "ptext \<Rightarrow> (ptext \<times> ptext) option" where
  "take_int s =
     (case s of
        [] \<Rightarrow> None
      | c # r \<Rightarrow>
          if c = 0x30 then Some ([c], r)
          else if digit_code c then Some (take_digits s) else None)"

definition take_frac :: "ptext \<Rightarrow> ptext \<times> ptext" where
  "take_frac s =
     (case s of
        [] \<Rightarrow> ([], [])
      | c # r \<Rightarrow> if c = 0x2E \<and> fst (take_digits r) \<noteq> [] then (c # fst (take_digits r), snd (take_digits r)) else ([], s))"

definition take_sign :: "ptext \<Rightarrow> ptext \<times> ptext" where
  "take_sign s = (case s of c # r \<Rightarrow> if c = 0x2D \<or> c = 0x2B then ([c], r) else ([], s) | [] \<Rightarrow> ([], []))"

definition take_exp :: "ptext \<Rightarrow> ptext \<times> ptext" where
  "take_exp s =
     (case s of
        [] \<Rightarrow> ([], [])
      | c # r \<Rightarrow>
          let (sg, r1) = take_sign r; (ds, r2) = take_digits r1
          in if (c = 0x65 \<or> c = 0x45) \<and> ds \<noteq> [] then (c # sg @ ds, r2) else ([], s))"

definition scan_number :: "ptext \<Rightarrow> (ptext \<times> ptext) option" where
  "scan_number s =
     (let (m, r) = take_minus s
      in case take_int r of
           None \<Rightarrow> None
         | Some (i, r1) \<Rightarrow>
             let (f, r2) = take_frac r1; (e, r3) = take_exp r2
             in Some (m @ i @ f @ e, r3))"

definition drop_word :: "string \<Rightarrow> ptext \<Rightarrow> ptext option" where
  "drop_word w s = (if prefix (code_points w) s then Some (drop (length w) s) else None)"

text \<open>Values that are no container; the three words at the end are those that Python reads as floats.\<close>

definition scan_word :: "ptext \<Rightarrow> (json \<times> ptext) option" where
  "scan_word s =
     (case drop_word ''null'' s of Some r \<Rightarrow> Some (JNull, r) | None \<Rightarrow>
      case drop_word ''true'' s of Some r \<Rightarrow> Some (JBool True, r) | None \<Rightarrow>
      case drop_word ''false'' s of Some r \<Rightarrow> Some (JBool False, r) | None \<Rightarrow>
      case scan_number s of Some (n, r) \<Rightarrow> Some (JNum (map char_of n), r) | None \<Rightarrow>
      case drop_word ''NaN'' s of Some r \<Rightarrow> Some (JNum ''NaN'', r) | None \<Rightarrow>
      case drop_word ''Infinity'' s of Some r \<Rightarrow> Some (JNum ''Infinity'', r) | None \<Rightarrow>
      case drop_word ''-Infinity'' s of Some r \<Rightarrow> Some (JNum ''-Infinity'', r) | None \<Rightarrow> None)"

lemma skip_space_length: "length (skip_space s) \<le> length s"
  by (simp add: skip_space_def length_dropWhile_le)

text \<open>
  Values, the rest of an array after its bracket and the rest of an object after its brace. The
  comparisons of lengths only serve termination: a value is never empty.
\<close>

function (sequential) scan_value :: "ptext \<Rightarrow> (json \<times> ptext) option"
  and scan_elems :: "ptext \<Rightarrow> (json list \<times> ptext) option"
  and scan_members :: "ptext \<Rightarrow> ((ptext \<times> json) list \<times> ptext) option" where
  "scan_value [] = None"
| "scan_value (c # cs) =
     (if c = 0x22 then map_option (\<lambda>(t, r). (JStr t, r)) (scan_string cs)
      else if c = 0x7B then
        (case skip_space cs of
           [] \<Rightarrow> None
         | d # r \<Rightarrow> if d = 0x7D then Some (JObj [], r)
                   else map_option (\<lambda>(kvs, r). (JObj (dict_merge [] kvs), r)) (scan_members (d # r)))
      else if c = 0x5B then
        (case skip_space cs of
           [] \<Rightarrow> None
         | d # r \<Rightarrow> if d = 0x5D then Some (JArr [], r)
                   else map_option (\<lambda>(js, r). (JArr js, r)) (scan_elems (d # r)))
      else scan_word (c # cs))"
| "scan_elems s =
     (case scan_value s of
        None \<Rightarrow> None
      | Some (j, r) \<Rightarrow>
          (case skip_space r of
             [] \<Rightarrow> None
           | d # r1 \<Rightarrow>
               if d = 0x5D then Some ([j], r1)
               else if d = 0x2C \<and> length (skip_space r1) < length s
               then map_option (\<lambda>(js, r). (j # js, r)) (scan_elems (skip_space r1))
               else None))"
| "scan_members s =
     (case s of
        [] \<Rightarrow> None
      | q # s1 \<Rightarrow>
          if q \<noteq> 0x22 then None
          else case scan_string s1 of
                 None \<Rightarrow> None
               | Some (k, r) \<Rightarrow>
                   (case skip_space r of
                      [] \<Rightarrow> None
                    | d # r1 \<Rightarrow>
                        if d \<noteq> 0x3A \<or> \<not> length (skip_space r1) < length s then None
                        else case scan_value (skip_space r1) of
                               None \<Rightarrow> None
                             | Some (j, r2) \<Rightarrow>
                                 (case skip_space r2 of
                                    [] \<Rightarrow> None
                                  | e # r3 \<Rightarrow>
                                      if e = 0x7D then Some ([(k, j)], r3)
                                      else if e = 0x2C \<and> length (skip_space r3) < length s
                                      then map_option (\<lambda>(kvs, r). ((k, j) # kvs, r)) (scan_members (skip_space r3))
                                      else None)))"
  by pat_completeness auto
termination
proof (relation "measures [\<lambda>x. case x of Inl s \<Rightarrow> length s | Inr (Inl s) \<Rightarrow> length s | Inr (Inr s) \<Rightarrow> length s,
    \<lambda>x. case x of Inl s \<Rightarrow> 0 | Inr (Inl s) \<Rightarrow> 1 | Inr (Inr s) \<Rightarrow> 1]", goal_cases)
  case (2 c cs d r)
  then show ?case using skip_space_length [of cs] by simp
next
  case (3 c cs d r)
  then show ?case using skip_space_length [of cs] by simp
qed auto

declare scan_value.simps(2) [simp del] scan_elems.simps [simp del] scan_members.simps [simp del]

definition json_loads :: "ptext \<Rightarrow> json option" where
  "json_loads s =
     (if prefix [0xFEFF] s then None
      else case scan_value (skip_space s) of
             None \<Rightarrow> None
           | Some (j, r) \<Rightarrow> if skip_space r = [] then Some j else None)"


section \<open>Reading back\<close>

text \<open>What can stand behind a value inside a printed document.\<close>

definition value_end :: "ptext \<Rightarrow> bool" where
  "value_end s \<longleftrightarrow> (case s of [] \<Rightarrow> True | c # r \<Rightarrow> c = 0x2C \<or> c = 0x5D \<or> c = 0x7D)"

definition number_text :: "string \<Rightarrow> bool" where
  "number_text s \<longleftrightarrow> scan_number (code_points s) = Some (code_points s, [])"

fun json_wf :: "json \<Rightarrow> bool" where
  "json_wf (JNum s) \<longleftrightarrow> number_text s"
| "json_wf (JArr js) \<longleftrightarrow> list_all json_wf js"
| "json_wf (JObj kvs) \<longleftrightarrow> distinct (map fst kvs) \<and> list_all (\<lambda>(k, v). json_wf v) kvs"
| "json_wf j \<longleftrightarrow> True"

lemma value_end_simps [simp]:
  "value_end []" "value_end (c # r) \<longleftrightarrow> c = 0x2C \<or> c = 0x5D \<or> c = 0x7D"
  by (simp_all add: value_end_def)

lemma take_digits_append:
  assumes "value_end rest"
  shows "take_digits (s @ rest) = (fst (take_digits s), snd (take_digits s) @ rest)"
proof (cases "\<exists>x\<in>set s. \<not> digit_code x")
  case True
  then show ?thesis by (auto simp: take_digits_def takeWhile_append dropWhile_append)
next
  case False
  then have "takeWhile digit_code rest = [] \<and> dropWhile digit_code rest = rest"
    using assms by (cases rest) (auto simp: digit_code_def)
  with False have "take_digits (s @ rest) = (s, rest)" by (simp add: take_digits_def takeWhile_append2 dropWhile_append2)
  moreover have "take_digits s = (s, [])"
    using False by (auto simp: take_digits_def takeWhile_eq_all_conv dropWhile_eq_Nil_conv)
  ultimately show ?thesis by simp
qed

lemma take_int_append:
  assumes "value_end rest" and "take_int s = Some (i, r)"
  shows "take_int (s @ rest) = Some (i, r @ rest)"
  using assms take_digits_append [OF assms(1), of s]
  by (cases s) (auto simp: take_int_def split: if_splits)

lemma take_frac_append:
  assumes "value_end rest" and "take_frac s = (f, r)"
  shows "take_frac (s @ rest) = (f, r @ rest)"
proof (cases s)
  case Nil
  with assms show ?thesis by (cases rest) (auto simp: take_frac_def)
next
  case (Cons c cs)
  with assms take_digits_append [OF assms(1), of cs] show ?thesis by (auto simp: take_frac_def split: if_splits)
qed

lemma take_sign_append: "value_end rest \<Longrightarrow> take_sign s = (sg, r) \<Longrightarrow> take_sign (s @ rest) = (sg, r @ rest)"
  by (cases s; cases rest) (auto simp: take_sign_def split: if_splits)

lemma take_exp_append:
  assumes "value_end rest" and "take_exp s = (e, r)"
  shows "take_exp (s @ rest) = (e, r @ rest)"
proof (cases s)
  case Nil
  with assms show ?thesis by (cases rest) (auto simp: take_exp_def Let_def split: prod.splits)
next
  case (Cons c cs)
  obtain sg r1 where sg: "take_sign cs = (sg, r1)" by fastforce
  note sg' = take_sign_append [OF assms(1) sg]
  from assms Cons sg sg' take_digits_append [OF assms(1), of r1] show ?thesis
    by (auto simp: take_exp_def Let_def split: prod.splits if_splits)
qed

lemma scan_number_append:
  assumes "value_end rest" and "scan_number s = Some (n, r)"
  shows "scan_number (s @ rest) = Some (n, r @ rest)"
proof -
  obtain m r0 where m: "take_minus s = (m, r0)" by fastforce
  with assms(2) obtain i r1 where i: "take_int r0 = Some (i, r1)" by (auto simp: scan_number_def Let_def split: option.splits)
  obtain f r2 where f: "take_frac r1 = (f, r2)" by fastforce
  obtain e r3 where e: "take_exp r2 = (e, r3)" by fastforce
  have "s \<noteq> []" using m i by (auto simp: take_minus_def take_int_def split: list.splits)
  then have m': "take_minus (s @ rest) = (m, r0 @ rest)" using m by (cases s) (auto simp: take_minus_def split: if_splits)
  note parts = m' take_int_append [OF assms(1) i] take_frac_append [OF assms(1) f] take_exp_append [OF assms(1) e]
  from assms(2) m i f e have "n = m @ i @ f @ e" "r = r3" by (simp_all add: scan_number_def)
  then show ?thesis by (simp add: scan_number_def parts)
qed

lemma number_start:
  assumes "number_text s"
  obtains c cs where "code_points s = c # cs" "c = 0x2D \<or> digit_code c"
proof -
  from assms have "scan_number (code_points s) \<noteq> None" by (simp add: number_text_def)
  then obtain c cs where "code_points s = c # cs" "c = 0x2D \<or> digit_code c"
    by (cases "code_points s") (auto simp: scan_number_def take_minus_def take_int_def digit_code_def split: if_splits)
  then show thesis by (rule that)
qed

lemma char_code_points [simp]: "map char_of (code_points s) = s"
  by (simp add: code_points_def comp_def)

lemma scan_number_value:
  assumes "number_text s" and "value_end rest"
  shows "scan_value (code_points s @ rest) = Some (JNum s, rest)"
proof -
  obtain c cs where c: "code_points s = c # cs" "c = 0x2D \<or> digit_code c" using number_start [OF assms(1)] .
  have n: "scan_number (c # cs @ rest) = Some (c # cs, rest)"
    using scan_number_append [OF assms(2), of "c # cs"] assms(1) c(1) by (simp add: number_text_def)
  have "map char_of (c # cs) = s" using char_code_points [of s] c(1) by simp
  moreover have "drop_word w (c # cs @ rest) = None" if "w \<in> {''null'', ''true'', ''false''}" for w
    using that c(2) by (auto simp: drop_word_def code_points_def digit_code_def)
  ultimately have "scan_word (c # cs @ rest) = Some (JNum s, rest)"
    using n by (simp add: scan_word_def)
  with c show ?thesis by (auto simp: scan_value.simps(2) digit_code_def)
qed

lemma skip_space_id: "s = [] \<or> \<not> json_space (hd s) \<Longrightarrow> skip_space s = s"
  by (cases s) (auto simp: skip_space_def)

lemma scan_string_printed: "scan_string (concat (map json_escape t) @ 0x22 # s) = Some (t, s)"
  using scan_json_string [of t s] by (simp add: json_string_def)

text \<open>A printed value starts with no space and with no closing bracket.\<close>

lemma print_start:
  assumes "json_wf j"
  shows "\<exists>c cs. print_json j = c # cs \<and> \<not> json_space c \<and> c \<noteq> 0x5D \<and> c \<noteq> 0x7D \<and> c \<noteq> 0xFEFF"
proof (cases j)
  case (JNum n)
  with assms number_start [of n] obtain c cs where "code_points n = c # cs" "c = 0x2D \<or> digit_code c" by auto
  with JNum show ?thesis by (auto simp: json_space_def digit_code_def)
next
  case (JBool b)
  then show ?thesis by (cases b) (simp_all add: code_points_def json_space_def)
qed (auto simp: code_points_def json_string_def json_space_def)

text \<open>Arrays and objects, given that their parts are read back.\<close>

lemma scan_elems_printed:
  assumes "js \<noteq> []" and "\<And>j rest. j \<in> set js \<Longrightarrow> value_end rest \<Longrightarrow> scan_value (print_json j @ rest) = Some (j, rest)"
    and "list_all json_wf js"
  shows "scan_elems (join (code_points '', '') (map print_json js) @ 0x5D # rest) = Some (js, rest)"
  using assms
proof (induction js)
  case (Cons j js)
  note read = Cons.prems(2) [of j]
  show ?case
  proof (cases "js = []")
    case True
    with read show ?thesis by (simp add: scan_elems.simps skip_space_id json_space_def)
  next
    case False
    let ?more = "join (code_points '', '') (map print_json js) @ 0x5D # rest"
    obtain k ks where k: "js = k # ks" using False by (cases js) auto
    obtain c cs where c: "print_json k = c # cs" "\<not> json_space c" using Cons.prems(3) print_start [of k] by (auto simp: k)
    obtain m where m: "?more = c # m"
      using c by (cases ks) (simp_all add: k)
    have sk: "skip_space (0x20 # ?more) = ?more"
      unfolding m using c(2) by (simp add: skip_space_def json_space_def)
    have "scan_elems ?more = Some (js, rest)"
      by (rule Cons.IH [OF False]) (use Cons.prems in auto)
    moreover have "join (code_points '', '') (map print_json (j # js)) @ 0x5D # rest = print_json j @ 0x2C # 0x20 # ?more"
      using False by (simp add: join_Cons code_points_def)
    moreover have "skip_space (0x2C # 0x20 # ?more) = 0x2C # 0x20 # ?more" by (rule skip_space_id) (simp add: json_space_def)
    ultimately show ?thesis
      using read [of "0x2C # 0x20 # ?more"] sk by (simp add: scan_elems.simps [of "print_json j @ _"])
  qed
qed simp

lemma scan_members_printed:
  assumes "kvs \<noteq> []" and "\<And>k j rest. (k, j) \<in> set kvs \<Longrightarrow> value_end rest \<Longrightarrow> scan_value (print_json j @ rest) = Some (j, rest)"
    and "list_all (\<lambda>(k, j). json_wf j) kvs"
  shows "scan_members (join (code_points '', '') (map (\<lambda>(k, v). json_string k @ code_points '': '' @ print_json v) kvs) @ 0x7D # rest) =
     Some (kvs, rest)"
  using assms
proof (induction kvs)
  case (Cons kj kvs)
  obtain k j where kj: "kj = (k, j)" by (cases kj)
  note read = Cons.prems(2) [of k j]
  let ?p = "\<lambda>(k, v). json_string k @ code_points '': '' @ print_json v"
  obtain c cs where c: "print_json j = c # cs" "\<not> json_space c" using Cons.prems(3) print_start [of j] by (auto simp: kj)
  have sp: "skip_space (0x20 # print_json j @ r) = print_json j @ r" for r
    using c by (simp add: skip_space_def json_space_def)
  have first: "scan_members (?p kj @ r) = (case skip_space r of [] \<Rightarrow> None
      | e # r3 \<Rightarrow> if e = 0x7D then Some ([(k, j)], r3)
          else if e = 0x2C \<and> length (skip_space r3) < length (?p kj @ r)
          then map_option (\<lambda>(kvs, r). ((k, j) # kvs, r)) (scan_members (skip_space r3)) else None)"
    if "value_end r" for r
  proof -
    have e: "?p kj @ r = 0x22 # concat (map json_escape k) @ 0x22 # 0x3A # 0x20 # print_json j @ r"
      by (simp add: kj json_string_def code_points_def)
    have colon: "skip_space (0x3A # s) = 0x3A # s" for s by (rule skip_space_id) (simp add: json_space_def)
    have "scan_value (print_json j @ r) = Some (j, r)" by (rule read [OF _ that]) (simp add: kj)
    then show ?thesis
      unfolding e by (simp add: scan_members.simps [of "0x22 # _"] scan_string_printed sp colon)
  qed
  show ?case
  proof (cases "kvs = []")
    case True
    with first [of "0x7D # rest"] show ?thesis by (simp add: kj skip_space_id json_space_def)
  next
    case False
    let ?more = "join (code_points '', '') (map ?p kvs) @ 0x7D # rest"
    obtain a b where "kvs = a # b" using False by (cases kvs) auto
    then obtain m where m: "?more = 0x22 # m"
      by (cases a; cases b) (simp_all add: json_string_def)
    have sk: "skip_space (0x20 # ?more) = ?more"
      unfolding m by (simp add: skip_space_def json_space_def)
    have "scan_members ?more = Some (kvs, rest)"
      by (rule Cons.IH [OF False]) (use Cons.prems in auto)
    moreover have "join (code_points '', '') (map ?p (kj # kvs)) @ 0x7D # rest = ?p kj @ 0x2C # 0x20 # ?more"
      using False by (simp add: join_Cons code_points_def split: prod.split)
    moreover have "skip_space (0x2C # 0x20 # ?more) = 0x2C # 0x20 # ?more" by (rule skip_space_id) (simp add: json_space_def)
    ultimately show ?thesis
      using first [of "0x2C # 0x20 # ?more"] sk by (simp add: kj)
  qed
qed simp

lemma dict_set_new: "k \<notin> set (map fst d) \<Longrightarrow> dict_set k v d = d @ [(k, v)]"
  by (induction k v d rule: dict_set.induct) auto

lemma dict_merge_distinct: "distinct (map fst (d @ kvs)) \<Longrightarrow> dict_merge d kvs = d @ kvs"
proof (induction kvs arbitrary: d)
  case (Cons kv kvs)
  obtain k v where kv: "kv = (k, v)" by (cases kv)
  with Cons.prems have "dict_set k v d = d @ [kv]" by (intro dict_set_new [THEN trans]) auto
  with Cons.IH [of "d @ [kv]"] Cons.prems kv show ?case by (simp add: dict_merge_def)
qed (simp add: dict_merge_def)


text \<open>A printed value is read back, whatever stands behind it in a document.\<close>

lemma scan_printed: "json_wf j \<Longrightarrow> value_end rest \<Longrightarrow> scan_value (print_json j @ rest) = Some (j, rest)"
proof (induction j arbitrary: rest rule: json.induct)
  case JNull
  then show ?case by (simp add: code_points_def scan_value.simps(2) scan_word_def drop_word_def)
next
  case (JBool b)
  then show ?case by (cases b) (simp_all add: code_points_def scan_value.simps(2) scan_word_def drop_word_def)
next
  case (JNum s)
  then show ?case by (simp add: scan_number_value)
next
  case (JStr t)
  show ?case by (simp add: json_string_def scan_value.simps(2) scan_string_printed)
next
  case (JArr js)
  show ?case
  proof (cases "js = []")
    case True
    then show ?thesis by (simp add: code_points_def scan_value.simps(2) skip_space_id json_space_def)
  next
    case False
    let ?body = "join (code_points '', '') (map print_json js)"
    have wf: "list_all json_wf js" using JArr.prems(1) by simp
    have "scan_elems (?body @ 0x5D # rest) = Some (js, rest)"
      by (rule scan_elems_printed [OF False _ wf]) (use JArr wf in \<open>auto simp: list_all_iff\<close>)
    moreover obtain j ks where js: "js = j # ks" using False by (cases js) auto
    moreover from wf js print_start [of j] obtain c cs where "print_json j = c # cs" "\<not> json_space c" "c \<noteq> 0x5D" by auto
    moreover from this js obtain m where "?body = c # m" by (cases ks) auto
    ultimately show ?thesis by (simp add: code_points_def scan_value.simps(2) skip_space_id)
  qed
next
  case (JObj kvs)
  show ?case
  proof (cases "kvs = []")
    case True
    then show ?thesis by (simp add: code_points_def scan_value.simps(2) skip_space_id json_space_def)
  next
    case False
    let ?body = "join (code_points '', '') (map (\<lambda>(k, v). json_string k @ code_points '': '' @ print_json v) kvs)"
    have wf: "list_all (\<lambda>(k, j). json_wf j) kvs" and d: "distinct (map fst kvs)" using JObj.prems(1) by simp_all
    have "scan_value (print_json j @ r) = Some (j, r)" if "(k, j) \<in> set kvs" "value_end r" for k j r
      using JObj.IH [OF that(1)] wf that by (fastforce simp: list_all_iff)
    then have "scan_members (?body @ 0x7D # rest) = Some (kvs, rest)"
      by (rule scan_members_printed [OF False _ wf])
    moreover obtain m where "?body = 0x22 # m"
      using False by (cases kvs; cases "tl kvs") (auto simp: json_string_def)
    ultimately show ?thesis
      using dict_merge_distinct [of "[]" kvs] d
      by (simp add: code_points_def scan_value.simps(2) skip_space_id json_space_def)
  qed
qed

lemma distinct_map_sort: "distinct (map f xs) \<Longrightarrow> distinct (map f (sort_key g xs))"
  by (simp add: distinct_map)

lemma json_wf_sort_keys: "json_wf j \<Longrightarrow> json_wf (sort_keys j)"
proof (induction j rule: sort_keys.induct)
  case (1 kvs)
  let ?kvs = "map (\<lambda>(k, v). (k, sort_keys v)) kvs"
  have same: "map fst ?kvs = map fst kvs" by (simp add: case_prod_beta comp_def)
  have "distinct (map fst ?kvs)" unfolding same using "1.prems" by simp
  then have "distinct (map fst (sort_key fst ?kvs))" by (rule distinct_map_sort)
  moreover have "list_all (\<lambda>(k, v). json_wf v) (sort_key fst ?kvs)"
    using 1 by (fastforce simp: list_all_iff)
  ultimately show ?case by simp
next
  case (2 js)
  then show ?case by (simp add: list_all_iff)
qed simp_all

lemma loads_dumps: "json_wf j \<Longrightarrow> json_loads (json_dumps j) = Some (sort_keys j)"
proof -
  assume wf: "json_wf j"
  then have wf': "json_wf (sort_keys j)" by (rule json_wf_sort_keys)
  from print_start [OF this] obtain c cs where c: "print_json (sort_keys j) = c # cs" "\<not> json_space c" "c \<noteq> 0xFEFF" by blast
  with scan_printed [OF wf', of "[]"] c show ?thesis
    by (simp add: json_loads_def json_dumps_def skip_space_id)
qed

lemma show_nat_leading: "ord (hd (show_nat n)) = 48 \<Longrightarrow> n = 0"
proof (induction n rule: show_nat.induct)
  case (1 n)
  show ?case
  proof (cases "n < 10")
    case True
    then have "show_nat n = [char_of (48 + n)]" by (subst show_nat.simps) simp
    with "1.prems" True show ?thesis by (simp add: of_char_of)
  next
    case False
    then have "hd (show_nat n) = hd (show_nat (n div 10))" by (subst show_nat.simps) simp
    with 1 False show ?thesis by simp
  qed
qed

lemma number_text_nat: "number_text (show_nat n)"
proof -
  obtain c cs where c: "show_nat n = c # cs" using show_nat_ne [of n] by (cases "show_nat n") auto
  have digits: "\<forall>x\<in>set (code_points (show_nat n)). digit_code x"
    using show_nat_digits [of _ n] by (auto simp: code_points_def digit_code_def)
  then have all: "take_digits (code_points (show_nat n)) = (code_points (show_nat n), [])"
    by (auto simp: take_digits_def takeWhile_eq_all_conv dropWhile_eq_Nil_conv)
  have "ord c \<noteq> 0x2D" "digit_code (ord c)" using digits c by (auto simp: code_points_def digit_code_def)
  moreover have "cs = []" if "ord c = 48"
  proof -
    have "n = 0" using show_nat_leading [of n] c that by simp
    with c show ?thesis by (simp add: show_nat.simps [of 0])
  qed
  ultimately show ?thesis
    using all c by (auto simp: number_text_def scan_number_def take_minus_def take_int_def take_frac_def take_exp_def code_points_def)
qed

end
