(* ===== verification/Recon.thy ===== *)
theory Recon
  imports Json_Reader
begin

text \<open>
  Reconnaissance: \<^verbatim>\<open>packages/recon/src/sentinel_recon/\<close>. The external programs, DNS, the HTTP client,
  \<^verbatim>\<open>shutil.which\<close>, the random label and the lower case of letters beyond Latin-1 are the record
  \<open>recon_lib\<close>. A set of hosts is the sorted list of its elements: the order in which the code goes
  through a set has no effect on what it returns. A field that the code takes from a JSON document
  without looking at its type is a JSON value.
\<close>

section \<open>Results\<close>

record http_probe_result =
  hp_url :: json
  hp_status_code :: json
  hp_title :: json
  hp_server :: json
  hp_tech :: json
  hp_error :: "string option"

record discovered_asset =
  da_host :: ptext
  da_source :: string
  da_ips :: "string list"
  da_http_probes :: "http_probe_result list"

record recon_result =
  rr_root_domain :: ptext
  rr_assets :: "discovered_asset list"
  rr_tool_availability :: "(string, bool) dict"
  rr_wildcard_dns_suspected :: bool
  rr_notes :: "ptext list"

definition degraded :: "recon_result \<Rightarrow> bool" where
  "degraded r \<longleftrightarrow> \<not> list_all snd (rr_tool_availability r)"

section \<open>External programs\<close>

datatype exec_outcome =
    Exited bytes int
  | Timed_Out
  | Exec_Raises exn

record http_page =
  pg_url :: ptext
  pg_status :: nat
  pg_server :: "ptext option"
  pg_content :: bytes

record recon_lib =
  rl_which :: "string \<Rightarrow> bool"
  rl_exec :: "string \<Rightarrow> ptext list \<Rightarrow> ptext option \<Rightarrow> exec_outcome"
  rl_dns_a :: "ptext \<Rightarrow> string list net_reply"
  rl_http_get :: "ptext \<Rightarrow> http_page net_reply"
  rl_token_hex :: string
  rl_lower :: "ptext \<Rightarrow> ptext"

record tool_run_result =
  tr_ran :: bool
  tr_stdout :: ptext
  tr_returncode :: "int option"
  tr_timed_out :: bool

definition tool_available :: "recon_lib \<Rightarrow> string \<Rightarrow> bool" where
  "tool_available lib b = rl_which lib b"

definition run_tool :: "recon_lib \<Rightarrow> string \<Rightarrow> ptext list \<Rightarrow> ptext option \<Rightarrow> tool_run_result res" where
  "run_tool lib b args stdin =
     (if \<not> tool_available lib b
      then Inr \<lparr>tr_ran = False, tr_stdout = [], tr_returncode = None, tr_timed_out = False\<rparr>
      else case rl_exec lib b args stdin of
             Exec_Raises x \<Rightarrow> Inl x
           | Timed_Out \<Rightarrow> Inr \<lparr>tr_ran = True, tr_stdout = [], tr_returncode = None, tr_timed_out = True\<rparr>
           | Exited out code \<Rightarrow>
               Inr \<lparr>tr_ran = True, tr_stdout = utf8_decode_replace out, tr_returncode = Some code, tr_timed_out = False\<rparr>)"

definition tool_succeeded :: "tool_run_result \<Rightarrow> bool" where
  "tool_succeeded r \<longleftrightarrow> tr_ran r \<and> \<not> tr_timed_out r \<and> tr_returncode r = Some 0"

definition looks_like_projectdiscovery_tool :: "recon_lib \<Rightarrow> string \<Rightarrow> bool res" where
  "looks_like_projectdiscovery_tool lib b =
     (if \<not> tool_available lib b then Inr False
      else bind_res (run_tool lib b [code_points ''-version''] None) (\<lambda>r. Inr (tool_succeeded r)))"

text \<open>The documents of an output of one JSON document per line; other lines are skipped.\<close>

definition json_lines :: "ptext \<Rightarrow> json list" where
  "json_lines out = List.map_filter (\<lambda>l. if text_strip l = [] then None else json_loads (text_strip l)) (text_splitlines out)"

text \<open>\<^verbatim>\<open>doc.get(key)\<close>; a document that is no object has no such method.\<close>

definition doc_get :: "json \<Rightarrow> string \<Rightarrow> json option res" where
  "doc_get doc k =
     (case doc of JObj kvs \<Rightarrow> Inr (dict_get kvs (code_points k)) | _ \<Rightarrow> Inl (Other_Error ''AttributeError''))"

fun json_truthy :: "json \<Rightarrow> bool" where
  "json_truthy JNull = False"
| "json_truthy (JBool b) = b"
| "json_truthy (JNum s) = (\<exists>c\<in>set (takeWhile (\<lambda>c. c \<noteq> CHR ''e'' \<and> c \<noteq> CHR ''E'') s). c \<notin> set ''-0.'')"
| "json_truthy (JStr t) = (t \<noteq> [])"
| "json_truthy (JArr js) = (js \<noteq> [])"
| "json_truthy (JObj kvs) = (kvs \<noteq> [])"

section \<open>Subdomains\<close>

definition text_lower :: "recon_lib \<Rightarrow> ptext \<Rightarrow> ptext" where
  "text_lower lib t =
     (if list_all (\<lambda>c. c < 256) t then code_points (lower (map char_of t)) else rl_lower lib t)"

definition host_of_doc :: "recon_lib \<Rightarrow> json \<Rightarrow> ptext option res" where
  "host_of_doc lib doc =
     bind_res (doc_get doc ''host'') (\<lambda>host.
       case host of
         None \<Rightarrow> Inr None
       | Some (JStr t) \<Rightarrow> Inr (if t = [] then None else Some (text_lower lib t))
       | Some j \<Rightarrow> if json_truthy j then Inl (Other_Error ''AttributeError'') else Inr None)"

definition enumerate_subdomains :: "recon_lib \<Rightarrow> ptext \<Rightarrow> ptext list res" where
  "enumerate_subdomains lib root_domain =
     bind_res (run_tool lib ''subfinder'' [code_points ''-d'', root_domain, code_points ''-silent'', code_points ''-json''] None) (\<lambda>r.
       if \<not> tool_succeeded r then Inr []
       else bind_res (map_res (host_of_doc lib) (json_lines (tr_stdout r))) (\<lambda>hosts.
         Inr (sorted_list_of_set (set (List.map_filter (\<lambda>h. h) hosts)))))"

section \<open>TLS\<close>

definition probe_tls :: "recon_lib \<Rightarrow> ptext list \<Rightarrow> json list res" where
  "probe_tls lib hosts =
     (if hosts = [] then Inr []
      else bind_res (run_tool lib ''tlsx'' [code_points ''-silent'', code_points ''-json''] (Some (join [0x0A] hosts))) (\<lambda>r.
        Inr (if tool_succeeded r then json_lines (tr_stdout r) else [])))"

section \<open>HTTP probes\<close>

definition probe_of_doc :: "json \<Rightarrow> http_probe_result res" where
  "probe_of_doc doc =
     bind_res (doc_get doc ''url'') (\<lambda>url.
     bind_res (doc_get doc ''status_code'') (\<lambda>status.
     bind_res (doc_get doc ''title'') (\<lambda>title.
     bind_res (doc_get doc ''webserver'') (\<lambda>server.
     bind_res (doc_get doc ''tech'') (\<lambda>tech.
       Inr \<lparr>hp_url = (case url of None \<Rightarrow> JStr [] | Some j \<Rightarrow> j),
            hp_status_code = (case status of None \<Rightarrow> JNull | Some j \<Rightarrow> j),
            hp_title = (case title of None \<Rightarrow> JNull | Some j \<Rightarrow> j),
            hp_server = (case server of None \<Rightarrow> JNull | Some j \<Rightarrow> j),
            hp_tech = (case tech of None \<Rightarrow> JArr [] | Some j \<Rightarrow> if json_truthy j then j else JArr []),
            hp_error = None\<rparr>)))))"

definition probe_via_binary :: "recon_lib \<Rightarrow> ptext list \<Rightarrow> http_probe_result list res" where
  "probe_via_binary lib hosts =
     bind_res (run_tool lib ''httpx'' (map code_points [''-silent'', ''-json'', ''-title'', ''-server'', ''-tech-detect''])
       (Some (join [0x0A] hosts))) (\<lambda>r.
       if \<not> tool_succeeded r then Inr [] else map_res probe_of_doc (json_lines (tr_stdout r)))"

text \<open>
  The pattern \<^verbatim>\<open><title[^>]*>(.*?)</title>\<close> on bytes: the tag at the first place where one is followed
  by a closing tag, and the shortest text between them.
\<close>

definition byte_lower :: "nat \<Rightarrow> nat" where
  "byte_lower b = (if 65 \<le> b \<and> b \<le> 90 then b + 32 else b)"

definition ci_prefix :: "string \<Rightarrow> bytes \<Rightarrow> bool" where
  "ci_prefix w s \<longleftrightarrow> prefix (code_points w) (map byte_lower s)"

fun until_close :: "bytes \<Rightarrow> bytes option" where
  "until_close [] = None"
| "until_close (c # s) = (if ci_prefix ''</title>'' (c # s) then Some [] else map_option (Cons c) (until_close s))"

definition title_at :: "bytes \<Rightarrow> bytes option" where
  "title_at s =
     (if ci_prefix ''<title'' s
      then case dropWhile (\<lambda>c. c \<noteq> 0x3E) (drop 6 s) of [] \<Rightarrow> None | c # body \<Rightarrow> until_close body
      else None)"

fun title_search :: "bytes \<Rightarrow> bytes option" where
  "title_search [] = None"
| "title_search (c # s) = (case title_at (c # s) of Some t \<Rightarrow> Some t | None \<Rightarrow> title_search s)"

definition page_title :: "bytes \<Rightarrow> json" where
  "page_title content =
     (case title_search (take 8192 content) of None \<Rightarrow> JNull | Some g \<Rightarrow> JStr (text_strip (utf8_decode_replace g)))"

definition page_probe :: "http_page \<Rightarrow> http_probe_result" where
  "page_probe p =
     \<lparr>hp_url = JStr (pg_url p), hp_status_code = JNum (show_nat (pg_status p)), hp_title = page_title (pg_content p),
      hp_server = (case pg_server p of None \<Rightarrow> JNull | Some s \<Rightarrow> JStr s), hp_tech = JArr [], hp_error = None\<rparr>"

definition root_page :: "string \<Rightarrow> ptext \<Rightarrow> ptext" where
  "root_page scheme host = code_points (scheme @ ''://'') @ host @ code_points ''/''"

text \<open>The function never falls out of its loop, so that it always has a result.\<close>

definition probe_one_via_python :: "recon_lib \<Rightarrow> ptext \<Rightarrow> http_probe_result res" where
  "probe_one_via_python lib host =
     (case rl_http_get lib (root_page ''https'' host) of
        Raises x \<Rightarrow> Inl x
      | Reply p \<Rightarrow> Inr (page_probe p)
      | Failure _ \<Rightarrow>
          (case rl_http_get lib (root_page ''http'' host) of
             Raises x \<Rightarrow> Inl x
           | Reply p \<Rightarrow> Inr (page_probe p)
           | Failure err \<Rightarrow>
               Inr \<lparr>hp_url = JStr (root_page ''http'' host), hp_status_code = JNull, hp_title = JNull, hp_server = JNull,
                    hp_tech = JArr [], hp_error = Some err\<rparr>))"

definition probe_via_python :: "recon_lib \<Rightarrow> ptext list \<Rightarrow> http_probe_result list res" where
  "probe_via_python lib hosts = map_res (probe_one_via_python lib) hosts"

definition probe_hosts :: "recon_lib \<Rightarrow> ptext list \<Rightarrow> bool option \<Rightarrow> http_probe_result list res" where
  "probe_hosts lib hosts binary_available =
     (if hosts = [] then Inr []
      else bind_res (case binary_available of Some b \<Rightarrow> Inr b | None \<Rightarrow> looks_like_projectdiscovery_tool lib ''httpx'') (\<lambda>b.
        if b then probe_via_binary lib hosts else probe_via_python lib hosts))"

section \<open>DNS\<close>

definition resolve_a :: "recon_lib \<Rightarrow> ptext \<Rightarrow> string list res" where
  "resolve_a lib host =
     (case rl_dns_a lib host of Reply ips \<Rightarrow> Inr ips | Failure _ \<Rightarrow> Inr [] | Raises x \<Rightarrow> Inl x)"

definition detect_wildcard_dns :: "recon_lib \<Rightarrow> ptext \<Rightarrow> bool res" where
  "detect_wildcard_dns lib root_domain =
     bind_res (resolve_a lib (code_points (''sentinel-wildcard-probe-'' @ rl_token_hex lib @ ''.'') @ root_domain)) (\<lambda>ips.
       Inr (ips \<noteq> []))"

section \<open>The phase\<close>

definition MAX_CANDIDATE_HOSTS :: nat where
  "MAX_CANDIDATE_HOSTS = 50"

text \<open>The candidates, sorted, and those that are left after the cap.\<close>

definition candidate_hosts :: "ptext \<Rightarrow> ptext list \<Rightarrow> ptext list" where
  "candidate_hosts root_domain found = sorted_list_of_set (insert root_domain (set found))"

definition capped_hosts :: "ptext list \<Rightarrow> ptext list" where
  "capped_hosts hosts = (if MAX_CANDIDATE_HOSTS < length hosts then take MAX_CANDIDATE_HOSTS hosts else hosts)"

definition resolve_all :: "recon_lib \<Rightarrow> ptext list \<Rightarrow> (ptext \<times> string list) list res" where
  "resolve_all lib hosts =
     bind_res (map_res (\<lambda>h. bind_res (resolve_a lib h) (\<lambda>ips. Inr (h, ips))) hosts) (\<lambda>hs.
       Inr (filter (\<lambda>(h, ips). ips \<noteq> []) hs))"

text \<open>\<^verbatim>\<open>url.split("//", 1)[-1].split("/", 1)[0].split(":", 1)[0]\<close>\<close>

fun after_slashes :: "ptext \<Rightarrow> ptext option" where
  "after_slashes (a # b # s) = (if a = 0x2F \<and> b = 0x2F then Some s else after_slashes (b # s))"
| "after_slashes s = None"

definition probe_host :: "http_probe_result \<Rightarrow> ptext res" where
  "probe_host p =
     (case hp_url p of
        JStr u \<Rightarrow>
          Inr (takeWhile (\<lambda>c. c \<noteq> 0x3A) (takeWhile (\<lambda>c. c \<noteq> 0x2F) (case after_slashes u of None \<Rightarrow> u | Some s \<Rightarrow> s)))
      | _ \<Rightarrow> Inl (Other_Error ''AttributeError''))"

definition probes_of :: "(ptext \<times> http_probe_result) list \<Rightarrow> ptext \<Rightarrow> http_probe_result list" where
  "probes_of hps host = map snd (filter (\<lambda>(h, p). h = host) hps)"

definition wildcard_note :: "ptext \<Rightarrow> ptext" where
  "wildcard_note root_domain = root_domain @ code_points '' has wildcard DNS '' @ [0x2014, 0x20] @
     code_points (''any subdomain resolves, so subdomain discovery here is lower-confidence (docs/04 '' @ [CHR 0xA7] @ ''F).'')"

definition found_note :: "nat \<Rightarrow> ptext" where
  "found_note n = code_points (''subfinder found '' @ show_nat n @ '' candidate subdomain(s).'')"

definition no_subfinder_note :: ptext where
  "no_subfinder_note = code_points ''subfinder is not installed '' @ [0x2014] @ code_points
     '' subdomain discovery limited to the root domain itself (docs/adr/0002-build-vs-adopt-open-source.md).''"

definition capped_note :: "nat \<Rightarrow> ptext" where
  "capped_note n = code_points (show_nat n @ '' candidate hosts found; capped to '' @ show_nat MAX_CANDIDATE_HOSTS @
     '' for this scan (cost/time budget).'')"

definition no_tlsx_note :: ptext where
  "no_tlsx_note = code_points ''tlsx is not installed '' @ [0x2014] @ code_points
     ('' TLS/cipher grading (docs/03 '' @ [CHR 0xA7] @ ''1) is skipped this scan.'')"

definition run_recon :: "recon_lib \<Rightarrow> ptext \<Rightarrow> recon_result res" where
  "run_recon lib root_domain =
     bind_res (looks_like_projectdiscovery_tool lib ''subfinder'') (\<lambda>subfinder.
     bind_res (looks_like_projectdiscovery_tool lib ''httpx'') (\<lambda>httpx.
     bind_res (looks_like_projectdiscovery_tool lib ''tlsx'') (\<lambda>tlsx.
     bind_res (detect_wildcard_dns lib root_domain) (\<lambda>wildcard.
     bind_res (if subfinder then enumerate_subdomains lib root_domain else Inr []) (\<lambda>found.
       let candidates = candidate_hosts root_domain found;
           notes = (if wildcard then [wildcard_note root_domain] else []) @
             [if subfinder then found_note (length found) else no_subfinder_note] @
             (if MAX_CANDIDATE_HOSTS < length candidates then [capped_note (length candidates)] else []) @
             (if tlsx then [] else [no_tlsx_note])
       in bind_res (resolve_all lib (capped_hosts candidates)) (\<lambda>resolved.
          bind_res (probe_hosts lib (map fst resolved) (Some httpx)) (\<lambda>probes.
          bind_res (map_res (\<lambda>p. bind_res (probe_host p) (\<lambda>h. Inr (h, p))) probes) (\<lambda>by_host.
            Inr \<lparr>rr_root_domain = root_domain,
                 rr_assets = map (\<lambda>(host, ips). \<lparr>da_host = host,
                   da_source = (if host = root_domain then ''root_domain'' else ''subfinder''),
                   da_ips = ips, da_http_probes = probes_of by_host host\<rparr>) resolved,
                 rr_tool_availability = [(''subfinder'', subfinder), (''httpx'', httpx), (''tlsx'', tlsx)],
                 rr_wildcard_dns_suspected = wildcard,
                 rr_notes = notes\<rparr>))))))))"

section \<open>Properties\<close>

lemma sorted_take_mem:
  fixes xs :: "'a :: linorder list"
  shows "sorted_wrt (<) xs \<Longrightarrow> x \<in> set xs \<Longrightarrow> x \<in> set (take n xs) \<longleftrightarrow> length (filter (\<lambda>y. y < x) xs) < n"
proof (induction xs arbitrary: n)
  case (Cons a xs)
  show ?case
  proof (cases "x = a")
    case True
    with Cons.prems have "filter (\<lambda>y. y < x) xs = []" by (auto simp: filter_empty_conv)
    with True show ?thesis by (cases n) auto
  next
    case False
    with Cons.prems have "a < x" "x \<in> set xs" by auto
    with Cons False show ?thesis by (cases n) auto
  qed
qed simp

lemma candidate_hosts_sorted: "sorted_wrt (<) (candidate_hosts r f)" "set (candidate_hosts r f) = insert r (set f)"
  "distinct (candidate_hosts r f)"
  unfolding candidate_hosts_def by (rule strict_sorted_list_of_set, rule set_sorted_list_of_set, simp, rule distinct_sorted_list_of_set)

lemma sorted_wrt_sub: "subseq xs ys \<Longrightarrow> sorted_wrt P ys \<Longrightarrow> sorted_wrt P xs"
  by (induction rule: list_emb.induct) (auto dest: list_emb_set)

text \<open>
  The cap on the number of hosts can drop the target's own domain: the hosts are cut in alphabetical
  order, so the root domain is kept exactly if fewer than fifty of the discovered names come before
  it.
\<close>

lemma cap_keeps_root_iff:
  "root_domain \<in> set (capped_hosts (candidate_hosts root_domain found)) \<longleftrightarrow> card {h \<in> set found. h < root_domain} < 50"
proof -
  let ?c = "candidate_hosts root_domain found"
  have "set (filter (\<lambda>y. y < root_domain) ?c) = {h \<in> set found. h < root_domain}"
    by (auto simp: candidate_hosts_sorted(2))
  moreover have "distinct (filter (\<lambda>y. y < root_domain) ?c)"
    by (simp add: candidate_hosts_sorted(3))
  ultimately have n: "length (filter (\<lambda>y. y < root_domain) ?c) = card {h \<in> set found. h < root_domain}"
    by (metis distinct_card)
  have mem: "root_domain \<in> set ?c" by (simp add: candidate_hosts_sorted(2))
  note take_iff = sorted_take_mem [OF candidate_hosts_sorted(1) mem]
  show ?thesis
  proof (cases "50 < length ?c")
    case True
    with take_iff [of 50] n show ?thesis by (simp add: capped_hosts_def MAX_CANDIDATE_HOSTS_def)
  next
    case False
    from take_iff [of "length ?c"] mem have "length (filter (\<lambda>y. y < root_domain) ?c) < length ?c" by simp
    with False n mem show ?thesis by (simp add: capped_hosts_def MAX_CANDIDATE_HOSTS_def)
  qed
qed

lemma resolve_all_InrD:
  assumes "resolve_all lib hosts = Inr hs"
  shows "(h, ips) \<in> set hs \<Longrightarrow> resolve_a lib h = Inr ips \<and> ips \<noteq> []"
    and "subseq (map fst hs) hosts"
proof -
  obtain zs where zs: "list_all2 (\<lambda>h z. bind_res (resolve_a lib h) (\<lambda>ips. Inr (h, ips)) = Inr z) hosts zs"
    and hs: "hs = filter (\<lambda>(h, ips). ips \<noteq> []) zs"
    using assms by (auto simp: resolve_all_def res_simps)
  from zs have all: "\<forall>(h, ips)\<in>set zs. resolve_a lib h = Inr ips" and fst: "map fst zs = hosts"
    by (induction rule: list_all2_induct) (auto simp: bind_res_Inr_iff)
  from all hs show "(h, ips) \<in> set hs \<Longrightarrow> resolve_a lib h = Inr ips \<and> ips \<noteq> []" by auto
  show "subseq (map fst hs) hosts" unfolding hs fst [symmetric] by (intro subseq_map subseq_filter_left)
qed

lemma by_host_probe:
  assumes "map_res (\<lambda>p. bind_res (probe_host p) (\<lambda>h. Inr (h, p))) ps = Inr hps" and "p \<in> set (probes_of hps h)"
  shows "probe_host p = Inr h"
proof -
  have "list_all2 (\<lambda>p hp. bind_res (probe_host p) (\<lambda>h. Inr (h, p)) = Inr hp) ps hps" using assms(1) by (simp add: res_simps)
  then have "\<forall>(h, p)\<in>set hps. probe_host p = Inr h"
    by (induction rule: list_all2_induct) (auto simp: bind_res_Inr_iff)
  with assms(2) show ?thesis by (auto simp: probes_of_def)
qed

text \<open>
  C31. What reconnaissance reports is what it found: the assets are in strict alphabetical order of their
  hosts, at most fifty, each with the addresses its host resolves to and at least one; a host is
  the root domain or a name that subfinder gave, and is labelled so; every probe filed under a host has a URL of that
  host; and the result counts as degraded exactly if one of the three tools is missing.
\<close>

theorem recon_assets_sound:
  assumes "run_recon lib root_domain = Inr r"
  shows "sorted_wrt (<) (map da_host (rr_assets r)) \<and> length (rr_assets r) \<le> 50 \<and>
     (\<forall>a\<in>set (rr_assets r). resolve_a lib (da_host a) = Inr (da_ips a) \<and> da_ips a \<noteq> [] \<and>
        (da_host a = root_domain \<and> da_source a = ''root_domain'' \<or>
         da_host a \<noteq> root_domain \<and> da_source a = ''subfinder'' \<and>
           (\<exists>found. enumerate_subdomains lib root_domain = Inr found \<and> da_host a \<in> set found)) \<and>
        (\<forall>p\<in>set (da_http_probes a). probe_host p = Inr (da_host a))) \<and>
     (degraded r \<longleftrightarrow> (\<exists>b\<in>{''subfinder'', ''httpx'', ''tlsx''}. looks_like_projectdiscovery_tool lib b = Inr False))"
proof -
  from assms obtain s h t found resolved ps hps where
    tools: "looks_like_projectdiscovery_tool lib ''subfinder'' = Inr s" "looks_like_projectdiscovery_tool lib ''httpx'' = Inr h"
      "looks_like_projectdiscovery_tool lib ''tlsx'' = Inr t"
    and found: "(if s then enumerate_subdomains lib root_domain else Inr []) = Inr found"
    and res: "resolve_all lib (capped_hosts (candidate_hosts root_domain found)) = Inr resolved"
    and hps: "map_res (\<lambda>p. bind_res (probe_host p) (\<lambda>h. Inr (h, p))) ps = Inr hps"
    and assets: "rr_assets r = map (\<lambda>(host, ips). \<lparr>da_host = host, da_source = (if host = root_domain then ''root_domain'' else ''subfinder''),
        da_ips = ips, da_http_probes = probes_of hps host\<rparr>) resolved"
    and avail: "rr_tool_availability r = [(''subfinder'', s), (''httpx'', h), (''tlsx'', t)]"
    unfolding run_recon_def Let_def bind_res_Inr_iff by force
  let ?c = "capped_hosts (candidate_hosts root_domain found)"
  have hosts: "map da_host (rr_assets r) = map fst resolved" by (simp add: assets case_prod_beta comp_def)
  note sub = resolve_all_InrD(2) [OF res]
  have c: "sorted_wrt (<) ?c" "length ?c \<le> 50" "set ?c \<subseteq> insert root_domain (set found)"
    using candidate_hosts_sorted [of root_domain found] set_take_subset [of 50 "candidate_hosts root_domain found"]
    by (auto simp: capped_hosts_def MAX_CANDIDATE_HOSTS_def sorted_wrt_take)
  have "sorted_wrt (<) (map fst resolved)" using sub c(1) by (rule sorted_wrt_sub)
  moreover have "length (rr_assets r) \<le> 50"
    using list_emb_length [OF sub] c(2) hosts by (metis le_trans length_map)
  moreover have "resolve_a lib (da_host a) = Inr (da_ips a) \<and> da_ips a \<noteq> [] \<and>
        (da_host a = root_domain \<and> da_source a = ''root_domain'' \<or>
         da_host a \<noteq> root_domain \<and> da_source a = ''subfinder'' \<and>
           (\<exists>found. enumerate_subdomains lib root_domain = Inr found \<and> da_host a \<in> set found)) \<and>
        (\<forall>p\<in>set (da_http_probes a). probe_host p = Inr (da_host a))" if a: "a \<in> set (rr_assets r)" for a
  proof -
    obtain host ips where hi: "(host, ips) \<in> set resolved" and a': "a = \<lparr>da_host = host,
        da_source = (if host = root_domain then ''root_domain'' else ''subfinder''), da_ips = ips, da_http_probes = probes_of hps host\<rparr>"
      using a by (auto simp: assets)
    have "host \<in> set (map fst resolved)" using hi by force
    from list_emb_set [OF sub this] have "host \<in> set ?c" by blast
    with c(3) have "host = root_domain \<or> host \<in> set found" by blast
    moreover have "host \<in> set found \<Longrightarrow> enumerate_subdomains lib root_domain = Inr found" using found by (auto split: if_splits)
    ultimately show ?thesis
      using resolve_all_InrD(1) [OF res hi] by_host_probe [OF hps] by (auto simp: a')
  qed
  moreover have "degraded r \<longleftrightarrow> (\<exists>b\<in>{''subfinder'', ''httpx'', ''tlsx''}. looks_like_projectdiscovery_tool lib b = Inr False)"
    using tools by (auto simp: degraded_def avail)
  ultimately show ?thesis unfolding hosts by blast
qed


text \<open>A machine without the tools, and a domain that resolves but answers on neither port.\<close>

definition bare_lib :: recon_lib where
  "bare_lib = \<lparr>rl_which = (\<lambda>_. False), rl_exec = (\<lambda>_ _ _. Timed_Out),
     rl_dns_a = (\<lambda>h. if h = code_points ''shop.io'' then Reply [''192.0.2.1''] else Failure ''NXDOMAIN''),
     rl_http_get = (\<lambda>_. Failure ''refused''), rl_token_hex = ''00'', rl_lower = (\<lambda>t. t)\<rparr>"

theorem recon_assets_sound_witness:
  "\<exists>r. run_recon bare_lib (code_points ''shop.io'') = Inr r \<and> map da_host (rr_assets r) = [code_points ''shop.io''] \<and> degraded r"
proof -
  let ?d = "code_points ''shop.io''"
  have no: "looks_like_projectdiscovery_tool bare_lib b = Inr False" for b
    by (simp add: looks_like_projectdiscovery_tool_def tool_available_def bare_lib_def)
  have wild: "detect_wildcard_dns bare_lib ?d = Inr False"
    by (simp add: detect_wildcard_dns_def resolve_a_def bare_lib_def code_points_def)
  have res: "resolve_all bare_lib (capped_hosts (candidate_hosts ?d [])) = Inr [(?d, [''192.0.2.1''])]"
    by (simp add: candidate_hosts_def capped_hosts_def MAX_CANDIDATE_HOSTS_def resolve_all_def resolve_a_def bare_lib_def)
  obtain p where p: "probe_one_via_python bare_lib ?d = Inr p" "hp_url p = JStr (root_page ''http'' ?d)"
    by (simp add: probe_one_via_python_def bare_lib_def)
  have ph: "probe_host p = Inr ?d" using p(2) by (simp add: probe_host_def root_page_def code_points_def)
  have run: "\<exists>r. run_recon bare_lib ?d = Inr r \<and> map da_host (rr_assets r) = [?d]"
  proof -
    have probes: "probe_hosts bare_lib (map fst [(?d, [''192.0.2.1''])]) (Some False) = Inr [p]"
      by (simp add: probe_hosts_def probe_via_python_def p(1))
    have hosts: "map_res (\<lambda>p. bind_res (probe_host p) (\<lambda>h. Inr (h, p))) [p] = Inr [(?d, p)]" by (simp add: ph)
    show ?thesis
      unfolding run_recon_def no wild bind_res_simps if_False Let_def res probes hosts by (intro exI conjI) (rule refl, simp)
  qed
  then obtain r where r: "run_recon bare_lib ?d = Inr r" "map da_host (rr_assets r) = [?d]" by (elim exE conjE)
  from recon_assets_sound [OF r(1)]
  have "degraded r \<longleftrightarrow> (\<exists>b\<in>{''subfinder'', ''httpx'', ''tlsx''}. looks_like_projectdiscovery_tool bare_lib b = Inr False)" by (elim conjE)
  moreover have "\<exists>b\<in>{''subfinder'', ''httpx'', ''tlsx''}. looks_like_projectdiscovery_tool bare_lib b = Inr False"
    by (rule bexI [of _ "''tlsx''", OF no]) simp
  ultimately have "degraded r" by (rule iffD2)
  with r show ?thesis by (intro exI conjI)
qed

end
