(* ===== verification/Crawler.thy ===== *)
theory Crawler
  imports Http_Engine
begin

text \<open>
  The per-persona crawler: \<^verbatim>\<open>packages/crawler/src/sentinel_crawler/\<close> with \<^verbatim>\<open>surface_mapper.py\<close>,
  \<^verbatim>\<open>models.py\<close> and \<^verbatim>\<open>crawler.py\<close>. The browser page is a parameter: loading a URL and reading the
  links and forms of the page, each with the network requests that the page fires meanwhile, which
  the handler of the page's \<^verbatim>\<open>request\<close> event sees. The URLs given to \<^verbatim>\<open>page.goto\<close> are kept in a
  ghost log. The loop is a total function apart from the wait for a token.
\<close>

section \<open>Path templates\<close>

definition digit_char :: "char \<Rightarrow> bool" where
  "digit_char c \<longleftrightarrow> 48 \<le> ord c \<and> ord c \<le> 57"

definition hex_char :: "char \<Rightarrow> bool" where
  "hex_char c \<longleftrightarrow> digit_char c \<or> 65 \<le> ord c \<and> ord c \<le> 70 \<or> 97 \<le> ord c \<and> ord c \<le> 102"

definition is_newline :: "char \<Rightarrow> bool" where
  "is_newline c \<longleftrightarrow> c = CHR 0x0A"

definition NUMERIC_SEGMENT :: "char rx" where
  "NUMERIC_SEGMENT = rseq [RRun digit_char 1 None, REnd is_newline]"

definition hex_run :: "nat \<Rightarrow> char rx" where
  "hex_run n = RRun hex_char n (Some n)"

definition UUID_SEGMENT :: "char rx" where
  "UUID_SEGMENT =
     rseq [hex_run 8, rlit ''-'', hex_run 4, rlit ''-'', hex_run 4, rlit ''-'', hex_run 4, rlit ''-'',
           hex_run 12, REnd is_newline]"

definition OPAQUE_TOKEN :: "char rx" where
  "OPAQUE_TOKEN = rseq [RRun hex_char 16 None, REnd is_newline]"

definition normalize_segment :: "string \<Rightarrow> string" where
  "normalize_segment s =
     (if rx_match NUMERIC_SEGMENT s \<or> rx_match UUID_SEGMENT s \<or> rx_match OPAQUE_TOKEN s
      then ''{id}'' else s)"

definition normalize_path :: "string \<Rightarrow> string" where
  "normalize_path path = join ''/'' (map normalize_segment (split_on CHR ''/'' path))"

section \<open>The surface map\<close>

datatype discovery_source = FROM_LINK | FROM_FORM | FROM_NETWORK

record discovered_endpoint =
  de_method :: string
  de_url :: string
  de_path_template :: string
  de_source :: discovery_source
  de_persona_id :: string

record surface_map =
  sm_root_url :: string
  sm_persona_id :: string
  sm_endpoints :: "discovered_endpoint list"
  sm_pages_visited :: nat
  sm_notes :: "string list"

definition endpoint_key :: "discovered_endpoint \<Rightarrow> string \<times> string" where
  "endpoint_key d = (de_method d, de_path_template d)"

section \<open>The crawler\<close>

record net_event =
  ev_resource_type :: string
  ev_method :: string
  ev_url :: string

record 'b page_driver =
  pd_goto :: "string \<Rightarrow> rat \<Rightarrow> 'b \<Rightarrow> string option \<times> net_event list \<times> 'b"
  pd_hrefs :: "'b \<Rightarrow> string list option \<times> net_event list \<times> 'b"
  pd_forms :: "'b \<Rightarrow> (string \<times> string) list option \<times> net_event list \<times> 'b"

record 'b crawler =
  cr_py :: py_lib
  cr_scope_guard :: scope_guard
  cr_destructive_guard :: destructive_guard
  cr_limiter :: limiter_cfg
  cr_await :: "redis_db \<Rightarrow> redis_db"
  cr_sleep :: "rat \<Rightarrow> redis_db \<Rightarrow> redis_db"
  cr_target_id :: string
  cr_max_pages :: nat
  cr_page_timeout_s :: rat
  cr_driver :: "'b page_driver"

record 'b crawl_state =
  cs_surface :: surface_map
  cs_seen :: "(string \<times> string) set"
  cs_visited :: "string list"
  cs_queue :: "string list"
  cs_db :: redis_db
  cs_page :: 'b
  cs_goto :: "string list"

text \<open>The effect of a body that may raise: the exception, if any, and the state it leaves.\<close>

type_synonym 'b crawl_eff = "'b crawl_state \<Rightarrow> exn option \<times> 'b crawl_state"

definition then_eff :: "'b crawl_eff \<Rightarrow> 'b crawl_eff \<Rightarrow> 'b crawl_eff" where
  "then_eff f g st = (case f st of (Some x, st) \<Rightarrow> (Some x, st) | (None, st) \<Rightarrow> g st)"

fun each_eff :: "('a \<Rightarrow> 'b crawl_eff) \<Rightarrow> 'a list \<Rightarrow> 'b crawl_eff" where
  "each_eff f [] st = (None, st)"
| "each_eff f (x # xs) st = then_eff (f x) (each_eff f xs) st"

definition record_endpoint :: "'b crawler \<Rightarrow> string \<Rightarrow> string \<Rightarrow> discovery_source \<Rightarrow> 'b crawl_eff" where
  "record_endpoint cr method url source st =
     (case urlsplit (cr_py cr) url of
        Inl x \<Rightarrow> (Some x, st)
      | Inr parts \<Rightarrow>
          (let template = normalize_path (path_or_root parts);
               key = (upper method, template);
               surface = cs_surface st
           in if key \<in> cs_seen st then (None, st)
              else (None, st\<lparr>cs_seen := insert key (cs_seen st),
                             cs_surface := surface\<lparr>sm_endpoints := sm_endpoints surface @
                               [\<lparr>de_method = upper method, de_url = url, de_path_template = template,
                                 de_source = source, de_persona_id = sm_persona_id surface\<rparr>]\<rparr>\<rparr>)))"

definition INTERESTING_RESOURCE_TYPES :: "string set" where
  "INTERESTING_RESOURCE_TYPES = {''xhr'', ''fetch''}"

text \<open>The event handler; what it raises does not reach the crawl.\<close>

definition record_network_request :: "'b crawler \<Rightarrow> net_event \<Rightarrow> 'b crawl_state \<Rightarrow> 'b crawl_state" where
  "record_network_request cr ev st =
     (if ev_resource_type ev \<notin> INTERESTING_RESOURCE_TYPES then st
      else case evaluate (cr_py cr) (cr_scope_guard cr) (ev_method ev) (ev_url ev) of
             Inl x \<Rightarrow> st
           | Inr d \<Rightarrow> if allowed d then snd (record_endpoint cr (ev_method ev) (ev_url ev) FROM_NETWORK st) else st)"

definition deliver :: "'b crawler \<Rightarrow> net_event list \<Rightarrow> 'b crawl_state \<Rightarrow> 'b crawl_state" where
  "deliver cr evs st = fold (record_network_request cr) evs st"

definition add_note :: "string \<Rightarrow> 'b crawl_state \<Rightarrow> 'b crawl_state" where
  "add_note n st = st\<lparr>cs_surface := (cs_surface st)\<lparr>sm_notes := sm_notes (cs_surface st) @ [n]\<rparr>\<rparr>"

text \<open>The links and forms that belong to the origin of the root; a URL that does not parse raises.\<close>

fun same_origin_links :: "py_lib \<Rightarrow> string \<Rightarrow> string list \<Rightarrow> string list res" where
  "same_origin_links py netloc [] = Inr []"
| "same_origin_links py netloc (href # hrefs) =
     bind_res (urlsplit py href) (\<lambda>parts.
     bind_res (same_origin_links py netloc hrefs) (\<lambda>rest.
       Inr (if url_scheme parts \<in> {''http'', ''https''} \<and> url_netloc parts = netloc
            then before CHR ''#'' href # rest else rest)))"

fun same_origin_forms :: "py_lib \<Rightarrow> string \<Rightarrow> string \<Rightarrow> (string \<times> string) list \<Rightarrow> (string \<times> string) list res" where
  "same_origin_forms py root_url netloc [] = Inr []"
| "same_origin_forms py root_url netloc ((action0, method) # forms) =
     (let action = (if action0 = [] then root_url else action0)
      in bind_res (urlsplit py action) (\<lambda>parts.
         bind_res (same_origin_forms py root_url netloc forms) (\<lambda>rest.
           Inr (if url_netloc parts \<noteq> [] \<and> url_netloc parts \<noteq> netloc then rest
                else (method, action) # rest))))"

definition extract_same_origin_links :: "'b crawler \<Rightarrow> string \<Rightarrow> 'b crawl_state \<Rightarrow> string list res \<times> 'b crawl_state" where
  "extract_same_origin_links cr root_url st =
     (case urlsplit (cr_py cr) root_url of
        Inl x \<Rightarrow> (Inl x, st)
      | Inr origin \<Rightarrow>
          (let (hrefs, evs, b) = pd_hrefs (cr_driver cr) (cs_page st); st = deliver cr evs (st\<lparr>cs_page := b\<rparr>)
           in (case hrefs of None \<Rightarrow> Inr []
               | Some hs \<Rightarrow> same_origin_links (cr_py cr) (url_netloc origin) hs, st)))"

definition extract_forms :: "'b crawler \<Rightarrow> string \<Rightarrow> 'b crawl_state \<Rightarrow> (string \<times> string) list res \<times> 'b crawl_state" where
  "extract_forms cr root_url st =
     (case urlsplit (cr_py cr) root_url of
        Inl x \<Rightarrow> (Inl x, st)
      | Inr origin \<Rightarrow>
          (let (forms, evs, b) = pd_forms (cr_driver cr) (cs_page st); st = deliver cr evs (st\<lparr>cs_page := b\<rparr>)
           in (case forms of None \<Rightarrow> Inr []
               | Some fs \<Rightarrow> same_origin_forms (cr_py cr) root_url (url_netloc origin) fs, st)))"

text \<open>What happens to one link of a visited page.\<close>

definition follow_link :: "'b crawler \<Rightarrow> string \<Rightarrow> 'b crawl_eff" where
  "follow_link cr link st =
     (if link \<in> set (cs_visited st) \<or> link \<in> set (cs_queue st) then (None, st)
      else case check (cr_py cr) (cr_destructive_guard cr) ''GET'' link [] of
             Inl x \<Rightarrow> (Some x, st)
           | Inr c \<Rightarrow>
               if is_suspect c then record_endpoint cr ''GET'' link FROM_LINK st
               else (None, st\<lparr>cs_queue := cs_queue st @ [link]\<rparr>))"

definition harvest_page :: "'b crawler \<Rightarrow> 'b crawl_eff" where
  "harvest_page cr st =
     (let root_url = sm_root_url (cs_surface st)
      in case extract_same_origin_links cr root_url st of
           (Inl x, st) \<Rightarrow> (Some x, st)
         | (Inr links, st) \<Rightarrow>
             (case extract_forms cr root_url st of
                (Inl x, st) \<Rightarrow> (Some x, st)
              | (Inr forms, st) \<Rightarrow>
                  then_eff (each_eff (\<lambda>(m, u). record_endpoint cr m u FROM_FORM) forms)
                    (each_eff (follow_link cr) links) st))"

definition visit_page :: "'b crawler \<Rightarrow> string \<Rightarrow> 'b crawl_eff" where
  "visit_page cr url st =
     then_eff (record_endpoint cr ''GET'' url FROM_LINK) (harvest_page cr)
       (st\<lparr>cs_visited := cs_visited st @ [url]\<rparr>)"

text \<open>Loading a page; an exception becomes a note.\<close>

definition load_page :: "'b crawler \<Rightarrow> string \<Rightarrow> 'b crawl_eff" where
  "load_page cr url st =
     (let (failure, evs, b) = pd_goto (cr_driver cr) url (cr_page_timeout_s cr * 1000) (cs_page st);
          st = deliver cr evs (st\<lparr>cs_page := b, cs_goto := url # cs_goto st\<rparr>)
      in case failure of
           Some msg \<Rightarrow> (None, add_note (''Failed to load '' @ url @ '': '' @ msg) st)
         | None \<Rightarrow> visit_page cr url st)"

definition crawl_step :: "'b crawler \<Rightarrow> 'b crawl_state \<Rightarrow> (exn option \<times> 'b crawl_state) option" where
  "crawl_step cr st0 =
     (let url = hd (cs_queue st0); st = st0\<lparr>cs_queue := tl (cs_queue st0)\<rparr>
      in if url \<in> set (cs_visited st) then Some (None, st)
         else case evaluate (cr_py cr) (cr_scope_guard cr) ''GET'' url of
                Inl x \<Rightarrow> Some (Some x, st)
              | Inr d \<Rightarrow>
                  if \<not> allowed d
                  then Some (None, add_note (''Skipped out-of-scope URL: '' @ url @ '' ('' @ reason d @ '')'') st)
                  else case check (cr_py cr) (cr_destructive_guard cr) ''GET'' url [] of
                         Inl x \<Rightarrow> Some (Some x, st)
                       | Inr c \<Rightarrow>
                           if is_suspect c
                           then Some (None, add_note (''Skipped suspected-destructive URL: '' @ url) st)
                           else case acquire (cr_limiter cr) (cr_await cr) (cr_sleep cr) (cr_target_id cr) 1 None (cs_db st) of
                                  None \<Rightarrow> None
                                | Some (Inl x, db) \<Rightarrow> Some (Some x, st\<lparr>cs_db := db\<rparr>)
                                | Some (Inr _, db) \<Rightarrow> Some (load_page cr url (st\<lparr>cs_db := db\<rparr>)))"

section \<open>Progress\<close>

text \<open>
  What the parts of one iteration may change: they add endpoints, notes and links to follow, and
  leave the visited pages, the log and the limiter alone.
\<close>

definition seen_ok :: "'b crawl_state \<Rightarrow> bool" where
  "seen_ok st \<longleftrightarrow>
     cs_seen st = endpoint_key ` set (sm_endpoints (cs_surface st)) \<and>
     distinct (map endpoint_key (sm_endpoints (cs_surface st)))"

definition grows :: "'b crawl_state \<Rightarrow> 'b crawl_state \<Rightarrow> bool" where
  "grows st st' \<longleftrightarrow>
     cs_visited st' = cs_visited st \<and> cs_goto st' = cs_goto st \<and> cs_db st' = cs_db st \<and>
     (\<exists>q. cs_queue st' = cs_queue st @ q) \<and> (seen_ok st \<longrightarrow> seen_ok st')"

lemma grows_refl [simp]: "grows st st"
  by (simp add: grows_def)

lemma grows_trans: "grows a b \<Longrightarrow> grows b c \<Longrightarrow> grows a c"
  by (auto simp: grows_def)

lemma grows_page: "grows st st' \<Longrightarrow> grows (st\<lparr>cs_page := p\<rparr>) st' \<and> grows st (st'\<lparr>cs_page := p\<rparr>)"
  by (auto simp: grows_def seen_ok_def)

definition eff_grows :: "'b crawl_eff \<Rightarrow> bool" where
  "eff_grows f \<longleftrightarrow> (\<forall>st. grows st (snd (f st)))"

lemma then_eff_grows: "eff_grows f \<Longrightarrow> eff_grows g \<Longrightarrow> eff_grows (then_eff f g)"
  unfolding eff_grows_def then_eff_def
  by (auto split: prod.split option.split) (metis grows_trans snd_conv)+

lemma each_eff_grows:
  assumes "\<And>x. eff_grows (f x)"
  shows "eff_grows (each_eff f xs)"
proof (induction xs)
  case Nil
  then show ?case by (simp add: eff_grows_def)
next
  case (Cons x xs)
  with then_eff_grows [OF assms] have "eff_grows (then_eff (f x) (each_eff f xs))" .
  then show ?case by (simp add: eff_grows_def)
qed

lemma record_endpoint_grows: "eff_grows (record_endpoint cr m u s)"
  unfolding eff_grows_def record_endpoint_def
  by (auto simp: grows_def seen_ok_def endpoint_key_def Let_def split: sum.split)

lemma record_network_request_grows: "grows st (record_network_request cr ev st)"
  using record_endpoint_grows [of cr "ev_method ev" "ev_url ev" FROM_NETWORK]
  by (simp add: record_network_request_def eff_grows_def split: sum.split)

lemma deliver_grows: "grows st (deliver cr evs st)"
  unfolding deliver_def
proof (induction evs arbitrary: st)
  case (Cons ev evs)
  with record_network_request_grows [of st cr ev] show ?case by (simp, metis grows_trans)
qed simp

lemma deliver_queue [simp]: "cs_queue (deliver cr evs st) = cs_queue st"
proof -
  have "cs_queue (record_network_request cr ev st) = cs_queue st" for ev and st :: "'a crawl_state"
    by (auto simp: record_network_request_def record_endpoint_def Let_def split: sum.split)
  then show ?thesis unfolding deliver_def by (induction evs arbitrary: st) simp_all
qed

lemma follow_link_grows: "eff_grows (follow_link cr l)"
  unfolding eff_grows_def follow_link_def
  using record_endpoint_grows [of cr "''GET''" l FROM_LINK]
  by (auto simp: grows_def seen_ok_def eff_grows_def split: sum.split)

lemma deliver_page_grows: "grows st (deliver cr evs (st\<lparr>cs_page := b\<rparr>))"
  using grows_page [OF grows_refl [of st], where p = b] deliver_grows [of "st\<lparr>cs_page := b\<rparr>" cr evs]
  by (blast intro: grows_trans)

lemma extract_grows:
  "grows st (snd (extract_same_origin_links cr r st))" "grows st (snd (extract_forms cr r st))"
  by (simp_all add: extract_same_origin_links_def extract_forms_def Let_def deliver_page_grows
      split: sum.split prod.split)

lemma harvest_page_grows: "eff_grows (harvest_page cr)"
proof -
  have "grows st (snd (harvest_page cr st))" for st
  proof -
    let ?r = "sm_root_url (cs_surface st)"
    obtain l s1 where s1: "extract_same_origin_links cr ?r st = (l, s1)" by fastforce
    obtain f s2 where s2: "extract_forms cr ?r s1 = (f, s2)" by fastforce
    have g: "grows st s1" "grows s1 s2"
      using extract_grows(1) [of st cr ?r] extract_grows(2) [of s1 cr ?r] s1 s2 by simp_all
    have e: "eff_grows (then_eff (each_eff (\<lambda>(m, u). record_endpoint cr m u FROM_FORM) fs) (each_eff (follow_link cr) ls))" for fs ls
      by (intro then_eff_grows each_eff_grows follow_link_grows) (simp add: record_endpoint_grows split: prod.split)
    show ?thesis
    proof (cases l)
      case (Inl x)
      with s1 g(1) show ?thesis by (simp add: harvest_page_def)
    next
      case l: (Inr ls)
      show ?thesis
      proof (cases f)
        case (Inl x)
        with l s1 s2 grows_trans [OF g] show ?thesis by (simp add: harvest_page_def)
      next
        case (Inr fs)
        from e [of fs ls] have "grows s2 (snd (then_eff (each_eff (\<lambda>(m, u). record_endpoint cr m u FROM_FORM) fs)
            (each_eff (follow_link cr) ls) s2))" by (simp add: eff_grows_def)
        from grows_trans [OF grows_trans [OF g] this] l Inr s1 s2 show ?thesis by (simp add: harvest_page_def)
      qed
    qed
  qed
  then show ?thesis by (simp add: eff_grows_def)
qed

text \<open>A page that was loaded is visited or noted as dead; either way its URL was logged.\<close>

lemma visit_page_grows: "grows (st\<lparr>cs_visited := cs_visited st @ [url]\<rparr>) (snd (visit_page cr url st))"
  using then_eff_grows [OF record_endpoint_grows [of cr "''GET''" url FROM_LINK] harvest_page_grows [of cr]]
  by (simp add: visit_page_def eff_grows_def)

definition loaded :: "string \<Rightarrow> 'b crawl_state \<Rightarrow> 'b crawl_state \<Rightarrow> bool" where
  "loaded url st st' \<longleftrightarrow>
     cs_goto st' = url # cs_goto st \<and> (seen_ok st \<longrightarrow> seen_ok st') \<and>
     (cs_visited st' = cs_visited st \<and> cs_queue st' = cs_queue st \<or>
      cs_visited st' = cs_visited st @ [url])"

lemma load_page_loaded: "loaded url st (snd (load_page cr url st))"
proof -
  obtain fl evs b where g: "pd_goto (cr_driver cr) url (cr_page_timeout_s cr * 1000) (cs_page st) = (fl, evs, b)"
    by (cases "pd_goto (cr_driver cr) url (cr_page_timeout_s cr * 1000) (cs_page st)") auto
  let ?s1 = "st\<lparr>cs_page := b, cs_goto := url # cs_goto st\<rparr>"
  let ?s2 = "deliver cr evs ?s1"
  have d: "grows ?s1 ?s2" by (rule deliver_grows)
  have ok: "seen_ok st \<Longrightarrow> seen_ok ?s1" by (simp add: seen_ok_def)
  show ?thesis
  proof (cases fl)
    case (Some msg)
    with g have "snd (load_page cr url st) = add_note (''Failed to load '' @ url @ '': '' @ msg) ?s2"
      by (simp add: load_page_def)
    with d ok show ?thesis by (auto simp: loaded_def grows_def add_note_def seen_ok_def)
  next
    case None
    with g have e: "snd (load_page cr url st) = snd (visit_page cr url ?s2)"
      by (simp add: load_page_def)
    have "seen_ok ?s2 \<Longrightarrow> seen_ok (?s2\<lparr>cs_visited := cs_visited ?s2 @ [url]\<rparr>)" by (simp add: seen_ok_def)
    with visit_page_grows [of ?s2 url cr] d ok show ?thesis
      unfolding e loaded_def by (auto simp: grows_def)
  qed
qed

text \<open>The cases of one iteration.\<close>

definition skipped :: "'b crawl_state \<Rightarrow> 'b crawl_state \<Rightarrow> bool" where
  "skipped st st' \<longleftrightarrow>
     cs_visited st' = cs_visited st \<and> cs_queue st' = tl (cs_queue st) \<and> cs_goto st' = cs_goto st \<and>
     (seen_ok st \<longrightarrow> seen_ok st')"

definition cleared :: "'b crawler \<Rightarrow> string \<Rightarrow> bool" where
  "cleared cr url \<longleftrightarrow>
     permits (cr_py cr) (cr_scope_guard cr) ''GET'' url \<and>
     (\<exists>c. check (cr_py cr) (cr_destructive_guard cr) ''GET'' url [] = Inr c \<and> \<not> is_suspect c)"

lemma skippedI: "skipped st (st\<lparr>cs_queue := tl (cs_queue st)\<rparr>)"
  "skipped st (st\<lparr>cs_queue := tl (cs_queue st), cs_db := db\<rparr>)"
  "skipped st (add_note n (st\<lparr>cs_queue := tl (cs_queue st)\<rparr>))"
  by (simp_all add: skipped_def seen_ok_def add_note_def)

lemma crawl_step_cases:
  assumes "crawl_step cr st = Some (x, st')"
  shows "skipped st st' \<or>
     hd (cs_queue st) \<notin> set (cs_visited st) \<and> cleared cr (hd (cs_queue st)) \<and>
     (\<exists>db. load_page cr (hd (cs_queue st)) (st\<lparr>cs_queue := tl (cs_queue st), cs_db := db\<rparr>) = (x, st'))"
  using assms
  unfolding crawl_step_def Let_def cleared_def permits_def
  by (auto simp: skippedI split: if_splits sum.splits option.splits prod.splits)

section \<open>The loop\<close>

lemma crawl_step_progress:
  assumes "crawl_step cr st = Some (x, st')" and "cs_queue st \<noteq> []"
  shows "length (cs_visited st) < length (cs_visited st') \<or>
     cs_visited st' = cs_visited st \<and> length (cs_queue st') < length (cs_queue st)"
  using crawl_step_cases [OF assms(1)]
proof (elim disjE conjE exE)
  assume "skipped st st'"
  with assms(2) show ?thesis by (simp add: skipped_def)
next
  fix db
  assume l: "load_page cr (hd (cs_queue st)) (st\<lparr>cs_queue := tl (cs_queue st), cs_db := db\<rparr>) = (x, st')"
  show ?thesis
    using load_page_loaded [of "hd (cs_queue st)" "st\<lparr>cs_queue := tl (cs_queue st), cs_db := db\<rparr>" cr] assms(2)
    by (auto simp: l loaded_def)
qed

text \<open>\<^verbatim>\<open>while queue and len(visited) < self._max_pages\<close>.\<close>

function crawl_loop :: "'b crawler \<Rightarrow> 'b crawl_state \<Rightarrow> (exn option \<times> 'b crawl_state) option" where
  "crawl_loop cr st =
     (if cs_queue st = [] \<or> cr_max_pages cr \<le> length (cs_visited st) then Some (None, st)
      else case crawl_step cr st of
             None \<Rightarrow> None
           | Some (Some x, st') \<Rightarrow> Some (Some x, st')
           | Some (None, st') \<Rightarrow> crawl_loop cr st')"
  by pat_completeness auto
termination
proof (relation "measures [\<lambda>(cr, st). cr_max_pages cr - length (cs_visited st), \<lambda>(cr, st). length (cs_queue st)]")
  fix cr :: "'b crawler" and st st' p x
  assume "\<not> (cs_queue st = [] \<or> cr_max_pages cr \<le> length (cs_visited st))"
    and "crawl_step cr st = Some p" and "(x, st') = p" and "x = None"
  then have "cs_queue st \<noteq> []" "length (cs_visited st) < cr_max_pages cr" "crawl_step cr st = Some (None, st')"
    by auto
  with crawl_step_progress [OF this(3,1)]
  show "((cr, st'), cr, st) \<in> measures [\<lambda>(cr, st). cr_max_pages cr - length (cs_visited st), \<lambda>(cr, st). length (cs_queue st)]"
    by auto
qed simp

declare crawl_loop.simps [simp del]

definition initial_state :: "string \<Rightarrow> string \<Rightarrow> redis_db \<Rightarrow> 'b \<Rightarrow> 'b crawl_state" where
  "initial_state root_url persona_id db page =
     \<lparr>cs_surface = \<lparr>sm_root_url = root_url, sm_persona_id = persona_id, sm_endpoints = [], sm_pages_visited = 0, sm_notes = []\<rparr>,
      cs_seen = {}, cs_visited = [], cs_queue = [root_url], cs_db = db, cs_page = page, cs_goto = []\<rparr>"

definition crawl ::
  "'b crawler \<Rightarrow> string \<Rightarrow> string \<Rightarrow> redis_db \<Rightarrow> 'b \<Rightarrow> ((exn + surface_map) \<times> 'b crawl_state) option" where
  "crawl cr root_url persona_id db page =
     (case crawl_loop cr (initial_state root_url persona_id db page) of
        None \<Rightarrow> None
      | Some (Some x, st) \<Rightarrow> Some (Inl x, st)
      | Some (None, st) \<Rightarrow> Some (Inr ((cs_surface st)\<lparr>sm_pages_visited := length (cs_visited st)\<rparr>), st))"

section \<open>The invariant of a crawl\<close>

definition crawl_inv :: "'b crawler \<Rightarrow> 'b crawl_state \<Rightarrow> bool" where
  "crawl_inv cr st \<longleftrightarrow>
     seen_ok st \<and> distinct (cs_visited st) \<and> set (cs_visited st) \<subseteq> set (cs_goto st) \<and>
     (\<forall>u\<in>set (cs_goto st). cleared cr u)"

definition crawl_next :: "'b crawler \<Rightarrow> 'b crawl_state \<Rightarrow> 'b crawl_state \<Rightarrow> bool" where
  "crawl_next cr st st' \<longleftrightarrow> (\<exists>x. crawl_step cr st = Some (x, st'))"

lemma crawl_next_cases:
  assumes "crawl_next cr st st'"
  shows "skipped st st' \<or>
     (\<exists>url q db. url \<notin> set (cs_visited st) \<and> cleared cr url \<and> loaded url (st\<lparr>cs_queue := q, cs_db := db\<rparr>) st')"
proof -
  obtain x where "crawl_step cr st = Some (x, st')" using assms by (auto simp: crawl_next_def)
  from crawl_step_cases [OF this] show ?thesis
    using load_page_loaded by (metis snd_conv)
qed

lemma crawl_inv_next:
  assumes "crawl_inv cr st" and "crawl_next cr st st'"
  shows "crawl_inv cr st'"
  using crawl_next_cases [OF assms(2)]
proof (elim disjE exE conjE)
  assume "skipped st st'"
  with assms(1) show ?thesis by (simp add: skipped_def crawl_inv_def)
next
  fix url q db
  assume "url \<notin> set (cs_visited st)" "cleared cr url" and l: "loaded url (st\<lparr>cs_queue := q, cs_db := db\<rparr>) st'"
  moreover have "seen_ok (st\<lparr>cs_queue := q, cs_db := db\<rparr>)" using assms(1) by (simp add: crawl_inv_def seen_ok_def)
  ultimately show ?thesis using assms(1) by (auto simp: crawl_inv_def loaded_def)
qed

interpretation crawl_invariant: invariant_system
  "\<lambda>st. \<exists>r p db page. st = initial_state r p db page" "crawl_next cr" "crawl_inv cr" for cr :: "'b crawler"
proof unfold_locales
  show "crawl_inv cr s" if "\<exists>r p db page. s = initial_state r p db page" for s
    using that by (auto simp: initial_state_def crawl_inv_def seen_ok_def)
qed (rule crawl_inv_next)

text \<open>The crawler sends through the same policy as the engine: its log of page loads only grows by permitted ones.\<close>

definition goto_pairs :: "'b crawl_state \<Rightarrow> (string \<times> string) list" where
  "goto_pairs st = map (\<lambda>u. (''GET'', u)) (cs_goto st)"

lemma crawl_next_sent:
  "crawl_next cr st st' \<Longrightarrow>
     \<exists>new. goto_pairs st' = new @ goto_pairs st \<and> list_all (\<lambda>(m, u). permits (cr_py cr) (cr_scope_guard cr) m u) new"
  using crawl_next_cases [of cr st st']
  by (auto simp: skipped_def loaded_def goto_pairs_def cleared_def intro: exI [of _ "[]"] exI [of _ "[(''GET'', _)]"])

interpretation crawl_sender: guarded_sender "permits (cr_py cr)" target_ownership_verified
  "url_covered (cr_py cr)" "cr_scope_guard cr" "crawl_next cr" goto_pairs for cr :: "'b crawler"
  by unfold_locales (rule crawl_next_sent)

lemma crawl_loop_run:
  "crawl_loop cr st = Some (x, st') \<Longrightarrow> (crawl_next cr)\<^sup>*\<^sup>* st st'"
proof (induction cr st rule: crawl_loop.induct)
  case (1 cr st)
  show ?case
  proof (cases "cs_queue st = [] \<or> cr_max_pages cr \<le> length (cs_visited st)")
    case True
    with 1(2) show ?thesis by (simp add: crawl_loop.simps)
  next
    case False
    with 1(2) obtain y st1 where s: "crawl_step cr st = Some (y, st1)"
      by (subst (asm) crawl_loop.simps) (auto split: option.splits)
    then have n: "crawl_next cr st st1" by (auto simp: crawl_next_def)
    show ?thesis
    proof (cases y)
      case None
      with False s 1(2) have "crawl_loop cr st1 = Some (x, st')" by (subst (asm) crawl_loop.simps) simp
      from 1(1) [OF False s refl None this] n show ?thesis by (rule converse_rtranclp_into_rtranclp [rotated])
    next
      case (Some z)
      with False s 1(2) have "st' = st1" by (subst (asm) crawl_loop.simps) simp
      with n show ?thesis by blast
    qed
  qed
qed

lemma crawl_next_visited:
  "crawl_next cr st st' \<Longrightarrow> length (cs_visited st') \<le> Suc (length (cs_visited st))"
  using crawl_next_cases [of cr st st'] by (auto simp: skipped_def loaded_def)

lemma crawl_loop_bound:
  "crawl_loop cr st = Some (x, st') \<Longrightarrow> length (cs_visited st) \<le> cr_max_pages cr \<Longrightarrow>
     length (cs_visited st') \<le> cr_max_pages cr"
proof (induction cr st rule: crawl_loop.induct)
  case (1 cr st)
  show ?case
  proof (cases "cs_queue st = [] \<or> cr_max_pages cr \<le> length (cs_visited st)")
    case True
    with 1(2,3) show ?thesis by (simp add: crawl_loop.simps)
  next
    case False
    with 1(2) obtain y st1 where s: "crawl_step cr st = Some (y, st1)"
      by (subst (asm) crawl_loop.simps) (auto split: option.splits)
    then have "length (cs_visited st1) \<le> Suc (length (cs_visited st))"
      by (intro crawl_next_visited) (auto simp: crawl_next_def)
    with False have b: "length (cs_visited st1) \<le> cr_max_pages cr" by simp
    show ?thesis
    proof (cases y)
      case None
      with False s 1(2) have "crawl_loop cr st1 = Some (x, st')" by (subst (asm) crawl_loop.simps) simp
      from 1(1) [OF False s refl None this b] show ?thesis .
    next
      case (Some z)
      with False s 1(2) have "st' = st1" by (subst (asm) crawl_loop.simps) simp
      with b show ?thesis by simp
    qed
  qed
qed

text \<open>A crawler that has the limiter to itself.\<close>

definition limiter_alone :: "'b crawler \<Rightarrow> rat \<Rightarrow> rat \<Rightarrow> redis_db \<Rightarrow> bool" where
  "limiter_alone cr R t0 db \<longleftrightarrow>
     passes 0 (cr_await cr) \<and> sleeps (cr_sleep cr) \<and> cfg_ok (cr_limiter cr) R \<and> limiter_inv (cr_limiter cr) R t0 db \<and>
     0 < default_rate (cr_limiter cr) \<and> default_rate (cr_limiter cr) \<le> R \<and> 1 \<le> burst (cr_limiter cr)"

lemma limiter_alone_acquire:
  assumes "limiter_alone cr R t0 db"
  shows "\<exists>db'. acquire (cr_limiter cr) (cr_await cr) (cr_sleep cr) (cr_target_id cr) 1 None db = Some (Inr (), db') \<and>
           limiter_alone cr R t0 db'"
proof -
  let ?a = "acquire (cr_limiter cr) (cr_await cr) (cr_sleep cr) (cr_target_id cr) 1 None db"
  from assms have h: "passes 0 (cr_await cr)" "sleeps (cr_sleep cr)" "cfg_ok (cr_limiter cr) R"
    "limiter_inv (cr_limiter cr) R t0 db" "0 < default_rate (cr_limiter cr)" "default_rate (cr_limiter cr) \<le> R"
    "1 \<le> burst (cr_limiter cr)"
    by (simp_all add: limiter_alone_def)
  from h have "got_token (bucket_key (cr_target_id cr)) 1 db ?a"
    by (intro acquire_got_token [where R = R]) simp_all
  then obtain db' where a: "?a = Some (Inr (), db')" by (auto simp: got_token_def)
  have "(running (cr_limiter cr) R t0)\<^sup>*\<^sup>* db db'"
    using acquire_running [OF a h(4) passes_well_behaved [OF h(1,3)] h(2,3)] h by simp
  from limiter.closure_inv [OF this h(4)] a h show ?thesis by (auto simp: limiter_alone_def)
qed

lemma load_page_db [simp]: "cs_db (snd (load_page cr url st)) = cs_db st"
proof -
  obtain fl evs b where g: "pd_goto (cr_driver cr) url (cr_page_timeout_s cr * 1000) (cs_page st) = (fl, evs, b)"
    by (cases "pd_goto (cr_driver cr) url (cr_page_timeout_s cr * 1000) (cs_page st)") auto
  have "cs_db (deliver cr evs (st\<lparr>cs_page := b, cs_goto := url # cs_goto st\<rparr>)) = cs_db st"
    using deliver_grows [of "st\<lparr>cs_page := b, cs_goto := url # cs_goto st\<rparr>" cr evs] by (simp add: grows_def)
  with g visit_page_grows [of "deliver cr evs (st\<lparr>cs_page := b, cs_goto := url # cs_goto st\<rparr>)" url cr]
  show ?thesis by (simp add: load_page_def grows_def add_note_def Let_def split: option.split)
qed

lemma crawl_step_alone:
  assumes "limiter_alone cr R t0 (cs_db st)"
  shows "\<exists>x st'. crawl_step cr st = Some (x, st') \<and> limiter_alone cr R t0 (cs_db st')"
proof -
  obtain db where db: "acquire (cr_limiter cr) (cr_await cr) (cr_sleep cr) (cr_target_id cr) 1 None (cs_db st) = Some (Inr (), db)"
    "limiter_alone cr R t0 db"
    using limiter_alone_acquire [OF assms] by blast
  have l: "\<exists>x st'. load_page cr u s = (x, st') \<and> limiter_alone cr R t0 (cs_db st')"
    if "limiter_alone cr R t0 (cs_db s)" for u s
    using that load_page_db [of cr u s] by (metis surj_pair snd_conv)
  show ?thesis
    using db assms l unfolding crawl_step_def Let_def
    by (auto simp: add_note_def split: sum.split)
qed

lemma crawl_loop_returns:
  "limiter_alone cr R t0 (cs_db st) \<Longrightarrow> crawl_loop cr st \<noteq> None"
proof (induction cr st rule: crawl_loop.induct)
  case (1 cr st)
  obtain x st' where s: "crawl_step cr st = Some (x, st')" "limiter_alone cr R t0 (cs_db st')"
    using crawl_step_alone [OF 1(2)] by blast
  show ?case
  proof (cases "cs_queue st = [] \<or> cr_max_pages cr \<le> length (cs_visited st) \<or> x \<noteq> None")
    case True
    with s(1) show ?thesis by (subst crawl_loop.simps) auto
  next
    case False
    with 1(1) [OF _ s(1) refl _ s(2)] s(1) show ?thesis by (subst crawl_loop.simps) simp
  qed
qed

section \<open>Facts about templates\<close>

lemma rx_match_run_end:
  assumes "list_all P s" and "lo \<le> length s"
  shows "rx_match (rseq [RRun P lo None, REnd nl]) s"
proof -
  have "(rev s @ [], []) \<in> set (rx_ms (RRun P lo None) ([], s @ []))"
    by (rule rx_ms_run) (use assms in \<open>simp_all add: list_all_iff\<close>)
  then have "(rev s, []) \<in> set (rx_ms (RRun P lo None) ([], s))" by simp
  moreover have "rx_ms (rseq [REnd nl]) (rev s, []) \<noteq> []" by simp
  ultimately show ?thesis
    unfolding rx_match_def rseq_Cons [of "RRun P lo None"] rx_ms_seq_iff by blast
qed

lemma digit_hex: "digit_char c \<Longrightarrow> hex_char c"
  by (simp add: hex_char_def)

text \<open>A segment that is an identifier: a number, or at least sixteen hexadecimal digits.\<close>

definition id_segment :: "string \<Rightarrow> bool" where
  "id_segment s \<longleftrightarrow> list_all digit_char s \<and> s \<noteq> [] \<or> list_all hex_char s \<and> 16 \<le> length s"

lemma normalize_id: "id_segment s \<Longrightarrow> normalize_segment s = ''{id}''"
  using rx_match_run_end [of digit_char s 1 is_newline] rx_match_run_end [of hex_char s 16 is_newline]
  by (auto simp: id_segment_def normalize_segment_def NUMERIC_SEGMENT_def OPAQUE_TOKEN_def Suc_le_eq)

lemma id_segment_no_slash: "id_segment s \<Longrightarrow> CHR ''/'' \<notin> set s"
  by (auto simp: id_segment_def list_all_iff digit_char_def hex_char_def)

lemma normalize_segment_idem: "normalize_segment (normalize_segment s) = normalize_segment s"
  by (simp add: normalize_segment_def)

lemma normalize_segment_no_slash: "CHR ''/'' \<notin> set s \<Longrightarrow> CHR ''/'' \<notin> set (normalize_segment s)"
  by (simp add: normalize_segment_def)

lemma split_normalize:
  "split_on CHR ''/'' (normalize_path p) = map normalize_segment (split_on CHR ''/'' p)"
  unfolding normalize_path_def
proof (rule split_on_join)
  show "CHR ''/'' \<notin> set w" if "w \<in> set (map normalize_segment (split_on CHR ''/'' p))" for w
    using that normalize_segment_no_slash [OF split_on_no_sep [of _ "CHR ''/''" p]] by auto
qed simp

lemma split_on_mid:
  "c \<notin> set i \<Longrightarrow> split_on c (a @ c # i @ c # b) = split_on c a @ i # split_on c b"
proof (induction a)
  case Nil
  then show ?case by (simp add: split_on_append_sep)
next
  case (Cons x a)
  obtain w ws where "split_on c a = w # ws" by (metis neq_Nil_conv split_on_ne)
  with Cons show ?case by simp
qed

section \<open>Properties\<close>

text \<open>
  C6. The crawler stays within its bounds: however the page behaves, every URL it loads is in scope
  for GET and not suspected of a destructive action, no page counts as visited twice, at most
  \<open>max_pages\<close> pages are visited, and the map has each method and path template once.
\<close>

theorem crawl_stays_in_bounds:
  assumes "crawl cr root_url persona db page = Some (r, st)"
  shows "(\<forall>u\<in>set (cs_goto st). in_scope (cr_py cr) (cr_scope_guard cr) ''GET'' u \<and>
            (\<exists>c. check (cr_py cr) (cr_destructive_guard cr) ''GET'' u [] = Inr c \<and> \<not> is_suspect c)) \<and>
         distinct (cs_visited st) \<and> set (cs_visited st) \<subseteq> set (cs_goto st) \<and>
         length (cs_visited st) \<le> cr_max_pages cr \<and>
         distinct (map endpoint_key (sm_endpoints (cs_surface st)))"
proof -
  let ?s = "initial_state root_url persona db page"
  obtain x where l: "crawl_loop cr ?s = Some (x, st)"
    using assms by (auto simp: crawl_def split: option.splits)
  have "crawl_inv cr ?s" by (rule crawl_invariant.inv_init) blast
  with crawl_invariant.closure_inv [OF crawl_loop_run [OF l]] have "crawl_inv cr st" .
  moreover have "length (cs_visited st) \<le> cr_max_pages cr"
    by (rule crawl_loop_bound [OF l]) (simp add: initial_state_def)
  ultimately show ?thesis
    unfolding permits_iff_in_scope [symmetric] by (simp add: crawl_inv_def cleared_def seen_ok_def)
qed

text \<open>A page for the examples: every load succeeds, and it has the given links and no forms.\<close>

definition demo_driver :: "string list \<Rightarrow> unit page_driver" where
  "demo_driver hrefs = \<lparr>pd_goto = (\<lambda>u t b. (None, [], b)), pd_hrefs = (\<lambda>b. (Some hrefs, [], b)),
     pd_forms = (\<lambda>b. (Some [], [], b))\<rparr>"

definition demo_crawler :: "string list \<Rightarrow> unit crawler" where
  "demo_crawler hrefs = \<lparr>cr_py = no_lib, cr_scope_guard = shop_guard [], cr_destructive_guard =
     strict_guard\<lparr>compiled := []\<rparr>, cr_limiter = example_cfg, cr_await = (\<lambda>db. db), cr_sleep = exact_sleep,
     cr_target_id = ''t1'', cr_max_pages = 30, cr_page_timeout_s = 15, cr_driver = demo_driver hrefs\<rparr>"

lemma demo_urlsplit:
  "urlsplit no_lib ''https://shop.io/'' = Inr \<lparr>url_scheme = ''https'', url_netloc = ''shop.io'', url_path = ''/'',
      url_query = [], url_fragment = []\<rparr>"
  using urlsplit_https [of "''shop.io''" "[]" no_lib] by (simp add: plain_netloc_def plain_path_def)

lemma demo_evaluate: "evaluate no_lib (shop_guard []) ''GET'' ''https://shop.io/'' = Inr (decision ALLOWED ''In scope.'' None)"
  by (simp add: scope_eval)

lemma demo_check:
  "check no_lib (strict_guard\<lparr>compiled := []\<rparr>) ''GET'' ''https://shop.io/'' [] =
     Inr \<lparr>is_suspect = False, check_reason = ''No destructive signal detected.'', matched_pattern = None\<rparr>"
proof -
  have "upper ''GET'' \<notin> NON_IDEMPOTENT_METHODS" by (simp add: demo_upper NON_IDEMPOTENT_METHODS_def)
  then show ?thesis by (simp add: check_def demo_urlsplit)
qed

lemma demo_step:
  "crawl_step (demo_crawler hrefs) (initial_state ''https://shop.io/'' ''p'' (empty_db 0) ()) =
     Some (load_page (demo_crawler hrefs) ''https://shop.io/''
       ((initial_state ''https://shop.io/'' ''p'' (empty_db 0) ())\<lparr>cs_queue := [], cs_db := commit (bucket_key ''t1'') 9 0 1 (empty_db 0)\<rparr>))"
  by (simp add: crawl_step_def initial_state_def demo_crawler_def demo_evaluate demo_check demo_acquire Let_def)

theorem crawl_stays_in_bounds_witness:
  "\<exists>r st. crawl (demo_crawler []) ''https://shop.io/'' ''p'' (empty_db 0) () = Some (r, st) \<and>
     length (cs_visited st) \<le> 30 \<and> cs_visited st = [''https://shop.io/'']"
proof -
  let ?cr = "demo_crawler []" and ?s = "initial_state ''https://shop.io/'' ''p'' (empty_db 0) ()"
  obtain st where st: "crawl_step ?cr ?s = Some (None, st)" "cs_queue st = []" "cs_visited st = [''https://shop.io/'']"
    unfolding demo_step
    by (simp add: load_page_def visit_page_def then_eff_def record_endpoint_def harvest_page_def
        extract_same_origin_links_def extract_forms_def demo_crawler_def demo_driver_def demo_urlsplit
        initial_state_def deliver_def Let_def)
  have "crawl_loop ?cr ?s = crawl_loop ?cr st"
    using st(1) by (subst crawl_loop.simps) (simp add: initial_state_def demo_crawler_def)
  also have "\<dots> = Some (None, st)" using st(2) by (simp add: crawl_loop.simps)
  finally have c: "crawl ?cr ''https://shop.io/'' ''p'' (empty_db 0) () =
      Some (Inr ((cs_surface st)\<lparr>sm_pages_visited := length (cs_visited st)\<rparr>), st)"
    by (simp add: crawl_def)
  from crawl_stays_in_bounds [OF c] c st(3) show ?thesis by (auto simp: demo_crawler_def)
qed



text \<open>
  One template for all instances: a path whose middle segment is a number or a long hexadecimal
  token has the same template whichever identifier stands there, namely that of its two ends around
  a placeholder; and a template is its own template.
\<close>

lemma normalize_path_collapses_ids:
  assumes "id_segment i"
  shows "normalize_path (a @ ''/'' @ i @ ''/'' @ b) = normalize_path a @ ''/{id}/'' @ normalize_path b \<and>
         normalize_path (normalize_path p) = normalize_path p"
proof
  have j: "join ''/'' (xs @ y # zs) = join ''/'' xs @ ''/'' @ y @ ''/'' @ join ''/'' zs" if "xs \<noteq> []" "zs \<noteq> []" for xs y zs
    using that by (induction xs rule: list_nonempty_induct) (simp_all add: join_Cons)
  show "normalize_path (a @ ''/'' @ i @ ''/'' @ b) = normalize_path a @ ''/{id}/'' @ normalize_path b"
    using split_on_mid [OF id_segment_no_slash [OF assms], of a b] normalize_id [OF assms]
    by (simp add: normalize_path_def j)
  show "normalize_path (normalize_path p) = normalize_path p"
    using split_normalize [of p] unfolding normalize_path_def [of "normalize_path p"]
    by (simp add: normalize_segment_idem comp_def) (simp add: normalize_path_def)
qed

text \<open>
  One malformed link ends the crawl: the \<^verbatim>\<open>href\<close> values of a page are parsed outside the
  \<^verbatim>\<open>try\<close>, so a page in scope with a link whose bracketed host is broken makes the whole crawl
  raise \<^verbatim>\<open>ValueError\<close>, although a dead link is meant not to kill it.
\<close>

lemma malformed_link_aborts_crawl:
  "\<exists>st. crawl (demo_crawler [''http://['']) ''https://shop.io/'' ''p'' (empty_db 0) () =
     Some (Inl (Value_Error ''Invalid IPv6 URL''), st)"
proof -
  let ?cr = "demo_crawler [''http://['']" and ?s = "initial_state ''https://shop.io/'' ''p'' (empty_db 0) ()"
  have bad: "urlsplit no_lib ''http://['' = Inl (Value_Error ''Invalid IPv6 URL'')"
    by (simp add: urlsplit_def split_scheme_def split_netloc_def netloc_ok_def netloc_end_def lstrip_by_def before_def
        after_def ascii_alpha_def scheme_char_def unsafe_url_char_def Let_def)
  obtain st where st: "crawl_step ?cr ?s = Some (Some (Value_Error ''Invalid IPv6 URL''), st)"
    unfolding demo_step
    by (simp add: load_page_def visit_page_def then_eff_def record_endpoint_def harvest_page_def
        extract_same_origin_links_def demo_crawler_def demo_driver_def demo_urlsplit bad
        initial_state_def deliver_def Let_def)
  have "crawl_loop ?cr ?s = Some (Some (Value_Error ''Invalid IPv6 URL''), st)"
    using st by (subst crawl_loop.simps) (simp add: initial_state_def demo_crawler_def)
  then show ?thesis by (simp add: crawl_def)
qed

end
