(* ===== verification/Worker_World.thy ===== *)
theory Worker_World
  imports Db_Models Envelope_Crypto Recon Crawler
begin

text \<open>
  The worker's wiring: \<^verbatim>\<open>apps/worker/sentinel_worker_app/substrate.py\<close> and \<^verbatim>\<open>auth_adapter.py\<close>, and the
  world a scan runs in. The worker's session is \<open>rw_db\<close>, what it has committed is \<open>rw_saved\<close>; an
  exception that leaves the runner throws the session away. The engine's world has the limiter's
  database, the transcripts and the network; the login browser and the crawled pages have a state
  each; \<open>rw_goto\<close> and \<open>rw_recon\<close> are ghost logs of the pages the crawlers loaded and of the
  domains that were reconnoitred. A run is a function from the world to a result and the next
  world, \<open>None\<close> where the wait for a token does not end.
\<close>

section \<open>The world of a scan\<close>

record ('s, 'n, 'b, 'p) run_world =
  rw_db :: database
  rw_saved :: database
  rw_engine :: "('s, 'n) world"
  rw_browser :: "'b browser"
  rw_page :: 'p
  rw_goto :: "string list"
  rw_recon :: "ptext list"
  rw_ticks :: nat

datatype run_error =
    Run_Machine machine_error
  | Run_Engine engine_error
  | Run_Exn exn

text \<open>
  What a run takes from outside. The clock and the random numbers are read by a counter;
  \<open>re_open_page\<close> opens a context with a storage state and a page in it; \<open>re_dump_state\<close> is
  \<^verbatim>\<open>json.dumps\<close> of a storage state; \<open>re_launch\<close> is what starting the browser in a phase raises;
  \<open>re_number\<close> is the number that a text in a stored document stands for. \<open>re_refuse\<close> is what the
  database raises, if anything, when the session writes its rows over the committed ones: a column that does
  not hold a value, or a lost connection.
\<close>

record ('s, 'n, 'b, 'p) run_env =
  re_engine :: "('s, 'n) engine_env"
  re_driver :: "'b driver"
  re_pages :: "'p page_driver"
  re_open_page :: "browser_cookie list option \<Rightarrow> 'p \<Rightarrow> 'p res"
  re_recon :: recon_lib
  re_fernet :: fernet_lib
  re_kms_master_key :: string
  re_uuid :: "string \<Rightarrow> uid option"
  re_dump_state :: "browser_cookie list \<Rightarrow> bytes"
  re_now :: "nat \<Rightarrow> rat"
  re_seed :: "nat \<Rightarrow> nat"
  re_launch :: "scan_phase_name \<Rightarrow> exn option"
  re_number :: "string \<Rightarrow> rat"
  re_refuse :: "nat \<Rightarrow> database \<Rightarrow> database \<Rightarrow> exn option"

type_synonym ('s, 'n, 'b, 'p, 'a) run =
  "('s, 'n, 'b, 'p) run_world \<Rightarrow> ((run_error + 'a) \<times> ('s, 'n, 'b, 'p) run_world) option"

definition rreturn :: "'a \<Rightarrow> ('s, 'n, 'b, 'p, 'a) run" where
  "rreturn a w = Some (Inr a, w)"

definition rlift :: "'a res \<Rightarrow> ('s, 'n, 'b, 'p, 'a) run" where
  "rlift r w = Some (case r of Inl x \<Rightarrow> Inl (Run_Exn x) | Inr a \<Rightarrow> Inr a, w)"

definition rbind :: "('s, 'n, 'b, 'p, 'a) run \<Rightarrow> ('a \<Rightarrow> ('s, 'n, 'b, 'p, 'c) run) \<Rightarrow> ('s, 'n, 'b, 'p, 'c) run" where
  "rbind m f w =
     (case m w of
        None \<Rightarrow> None
      | Some (Inl x, w) \<Rightarrow> Some (Inl x, w)
      | Some (Inr a, w) \<Rightarrow> f a w)"

text \<open>A change of the session's rows, and a reading of the world.\<close>

definition rdb :: "(database \<Rightarrow> database) \<Rightarrow> ('s, 'n, 'b, 'p, unit) run" where
  "rdb f w = Some (Inr (), w\<lparr>rw_db := f (rw_db w)\<rparr>)"

definition rread :: "(database \<Rightarrow> 'a) \<Rightarrow> ('s, 'n, 'b, 'p, 'a) run" where
  "rread f w = Some (Inr (f (rw_db w)), w)"

text \<open>The value of the counter, which is then stepped.\<close>

definition rtick :: "('s, 'n, 'b, 'p, nat) run" where
  "rtick w = Some (Inr (rw_ticks w), w\<lparr>rw_ticks := rw_ticks w + 1\<rparr>)"

section \<open>Guards and engine from the rows\<close>

definition default_limiter :: limiter_cfg where
  "default_limiter = \<lparr>default_rate = 5, burst = 10, min_factor = 1 / 20\<rparr>"

definition default_destructive_guard :: destructive_guard where
  "default_destructive_guard = \<lparr>read_write_enabled = False, extra_patterns = [], compiled = DEFAULT_DESTRUCTIVE_PATTERNS\<rparr>"

definition build_scope_guard :: "target \<Rightarrow> scope_rule_row list \<Rightarrow> scope_guard" where
  "build_scope_guard t rows =
     new_scope_guard {tg_root_domain t, ''*.'' @ tg_root_domain t} (Some (map sr_rule rows)) (tg_ownership_verified t) None"

definition DEFAULT_USER_AGENT :: string where
  "DEFAULT_USER_AGENT = ''SentinelScanner/0.1 (+https://example.invalid/about-our-scanner)''"

definition build_http_engine :: "scope_guard \<Rightarrow> string \<Rightarrow> string \<Rightarrow> engine" where
  "build_http_engine guard target_id scan_id =
     \<lparr>eng_scope_guard = guard, eng_destructive_guard = default_destructive_guard, eng_limiter = default_limiter,
      eng_known_secrets = [], eng_target_id = target_id, eng_scan_id = scan_id, eng_max_retries = 2,
      eng_user_agent = DEFAULT_USER_AGENT\<rparr>"

section \<open>Logging a persona in\<close>

record persona_auth_result =
  pa_available :: bool
  pa_unavailable_reason :: "string option"
  pa_storage_state :: "browser_cookie list option"
  pa_session_oracle :: "session_oracle option"
  pa_oracle_detail :: "ptext option"

definition unavailable :: "string \<Rightarrow> persona_auth_result" where
  "unavailable rsn = \<lparr>pa_available = False, pa_unavailable_reason = Some rsn, pa_storage_state = None,
     pa_session_oracle = None, pa_oracle_detail = None\<rparr>"

definition secret_ref_of :: "login_recipe \<Rightarrow> string option" where
  "secret_ref_of recipe =
     (case filter (\<lambda>s. ls_action s = FILL_SECRET \<and> or_default (ls_credential_ref s) [] \<noteq> []) (lr_steps recipe) of
        [] \<Rightarrow> None | s # _ \<Rightarrow> ls_credential_ref s)"

definition decrypted_secret :: "fernet_lib \<Rightarrow> bytes \<Rightarrow> bytes \<Rightarrow> ptext res" where
  "decrypted_secret lib data_key ciphertext =
     bind_res (env_decrypt lib data_key ciphertext) (\<lambda>m.
       case utf8_decode m of None \<Rightarrow> Inl Unicode_Error | Some t \<Rightarrow> Inr t)"

definition persona_credential :: "persona_row \<Rightarrow> database \<Rightarrow> credential_row option" where
  "persona_credential p db =
     (case pe_credential_id p of None \<Rightarrow> None | Some i \<Rightarrow> find (\<lambda>c. cred_id c = i) (db_credentials db))"

definition run_replay ::
  "('s, 'n, 'b, 'p) run_env \<Rightarrow> login_recipe \<Rightarrow> (string, credential) dict \<Rightarrow> ('s, 'n, 'b, 'p, login_replay_result) run" where
  "run_replay env recipe creds w =
     (let (r, b) = replay (re_driver env) recipe creds (rw_browser w)
      in Some (case r of Inl x \<Rightarrow> Inl (Run_Exn x) | Inr res \<Rightarrow> Inr res, w\<lparr>rw_browser := b\<rparr>))"

definition run_oracle ::
  "('s, 'n, 'b, 'p) run_env \<Rightarrow> engine \<Rightarrow> persona_session \<Rightarrow> string \<Rightarrow> ('s, 'n, 'b, 'p, oracle_result) run" where
  "run_oracle env e ps u w =
     (case establish_session_oracle (re_engine env) e ps u ''GET'' (rw_engine w) of
        None \<Rightarrow> None
      | Some (r, ew) \<Rightarrow> Some (case r of Inl x \<Rightarrow> Inl (Run_Engine x) | Inr res \<Rightarrow> Inr res, w\<lparr>rw_engine := ew\<rparr>))"

definition host_or_none :: "split_result \<Rightarrow> string option" where
  "host_or_none parts = (if hostname parts = [] then None else Some (hostname parts))"

definition has_recipe :: "persona_row \<Rightarrow> bool" where
  "has_recipe p = (case pe_login_recipe p of None \<Rightarrow> False | Some raw \<Rightarrow> json_truthy raw)"

lemma truthy_dump: "json_truthy (recipe_dump pr r)"
  by (simp add: recipe_dump_def json_object_def)

definition establish_persona ::
  "('s, 'n, 'b, 'p) run_env \<Rightarrow> persona_row \<Rightarrow> credential_row option \<Rightarrow> bytes \<Rightarrow> engine \<Rightarrow> string \<Rightarrow>
     ('s, 'n, 'b, 'p, persona_auth_result) run" where
  "establish_persona env p cred org_data_key e oracle_probe_url =
     (if \<not> has_recipe p then rreturn (unavailable ''No login recipe configured for this persona.'')
      else case cred of
        None \<Rightarrow> rreturn (unavailable ''No credential configured for this persona.'')
      | Some c \<Rightarrow>
          rbind (rlift (build_login_recipe (re_number env) (or_default (pe_login_recipe p) JNull))) (\<lambda>recipe.
          case secret_ref_of recipe of
            None \<Rightarrow> rreturn (unavailable ''Login recipe has no fill_secret step to attach the credential to.'')
          | Some r \<Rightarrow>
              rbind (rlift (decrypted_secret (re_fernet env) org_data_key (cred_ciphertext c))) (\<lambda>plaintext.
              rbind (run_replay env recipe [(r, \<lparr>cr_ref = r, cr_secret = plaintext\<rparr>)]) (\<lambda>res.
                if \<not> lrr_success res
                then rreturn (unavailable (''Login replay failed: '' @ or_default (lrr_error res) ''None''))
                else
                  rbind (rlift (urlsplit (env_py (re_engine env)) (lr_start_url recipe))) (\<lambda>parts.
                  rbind (run_oracle env e \<lparr>ps_persona_id = show_nat (pe_id p),
                           ps_storage_cookies = or_default (lrr_storage_state res) [],
                           ps_target_host = host_or_none parts\<rparr> oracle_probe_url) (\<lambda>orc.
                    rreturn \<lparr>pa_available = True, pa_unavailable_reason = None,
                             pa_storage_state = lrr_storage_state res, pa_session_oracle = or_oracle orc,
                             pa_oracle_detail = Some (or_detail orc)\<rparr>))))))"

section \<open>Reasoning about runs\<close>

lemma rbind_Some:
  "rbind m f w = Some (r, w') \<longleftrightarrow>
     (\<exists>x. m w = Some (Inl x, w') \<and> r = Inl x) \<or> (\<exists>a w1. m w = Some (Inr a, w1) \<and> f a w1 = Some (r, w'))"
  by (auto simp: rbind_def split: option.splits sum.splits)

lemma rbind_assoc: "rbind (rbind m f) g = rbind m (\<lambda>a. rbind (f a) g)"
  by (rule ext) (auto simp: rbind_def split: option.splits sum.splits)

text \<open>
  The contract of a part of a run, whatever it returns or raises: from a world in which \<open>I\<close> holds it
  leads along the relation \<open>R\<close> to one in which \<open>I\<close> holds again, and it returns if \<open>strict\<close> is true.
  The parts of a run compose.
\<close>

locale run_frame =
  fixes R :: "('s, 'n, 'b, 'p) run_world \<Rightarrow> ('s, 'n, 'b, 'p) run_world \<Rightarrow> bool"
    and I :: "('s, 'n, 'b, 'p) run_world \<Rightarrow> bool"
    and strict :: bool
  assumes R_refl: "R w w"
    and R_trans: "R a b \<Longrightarrow> R b c \<Longrightarrow> R a c"
begin

definition moves :: "('s, 'n, 'b, 'p, 'a) run \<Rightarrow> bool" where
  "moves m \<longleftrightarrow> (\<forall>w. I w \<longrightarrow> (strict \<longrightarrow> m w \<noteq> None) \<and> (\<forall>r w'. m w = Some (r, w') \<longrightarrow> R w w' \<and> I w'))"

lemma movesD: "moves m \<Longrightarrow> m w = Some (r, w') \<Longrightarrow> I w \<Longrightarrow> R w w'"
  by (simp add: moves_def)

lemma moves_returns:
  assumes "moves m" and "I w" and "strict"
  shows "\<exists>r w'. m w = Some (r, w')"
proof -
  from assms(1) [unfolded moves_def] assms(2,3) have "m w \<noteq> None" by blast
  then obtain p where "m w = Some p" by blast
  then show ?thesis by (cases p) simp
qed

lemma moves_return: "moves (rreturn a)"
  by (simp add: moves_def rreturn_def R_refl)

lemma moves_lift: "moves (rlift r)"
  by (simp add: moves_def rlift_def R_refl)

lemma moves_read: "moves (rread f)"
  by (simp add: moves_def rread_def R_refl)

lemma moves_bind:
  assumes "moves m" and "\<And>a. moves (f a)"
  shows "moves (rbind m f)"
  unfolding moves_def
proof (intro allI impI conjI)
  fix w
  assume w: "I w"
  show "rbind m f w \<noteq> None" if s: strict
  proof -
    obtain r w1 where m: "m w = Some (r, w1)" and w1: "I w1"
      using moves_returns [OF assms(1) w s] assms(1) w by (auto simp: moves_def)
    show ?thesis
    proof (cases r)
      case (Inr a)
      with m moves_returns [OF assms(2) [of a] w1 s] show ?thesis by (auto simp: rbind_def)
    qed (simp add: m rbind_def)
  qed
  fix r w'
  assume "rbind m f w = Some (r, w')"
  then consider x where "m w = Some (Inl x, w')" | a w1 where "m w = Some (Inr a, w1)" "f a w1 = Some (r, w')"
    by (auto simp: rbind_Some)
  then have "R w w' \<and> I w'"
  proof cases
    case 1
    with assms(1) w show ?thesis by (auto simp: moves_def)
  next
    case (2 a w1)
    from 2(1) assms(1) w have "R w w1" "I w1" by (auto simp: moves_def)
    with 2(2) assms(2) [of a] show ?thesis by (auto simp: moves_def intro: R_trans)
  qed
  then show "R w w'" "I w'" by blast+
qed

lemmas moves_rules = moves_return moves_lift moves_read moves_bind

end

end
