(* ===== verification/Surface_Adapter.thy ===== *)
theory Surface_Adapter
  imports Db_Models Crawler
begin

text \<open>
  The merge of a crawl into the tables: \<^verbatim>\<open>apps/worker/sentinel_worker_app/surface_adapter.py\<close>. A query
  that expects at most one row raises \<^verbatim>\<open>MultipleResultsFound\<close> if there are more. An operation that
  raises has no database in its result: the runner's session is then thrown away.
\<close>

section \<open>Merging\<close>

record merge_stats =
  ms_assets_created :: nat
  ms_endpoints_created :: nat
  ms_endpoints_merged :: nat

definition scalar_one_or_none :: "'a list \<Rightarrow> 'a option res" where
  "scalar_one_or_none rows =
     (case rows of [] \<Rightarrow> Inr None | [r] \<Rightarrow> Inr (Some r) | _ \<Rightarrow> Inl (Other_Error ''MultipleResultsFound''))"

definition crawled_asset :: "uid \<Rightarrow> ptext \<Rightarrow> uid \<Rightarrow> asset_row" where
  "crawled_asset scan_id host i = \<lparr>as_id = i, as_scan_id = scan_id, as_host = host, as_ip_addresses = [],
     as_http_probes = JArr [], as_discovery_source = ''crawl''\<rparr>"

definition get_or_create_asset :: "uid \<Rightarrow> ptext \<Rightarrow> database \<Rightarrow> ((asset_row \<times> bool) \<times> database) res" where
  "get_or_create_asset scan_id host db =
     bind_res (scalar_one_or_none (filter (\<lambda>a. as_scan_id a = scan_id \<and> as_host a = host) (db_assets db))) (\<lambda>found.
       case found of
         Some a \<Rightarrow> Inr ((a, False), db)
       | None \<Rightarrow>
           let a = crawled_asset scan_id host (db_next db)
           in Inr ((a, True), db\<lparr>db_assets := db_assets db @ [a], db_next := db_next db + 1\<rparr>))"

definition is_endpoint_of :: "uid \<Rightarrow> discovered_endpoint \<Rightarrow> endpoint_row \<Rightarrow> bool" where
  "is_endpoint_of asset_id d e \<longleftrightarrow>
     ep_asset_id e = asset_id \<and> ep_method e = de_method d \<and> ep_path_template e = de_path_template d"

definition add_persona :: "string \<Rightarrow> endpoint_row \<Rightarrow> endpoint_row" where
  "add_persona p e = (if p \<in> set (ep_discovered_by e) then e else e\<lparr>ep_discovered_by := ep_discovered_by e @ [p]\<rparr>)"

definition new_endpoint :: "uid \<Rightarrow> discovered_endpoint \<Rightarrow> endpoint_row" where
  "new_endpoint asset_id d =
     \<lparr>ep_asset_id = asset_id, ep_method = de_method d, ep_path_template = de_path_template d,
      ep_discovered_by = [de_persona_id d],
      ep_discovery_source = (if de_source d = FROM_NETWORK then ''js_extraction'' else ''rendered_crawl'')\<rparr>"

text \<open>True if a row was merged into, false if one was created.\<close>

definition merge_endpoint :: "uid \<Rightarrow> discovered_endpoint \<Rightarrow> database \<Rightarrow> (bool \<times> database) res" where
  "merge_endpoint asset_id d db =
     bind_res (scalar_one_or_none (filter (is_endpoint_of asset_id d) (db_endpoints db))) (\<lambda>found.
       case found of
         None \<Rightarrow>
           Inr (False, db\<lparr>db_endpoints := db_endpoints db @ [new_endpoint asset_id d]\<rparr>)
       | Some _ \<Rightarrow>
           Inr (True, db\<lparr>db_endpoints :=
             map (\<lambda>e. if is_endpoint_of asset_id d e then add_persona (de_persona_id d) e else e) (db_endpoints db)\<rparr>))"

definition count_asset :: "bool \<Rightarrow> merge_stats \<Rightarrow> merge_stats" where
  "count_asset created s = s\<lparr>ms_assets_created := ms_assets_created s + (if created then 1 else 0)\<rparr>"

definition count_endpoint :: "bool \<Rightarrow> merge_stats \<Rightarrow> merge_stats" where
  "count_endpoint merged s =
     (if merged then s\<lparr>ms_endpoints_merged := ms_endpoints_merged s + 1\<rparr>
      else s\<lparr>ms_endpoints_created := ms_endpoints_created s + 1\<rparr>)"

definition endpoint_host :: "py_lib \<Rightarrow> discovered_endpoint \<Rightarrow> string res" where
  "endpoint_host py d = bind_res (urlsplit py (de_url d)) (\<lambda>parts. Inr (hostname parts))"

definition cached_asset ::
  "uid \<Rightarrow> string \<Rightarrow> (string, asset_row) dict \<Rightarrow> merge_stats \<Rightarrow> database \<Rightarrow> (asset_row \<times> (string, asset_row) dict \<times> merge_stats \<times> database) res" where
  "cached_asset scan_id host cache s db =
     (case dict_get cache host of
        Some a \<Rightarrow> Inr (a, cache, s, db)
      | None \<Rightarrow>
          bind_res (get_or_create_asset scan_id (code_points host) db) (\<lambda>((a, created), db).
            Inr (a, dict_set host a cache, count_asset created s, db)))"

fun merge_loop ::
  "py_lib \<Rightarrow> uid \<Rightarrow> discovered_endpoint list \<Rightarrow> (string, asset_row) dict \<Rightarrow> merge_stats \<Rightarrow> database \<Rightarrow> (merge_stats \<times> database) res" where
  "merge_loop py scan_id [] cache s db = Inr (s, db)"
| "merge_loop py scan_id (d # ds) cache s db =
     bind_res (endpoint_host py d) (\<lambda>host.
     bind_res (cached_asset scan_id host cache s db) (\<lambda>(a, cache, s, db).
     bind_res (merge_endpoint (as_id a) d db) (\<lambda>(merged, db).
       merge_loop py scan_id ds cache (count_endpoint merged s) db)))"

definition merge_surface_map :: "py_lib \<Rightarrow> uid \<Rightarrow> surface_map \<Rightarrow> database \<Rightarrow> (merge_stats \<times> database) res" where
  "merge_surface_map py scan_id surface db =
     merge_loop py scan_id (sm_endpoints surface) []
       \<lparr>ms_assets_created = 0, ms_endpoints_created = 0, ms_endpoints_merged = 0\<rparr> db"

section \<open>The tables as find-or-create tables\<close>

definition asset_key :: "asset_row \<Rightarrow> uid \<times> ptext" where
  "asset_key a = (as_scan_id a, as_host a)"

definition endpoint_row_key :: "endpoint_row \<Rightarrow> uid \<times> string \<times> string" where
  "endpoint_row_key e = (ep_asset_id e, ep_method e, ep_path_template e)"

text \<open>The tables after a merge, as functions of the row that would be new.\<close>

definition upsert_asset :: "asset_row \<Rightarrow> asset_row list \<Rightarrow> asset_row list" where
  "upsert_asset a rows = (if asset_key a \<in> asset_key ` set rows then rows else rows @ [a])"

definition upsert_endpoint :: "endpoint_row \<Rightarrow> endpoint_row list \<Rightarrow> endpoint_row list" where
  "upsert_endpoint new rows =
     (if endpoint_row_key new \<in> endpoint_row_key ` set rows
      then map (\<lambda>e. if endpoint_row_key e = endpoint_row_key new then fold add_persona (ep_discovered_by new) e else e) rows
      else rows @ [new])"

lemma add_persona_key [simp]: "endpoint_row_key (add_persona p e) = endpoint_row_key e"
  by (simp add: add_persona_def endpoint_row_key_def)

lemma fold_add_persona_key [simp]: "endpoint_row_key (fold add_persona ps e) = endpoint_row_key e"
  by (induction ps arbitrary: e) simp_all

interpretation asset_table: find_or_create asset_key upsert_asset asset_key
  by unfold_locales (simp_all add: upsert_asset_def)

interpretation endpoint_table: find_or_create endpoint_row_key upsert_endpoint endpoint_row_key
  by unfold_locales (simp_all add: upsert_endpoint_def comp_def cong: map_cong)

lemma one_of_distinct:
  "distinct (map key rows) \<Longrightarrow>
     scalar_one_or_none (filter (\<lambda>r. key r = k) rows) = Inr (find (\<lambda>r. key r = k) rows)"
proof (induction rows)
  case (Cons r rows)
  show ?case
  proof (cases "key r = k")
    case True
    with Cons.prems have "filter (\<lambda>r. key r = k) rows = []" by (auto simp: filter_empty_conv intro: rev_image_eqI)
    with True show ?thesis by (simp add: scalar_one_or_none_def)
  next
    case False
    with Cons show ?thesis by simp
  qed
qed (simp add: scalar_one_or_none_def)


lemma crawled_asset_key [simp]: "asset_key (crawled_asset scan_id host i) = (scan_id, host)"
  by (simp add: crawled_asset_def asset_key_def)

lemma find_key_None: "find (\<lambda>r. key r = k) rows = None \<longleftrightarrow> k \<notin> key ` set rows"
  by (force simp: find_None_iff)

lemma get_or_create_asset_find:
  assumes "distinct (map asset_key (db_assets db))"
  shows "get_or_create_asset scan_id host db =
     (case find (\<lambda>r. asset_key r = (scan_id, host)) (db_assets db) of
        Some a \<Rightarrow> Inr ((a, False), db)
      | None \<Rightarrow>
          let a = crawled_asset scan_id host (db_next db)
          in Inr ((a, True), db\<lparr>db_assets := db_assets db @ [a], db_next := db_next db + 1\<rparr>))"
  using one_of_distinct [OF assms, of "(scan_id, host)"] by (simp add: get_or_create_asset_def asset_key_def)

lemma find_append: "find P (xs @ ys) = (case find P xs of Some x \<Rightarrow> Some x | None \<Rightarrow> find P ys)"
  by (induction xs) simp_all

lemma get_or_create_assetD:
  assumes "distinct (map asset_key (db_assets db))"
    and "get_or_create_asset scan_id host db = Inr ((a, created), db')"
  shows "find (\<lambda>r. asset_key r = (scan_id, host)) (db_assets db') = Some a"
    and "db_assets db' = upsert_asset a (db_assets db)"
    and "created \<longleftrightarrow> (scan_id, host) \<notin> asset_key ` set (db_assets db)"
    and "asset_key a = (scan_id, host)"
    and "db' = db\<lparr>db_assets := db_assets db', db_next := db_next db'\<rparr>"
proof -
  let ?found = "find (\<lambda>r. asset_key r = (scan_id, host)) (db_assets db)"
  note g = assms(2) [unfolded get_or_create_asset_find [OF assms(1)]]
  have all: "find (\<lambda>r. asset_key r = (scan_id, host)) (db_assets db') = Some a \<and>
      db_assets db' = upsert_asset a (db_assets db) \<and>
      (created \<longleftrightarrow> (scan_id, host) \<notin> asset_key ` set (db_assets db)) \<and> asset_key a = (scan_id, host) \<and>
      db' = db\<lparr>db_assets := db_assets db', db_next := db_next db'\<rparr>"
  proof (cases ?found)
    case None
    with g have "a = crawled_asset scan_id host (db_next db)" "created"
      "db' = db\<lparr>db_assets := db_assets db @ [a], db_next := db_next db + 1\<rparr>" by (auto simp: Let_def)
    moreover have "(scan_id, host) \<notin> asset_key ` set (db_assets db)" using None by (simp add: find_key_None)
    ultimately show ?thesis using None by (simp add: find_append upsert_asset_def)
  next
    case (Some b)
    have "b \<in> set (db_assets db)" "asset_key b = (scan_id, host)" using find_SomeD [OF Some] by simp_all
    moreover have "(scan_id, host) \<in> asset_key ` set (db_assets db)" using calculation by force
    ultimately show ?thesis using g Some by (auto simp: upsert_asset_def)
  qed
  then show "find (\<lambda>r. asset_key r = (scan_id, host)) (db_assets db') = Some a"
    "db_assets db' = upsert_asset a (db_assets db)" "created \<longleftrightarrow> (scan_id, host) \<notin> asset_key ` set (db_assets db)"
    "asset_key a = (scan_id, host)" "db' = db\<lparr>db_assets := db_assets db', db_next := db_next db'\<rparr>" by blast+
qed

lemma get_or_create_asset_total:
  "distinct (map asset_key (db_assets db)) \<Longrightarrow> \<exists>a created db'. get_or_create_asset scan_id host db = Inr ((a, created), db')"
  by (auto simp: get_or_create_asset_find Let_def split: option.split)

lemma is_endpoint_of_key: "is_endpoint_of asset_id d e \<longleftrightarrow> endpoint_row_key e = endpoint_row_key (new_endpoint asset_id d)"
  by (auto simp: is_endpoint_of_def endpoint_row_key_def new_endpoint_def)

lemma merge_endpoint_upsert:
  assumes "distinct (map endpoint_row_key (db_endpoints db))"
  shows "merge_endpoint asset_id d db =
     Inr (endpoint_row_key (new_endpoint asset_id d) \<in> endpoint_row_key ` set (db_endpoints db),
          db\<lparr>db_endpoints := upsert_endpoint (new_endpoint asset_id d) (db_endpoints db)\<rparr>)"
proof -
  let ?k = "endpoint_row_key (new_endpoint asset_id d)"
  have "find (\<lambda>e. endpoint_row_key e = ?k) (db_endpoints db) = None \<longleftrightarrow> ?k \<notin> endpoint_row_key ` set (db_endpoints db)"
    by (rule find_key_None)
  moreover have "ep_discovered_by (new_endpoint asset_id d) = [de_persona_id d]" by (simp add: new_endpoint_def)
  ultimately show ?thesis
    using one_of_distinct [OF assms, of ?k]
    by (cases "find (\<lambda>e. endpoint_row_key e = ?k) (db_endpoints db)")
      (simp_all add: merge_endpoint_def is_endpoint_of_key [abs_def] upsert_endpoint_def)
qed


section \<open>The cache\<close>

text \<open>The reference: every endpoint asks the table for its asset.\<close>

fun merge_uncached ::
  "py_lib \<Rightarrow> uid \<Rightarrow> discovered_endpoint list \<Rightarrow> merge_stats \<Rightarrow> database \<Rightarrow> (merge_stats \<times> database) res" where
  "merge_uncached py scan_id [] s db = Inr (s, db)"
| "merge_uncached py scan_id (d # ds) s db =
     bind_res (endpoint_host py d) (\<lambda>host.
     bind_res (get_or_create_asset scan_id (code_points host) db) (\<lambda>((a, created), db).
     bind_res (merge_endpoint (as_id a) d db) (\<lambda>(merged, db).
       merge_uncached py scan_id ds (count_endpoint merged (count_asset created s)) db)))"

text \<open>The cache holds what the table would answer.\<close>

definition cache_ok :: "uid \<Rightarrow> (string, asset_row) dict \<Rightarrow> database \<Rightarrow> bool" where
  "cache_ok scan_id cache db \<longleftrightarrow>
     (\<forall>h a. dict_get cache h = Some a \<longrightarrow>
        find (\<lambda>r. asset_key r = (scan_id, code_points h)) (db_assets db) = Some a)"

lemma merge_endpoint_assets: "merge_endpoint i d db = Inr (m, db') \<Longrightarrow> db_assets db' = db_assets db"
  by (auto simp: merge_endpoint_def bind_res_Inr_iff split: option.splits)

lemma count_asset_False [simp]: "count_asset False s = s"
  by (simp add: count_asset_def)

lemma cached_asset_lookup:
  assumes "distinct (map asset_key (db_assets db))" and "cache_ok scan_id cache db"
  obtains a created db' cache' where
    "get_or_create_asset scan_id (code_points host) db = Inr ((a, created), db')"
    "cached_asset scan_id host cache s db = Inr (a, cache', count_asset created s, db')"
    "distinct (map asset_key (db_assets db'))" "cache_ok scan_id cache' db'"
proof -
  obtain a created db' where g: "get_or_create_asset scan_id (code_points host) db = Inr ((a, created), db')"
    using get_or_create_asset_total [OF assms(1)] by blast
  note d = get_or_create_assetD [OF assms(1) g]
  have dist: "distinct (map asset_key (db_assets db'))" unfolding d(2) using assms(1) by (rule asset_table.upsert_distinct)
  have keep: "find (\<lambda>r. asset_key r = k) (db_assets db') = Some b"
    if "find (\<lambda>r. asset_key r = k) (db_assets db) = Some b" for k b
    using that unfolding d(2) by (simp add: upsert_asset_def find_append)
  show thesis
  proof (cases "dict_get cache host")
    case None
    have "cache_ok scan_id (dict_set host a cache) db'"
      using assms(2) keep d(1) by (simp add: cache_ok_def)
    with that g dist None show ?thesis by (simp add: cached_asset_def)
  next
    case (Some b)
    with assms(2) have "find (\<lambda>r. asset_key r = (scan_id, code_points host)) (db_assets db) = Some b"
      by (simp add: cache_ok_def)
    with g have "a = b" "created = False" "db' = db" by (auto simp: get_or_create_asset_find [OF assms(1)])
    with that g dist Some assms(2) show ?thesis by (simp add: cached_asset_def)
  qed
qed

lemma merge_loop_uncached:
  "distinct (map asset_key (db_assets db)) \<Longrightarrow> cache_ok scan_id cache db \<Longrightarrow>
     merge_loop py scan_id ds cache s db = merge_uncached py scan_id ds s db"
proof (induction ds arbitrary: cache s db)
  case (Cons d ds)
  show ?case
  proof (cases "endpoint_host py d")
    case (Inr host)
    obtain a created db' cache' where
      g: "get_or_create_asset scan_id (code_points host) db = Inr ((a, created), db')"
        "cached_asset scan_id host cache s db = Inr (a, cache', count_asset created s, db')"
      and ok: "distinct (map asset_key (db_assets db'))" "cache_ok scan_id cache' db'"
      by (rule cached_asset_lookup [OF Cons.prems])
    show ?thesis
    proof (cases "merge_endpoint (as_id a) d db'")
      case m: (Inr p)
      obtain merged db'' where p: "p = (merged, db'')" by (cases p)
      have "db_assets db'' = db_assets db'" using m unfolding p by (rule merge_endpoint_assets)
      with Cons.IH [of db'' cache'] ok show ?thesis by (simp add: Inr g m p cache_ok_def)
    qed (simp add: Inr g)
  qed simp
qed simp

text \<open>What every step of a merge keeps of the tables.\<close>

definition rows_kept :: "database \<Rightarrow> database \<Rightarrow> bool" where
  "rows_kept db db' \<longleftrightarrow>
     prefix (db_assets db) (db_assets db') \<and>
     (\<forall>e\<in>set (db_endpoints db). \<exists>e'\<in>set (db_endpoints db').
        endpoint_row_key e' = endpoint_row_key e \<and> set (ep_discovered_by e) \<subseteq> set (ep_discovered_by e'))"

lemma rows_kept_trans: "rows_kept a b \<Longrightarrow> rows_kept b c \<Longrightarrow> rows_kept a c"
  unfolding rows_kept_def
  by (elim conjE, rule conjI, blast intro: prefix_order.trans) (metis (no_types, lifting) subset_trans)

definition tables_unique :: "database \<Rightarrow> bool" where
  "tables_unique db \<longleftrightarrow> distinct (map asset_key (db_assets db)) \<and> distinct (map endpoint_row_key (db_endpoints db))"

text \<open>An endpoint is on record: a row of its asset, method and template names its persona.\<close>

definition on_record :: "py_lib \<Rightarrow> uid \<Rightarrow> database \<Rightarrow> discovered_endpoint \<Rightarrow> bool" where
  "on_record py scan_id db d \<longleftrightarrow>
     (\<exists>host. endpoint_host py d = Inr host \<and>
       (\<exists>a\<in>set (db_assets db). as_scan_id a = scan_id \<and> as_host a = code_points host \<and>
         (\<exists>e\<in>set (db_endpoints db). is_endpoint_of (as_id a) d e \<and> de_persona_id d \<in> set (ep_discovered_by e))))"

lemma on_record_kept: "on_record py scan_id db d \<Longrightarrow> rows_kept db db' \<Longrightarrow> on_record py scan_id db' d"
  unfolding on_record_def rows_kept_def is_endpoint_of_key
  by (elim exE conjE bexE, intro exI conjI, assumption) (metis set_mono_prefix subsetD)

lemma upsert_endpoint_kept:
  "\<exists>e'\<in>set (upsert_endpoint new rows). endpoint_row_key e' = endpoint_row_key e \<and> set (ep_discovered_by e) \<subseteq> set (ep_discovered_by e')"
  if "e \<in> set rows"
proof -
  have sub: "set (ep_discovered_by e) \<subseteq> set (ep_discovered_by (fold add_persona ps e))" for ps e
  proof (induction ps arbitrary: e)
    case (Cons p ps)
    have "set (ep_discovered_by e) \<subseteq> set (ep_discovered_by (add_persona p e))" by (auto simp: add_persona_def)
    with Cons.IH [of "add_persona p e"] show ?case by simp
  qed simp
  let ?e = "if endpoint_row_key e = endpoint_row_key new then fold add_persona (ep_discovered_by new) e else e"
  show ?thesis
  proof (cases "endpoint_row_key new \<in> endpoint_row_key ` set rows")
    case True
    then have "?e \<in> set (upsert_endpoint new rows)" using that by (auto simp: upsert_endpoint_def)
    then show ?thesis using sub [of e "ep_discovered_by new"] by (intro bexI [of _ ?e]) auto
  next
    case False
    then show ?thesis using that by (auto simp: upsert_endpoint_def)
  qed
qed

lemma upsert_endpoint_has:
  "\<exists>e\<in>set (upsert_endpoint (new_endpoint i d) rows). is_endpoint_of i d e \<and> de_persona_id d \<in> set (ep_discovered_by e)"
proof (cases "endpoint_row_key (new_endpoint i d) \<in> endpoint_row_key ` set rows")
  case True
  then obtain r where r: "r \<in> set rows" "endpoint_row_key r = endpoint_row_key (new_endpoint i d)" by force
  then have "add_persona (de_persona_id d) r \<in> set (upsert_endpoint (new_endpoint i d) rows)"
    using True by (auto simp: upsert_endpoint_def new_endpoint_def)
  then show ?thesis using r(2) by (intro bexI [of _ "add_persona (de_persona_id d) r"]) (simp_all add: is_endpoint_of_key, simp add: add_persona_def)
next
  case False
  then show ?thesis by (auto simp: upsert_endpoint_def is_endpoint_of_key) (simp add: new_endpoint_def)
qed

text \<open>One endpoint.\<close>

lemma merge_one:
  assumes "tables_unique db" and "endpoint_host py d = Inr host"
  obtains a created db1 merged db2 where
    "get_or_create_asset scan_id (code_points host) db = Inr ((a, created), db1)"
    "merge_endpoint (as_id a) d db1 = Inr (merged, db2)"
    "tables_unique db2" "rows_kept db db2" "on_record py scan_id db2 d"
    "length (db_assets db2) = length (db_assets db) + (if created then 1 else 0)"
    "length (db_endpoints db2) = length (db_endpoints db) + (if merged then 0 else 1)"
proof -
  note u = assms(1) [unfolded tables_unique_def]
  obtain a created db1 where g: "get_or_create_asset scan_id (code_points host) db = Inr ((a, created), db1)"
    using get_or_create_asset_total [of db] u by blast
  note d = get_or_create_assetD [OF conjunct1 [OF u] g]
  have ep: "db_endpoints db1 = db_endpoints db" by (subst d(5)) simp
  let ?n = "new_endpoint (as_id a) d"
  let ?merged = "endpoint_row_key ?n \<in> endpoint_row_key ` set (db_endpoints db)"
  let ?db2 = "db1\<lparr>db_endpoints := upsert_endpoint ?n (db_endpoints db)\<rparr>"
  have m: "merge_endpoint (as_id a) d db1 = Inr (?merged, ?db2)"
    using merge_endpoint_upsert [of db1 "as_id a" d] u by (simp add: ep)
  have "tables_unique ?db2"
    unfolding tables_unique_def using u asset_table.upsert_distinct [of "db_assets db" a] endpoint_table.upsert_distinct
    by (simp add: d(2))
  moreover have "rows_kept db ?db2"
    unfolding rows_kept_def using upsert_endpoint_kept by (auto simp: d(2) upsert_asset_def)
  moreover have "a \<in> set (db_assets db1)" using find_SomeD [OF d(1)] by simp
  then have "on_record py scan_id ?db2 d"
    unfolding on_record_def using assms(2) d(4) upsert_endpoint_has [of "as_id a" d "db_endpoints db"]
    by (auto simp: asset_key_def)
  moreover have "length (db_assets ?db2) = length (db_assets db) + (if created then 1 else 0)"
    using d(3) asset_table.upsert_length [of a "db_assets db"] by (simp add: d(2,4))
  moreover have "length (db_endpoints ?db2) = length (db_endpoints db) + (if ?merged then 0 else 1)"
    using endpoint_table.upsert_length [of ?n "db_endpoints db"] by simp
  ultimately show thesis using that [OF g m] by blast
qed

lemma merge_uncached_complete:
  "tables_unique db \<Longrightarrow> \<forall>d\<in>set ds. \<exists>host. endpoint_host py d = Inr host \<Longrightarrow>
     \<exists>s' db'. merge_uncached py scan_id ds s db = Inr (s', db') \<and> tables_unique db' \<and> rows_kept db db' \<and>
       (\<forall>d\<in>set ds. on_record py scan_id db' d) \<and>
       length (db_assets db') + ms_assets_created s = length (db_assets db) + ms_assets_created s' \<and>
       length (db_endpoints db') + ms_endpoints_created s = length (db_endpoints db) + ms_endpoints_created s' \<and>
       ms_endpoints_created s' + ms_endpoints_merged s' = ms_endpoints_created s + ms_endpoints_merged s + length ds"
proof (induction ds arbitrary: s db)
  case Nil
  then show ?case by (auto simp: rows_kept_def)
next
  case (Cons d ds)
  from Cons.prems obtain host where h: "endpoint_host py d = Inr host" by auto
  obtain a created db1 merged db2 where
    g: "get_or_create_asset scan_id (code_points host) db = Inr ((a, created), db1)"
      "merge_endpoint (as_id a) d db1 = Inr (merged, db2)"
    and one: "tables_unique db2" "rows_kept db db2" "on_record py scan_id db2 d"
      "length (db_assets db2) = length (db_assets db) + (if created then 1 else 0)"
      "length (db_endpoints db2) = length (db_endpoints db) + (if merged then 0 else 1)"
    by (rule merge_one [OF Cons.prems(1) h])
  let ?s = "count_endpoint merged (count_asset created s)"
  from Cons.IH [OF one(1), of ?s] Cons.prems(2) obtain s' db' where
    rest: "merge_uncached py scan_id ds ?s db2 = Inr (s', db')" "tables_unique db'" "rows_kept db2 db'"
      "\<forall>d\<in>set ds. on_record py scan_id db' d"
      "length (db_assets db') + ms_assets_created ?s = length (db_assets db2) + ms_assets_created s'"
      "length (db_endpoints db') + ms_endpoints_created ?s = length (db_endpoints db2) + ms_endpoints_created s'"
      "ms_endpoints_created s' + ms_endpoints_merged s' = ms_endpoints_created ?s + ms_endpoints_merged ?s + length ds"
    by auto
  have "on_record py scan_id db' d" using on_record_kept [OF one(3) rest(3)] .
  with rest one(4,5) rows_kept_trans [OF one(2) rest(3)] h g show ?case
    by (intro exI [of _ s'] exI [of _ db']) (auto simp: count_endpoint_def count_asset_def split: if_splits)
qed

section \<open>Properties\<close>

text \<open>
  C16. The cache of assets does not show: on a table with one asset per scan and host, a merge gives the
  same counts, the same tables and the same exceptions as one that asks the table for the asset of
  every single endpoint.
\<close>

theorem asset_cache_is_transparent:
  assumes "distinct (map asset_key (db_assets db))"
  shows "merge_surface_map py scan_id surface db =
     merge_uncached py scan_id (sm_endpoints surface)
       \<lparr>ms_assets_created = 0, ms_endpoints_created = 0, ms_endpoints_merged = 0\<rparr> db"
  unfolding merge_surface_map_def
  by (rule merge_loop_uncached [OF assms]) (simp add: cache_ok_def dict_get_def)

text \<open>A surface for the examples: two endpoints of one host.\<close>

definition demo_surface :: surface_map where
  "demo_surface = \<lparr>sm_root_url = ''https://shop.io/'', sm_persona_id = ''anonymous'', sm_endpoints =
     [\<lparr>de_method = ''GET'', de_url = ''https://shop.io/'', de_path_template = ''/'', de_source = FROM_LINK, de_persona_id = ''anonymous''\<rparr>,
      \<lparr>de_method = ''POST'', de_url = ''https://shop.io/'', de_path_template = ''/'', de_source = FROM_FORM, de_persona_id = ''anonymous''\<rparr>],
     sm_pages_visited = 1, sm_notes = []\<rparr>"

theorem asset_cache_is_transparent_witness:
  "merge_surface_map no_lib 7 demo_surface empty_database =
     merge_uncached no_lib 7 (sm_endpoints demo_surface)
       \<lparr>ms_assets_created = 0, ms_endpoints_created = 0, ms_endpoints_merged = 0\<rparr> empty_database"
  by (rule asset_cache_is_transparent) (simp add: empty_database_def)

text \<open>
  C15. A merge loses nothing and doubles nothing: on tables with unique keys and for endpoints whose
  URLs parse, it does not raise, the keys stay unique, every discovered endpoint has a row that
  names its persona under an asset of this scan with its host, no asset and no persona of an
  endpoint is lost, and the counts it reports are the numbers of new rows, every endpoint being
  counted once.
\<close>

theorem merge_surface_map_complete:
  assumes "tables_unique db" and "\<forall>d\<in>set (sm_endpoints surface). \<exists>host. endpoint_host py d = Inr host"
  shows "\<exists>s db'. merge_surface_map py scan_id surface db = Inr (s, db') \<and> tables_unique db' \<and> rows_kept db db' \<and>
     (\<forall>d\<in>set (sm_endpoints surface). on_record py scan_id db' d) \<and>
     length (db_assets db') = length (db_assets db) + ms_assets_created s \<and>
     length (db_endpoints db') = length (db_endpoints db) + ms_endpoints_created s \<and>
     ms_endpoints_created s + ms_endpoints_merged s = length (sm_endpoints surface)"
proof -
  let ?z = "\<lparr>ms_assets_created = 0, ms_endpoints_created = 0, ms_endpoints_merged = 0\<rparr>"
  have "merge_surface_map py scan_id surface db = merge_uncached py scan_id (sm_endpoints surface) ?z db"
    unfolding merge_surface_map_def using assms(1)
    by (intro merge_loop_uncached) (simp_all add: tables_unique_def cache_ok_def dict_get_def)
  with merge_uncached_complete [OF assms, of scan_id ?z] show ?thesis by simp
qed

theorem merge_surface_map_complete_witness:
  "\<exists>s db'. merge_surface_map no_lib 7 demo_surface empty_database = Inr (s, db') \<and>
     ms_endpoints_created s + ms_endpoints_merged s = 2 \<and> length (db_endpoints db') = ms_endpoints_created s"
proof -
  have "\<forall>d\<in>set (sm_endpoints demo_surface). \<exists>host. endpoint_host no_lib d = Inr host"
    by (simp add: demo_surface_def endpoint_host_def demo_urlsplit)
  from merge_surface_map_complete [OF _ this, of empty_database 7] show ?thesis
    by (auto simp: tables_unique_def empty_database_def demo_surface_def)
qed

end
