(* ===== verification/Scan_Runner.thy ===== *)
theory Scan_Runner
  imports Worker_World Surface_Adapter
begin

text \<open>
  The scan orchestrator: \<^verbatim>\<open>apps/worker/sentinel_worker_app/scan_runner.py\<close>. One definition per
  function of the module and one per phase of \<^verbatim>\<open>run_scan\<close>; a phase after which the runner returns
  early gives \<open>None\<close>. Every flush and every commit may be refused by the database; the flushes inside the merge
  of a surface map, between which nothing leaves the worker, are the one that follows it. The worker is alone on its
  scan's rows while it runs; closing the browser and the clients and logging are not modelled.
\<close>

section \<open>Rows\<close>

definition update_scan :: "uid \<Rightarrow> (scan_row \<Rightarrow> scan_row) \<Rightarrow> database \<Rightarrow> database" where
  "update_scan i f db = db\<lparr>db_scans := map (\<lambda>s. if sc_id s = i then f s else s) (db_scans db)\<rparr>"

definition update_phase :: "uid \<Rightarrow> (phase_row \<Rightarrow> phase_row) \<Rightarrow> database \<Rightarrow> database" where
  "update_phase i f db = db\<lparr>db_phases := map (\<lambda>p. if ph_id p = i then f p else p) (db_phases db)\<rparr>"

definition update_persona :: "uid \<Rightarrow> (persona_row \<Rightarrow> persona_row) \<Rightarrow> database \<Rightarrow> database" where
  "update_persona i f db = db\<lparr>db_personas := map (\<lambda>p. if pe_id p = i then f p else p) (db_personas db)\<rparr>"

text \<open>
  \<^verbatim>\<open>session.flush()\<close> sends the statements of the rows that changed, \<^verbatim>\<open>session.commit()\<close> flushes and makes them
  permanent. The database may refuse the statements; the exception leaves the runner and what was not committed is lost.
\<close>

definition rflush :: "('s, 'n, 'b, 'p) run_env \<Rightarrow> ('s, 'n, 'b, 'p, unit) run" where
  "rflush env w =
     Some (case re_refuse env (rw_ticks w) (rw_saved w) (rw_db w) of None \<Rightarrow> Inr () | Some x \<Rightarrow> Inl (Run_Exn x),
           w\<lparr>rw_ticks := rw_ticks w + 1\<rparr>)"

definition rcommit :: "('s, 'n, 'b, 'p) run_env \<Rightarrow> ('s, 'n, 'b, 'p, unit) run" where
  "rcommit env = rbind (rflush env) (\<lambda>_ w. Some (Inr (), w\<lparr>rw_saved := rw_db w\<rparr>))"

definition ropen :: "('s, 'n, 'b, 'p, unit) run" where
  "ropen w = Some (Inr (), w\<lparr>rw_db := rw_saved w\<rparr>)"

section \<open>Phases\<close>

definition get_or_create_phase :: "('s, 'n, 'b, 'p) run_env \<Rightarrow> uid \<Rightarrow> scan_phase_name \<Rightarrow> ('s, 'n, 'b, 'p, uid) run" where
  "get_or_create_phase env scan_id name =
     rbind (rread (\<lambda>db. find (\<lambda>p. ph_name p = name) (phases_of scan_id db))) (\<lambda>found.
       case found of
         Some p \<Rightarrow> rreturn (ph_id p)
       | None \<Rightarrow>
           rbind (rread db_next) (\<lambda>i.
           rbind (rdb (\<lambda>db. db\<lparr>db_phases := db_phases db @
               [\<lparr>ph_id = i, ph_scan_id = scan_id, ph_name = name, ph_status = PS_PENDING, ph_started_at = None,
                 ph_finished_at = None, ph_error = None, ph_stats = JObj []\<rparr>], db_next := i + 1\<rparr>)) (\<lambda>_.
           rbind (rflush env) (\<lambda>_.
             rreturn i))))"

definition start_phase :: "('s, 'n, 'b, 'p) run_env \<Rightarrow> uid \<Rightarrow> ('s, 'n, 'b, 'p, unit) run" where
  "start_phase env ph =
     rbind rtick (\<lambda>t.
     rbind (rdb (update_phase ph (\<lambda>p. p\<lparr>ph_status := PS_RUNNING, ph_started_at := Some (re_now env t)\<rparr>))) (\<lambda>_.
       rflush env))"

definition finish_phase ::
  "('s, 'n, 'b, 'p) run_env \<Rightarrow> uid \<Rightarrow> phase_status \<Rightarrow> json \<Rightarrow> string option \<Rightarrow> ('s, 'n, 'b, 'p, unit) run" where
  "finish_phase env ph st stats err =
     rbind rtick (\<lambda>t.
     rbind (rdb (update_phase ph (\<lambda>p. p\<lparr>ph_status := st, ph_finished_at := Some (re_now env t),
       ph_stats := stats, ph_error := err\<rparr>))) (\<lambda>_.
       rflush env))"

text \<open>\<^verbatim>\<open>machine.transition(target); scan.state = machine.current\<close>.\<close>

definition enter_state :: "uid \<Rightarrow> scan_state_machine \<Rightarrow> scan_state \<Rightarrow> ('s, 'n, 'b, 'p, scan_state_machine) run" where
  "enter_state scan_id m s =
     (case transition m s None of
        Inl x \<Rightarrow> (\<lambda>w. Some (Inl (Run_Machine x), w))
      | Inr m' \<Rightarrow> rbind (rdb (update_scan scan_id (\<lambda>r. r\<lparr>sc_state := current m'\<rparr>))) (\<lambda>_. rreturn m'))"

definition degrade :: "uid \<Rightarrow> ptext list \<Rightarrow> ('s, 'n, 'b, 'p, unit) run" where
  "degrade scan_id notes =
     rdb (update_scan scan_id (\<lambda>r. r\<lparr>sc_is_degraded := True, sc_degraded_reasons := sc_degraded_reasons r @ notes\<rparr>))"

definition finish_scan :: "('s, 'n, 'b, 'p) run_env \<Rightarrow> uid \<Rightarrow> ('s, 'n, 'b, 'p, unit) run" where
  "finish_scan env scan_id =
     rbind rtick (\<lambda>t. rbind (rdb (update_scan scan_id (\<lambda>r. r\<lparr>sc_finished_at := Some (re_now env t)\<rparr>))) (\<lambda>_. rcommit env))"

abbreviation jkey :: "string \<Rightarrow> ptext" where
  "jkey s \<equiv> code_points s"

definition jnat :: "nat \<Rightarrow> json" where
  "jnat n = JNum (show_nat n)"

section \<open>Scope verification and recon\<close>

definition not_scannable_error :: string where
  "not_scannable_error = ''Target is not scannable (ownership/authorization gate failed).''"

definition scope_phase ::
  "('s, 'n, 'b, 'p) run_env \<Rightarrow> uid \<Rightarrow> target \<Rightarrow> scan_state_machine \<Rightarrow> ('s, 'n, 'b, 'p, scan_state_machine option) run" where
  "scope_phase env scan_id t m =
     rbind (get_or_create_phase env scan_id PH_SCOPE_VERIFYING) (\<lambda>ph.
     rbind (enter_state scan_id m SCOPE_VERIFYING) (\<lambda>m.
     rbind (start_phase env ph) (\<lambda>_.
       if \<not> is_scannable t
       then rbind (enter_state scan_id m BLOCKED_UNVERIFIED) (\<lambda>m.
            rbind (finish_phase env ph PS_FAILED (JObj []) (Some not_scannable_error)) (\<lambda>_.
            rbind (finish_scan env scan_id) (\<lambda>_. rreturn None)))
       else rbind (finish_phase env ph PS_COMPLETED (JObj [(jkey ''target_scannable'', JBool True)]) None) (\<lambda>_.
            rbind (rcommit env) (\<lambda>_. rreturn (Some m))))))"

definition do_recon :: "('s, 'n, 'b, 'p) run_env \<Rightarrow> ptext \<Rightarrow> ('s, 'n, 'b, 'p, recon_result) run" where
  "do_recon env domain w =
     Some (case run_recon (re_recon env) domain of Inl x \<Rightarrow> Inl (Run_Exn x) | Inr r \<Rightarrow> Inr r,
           w\<lparr>rw_recon := domain # rw_recon w\<rparr>)"

definition probe_json :: "http_probe_result \<Rightarrow> json" where
  "probe_json p = JObj [(jkey ''url'', hp_url p), (jkey ''status_code'', hp_status_code p), (jkey ''title'', hp_title p),
     (jkey ''server'', hp_server p), (jkey ''tech'', hp_tech p),
     (jkey ''error'', case hp_error p of None \<Rightarrow> JNull | Some e \<Rightarrow> JStr (code_points e))]"

definition recon_asset :: "uid \<Rightarrow> uid \<Rightarrow> discovered_asset \<Rightarrow> asset_row" where
  "recon_asset scan_id i a = \<lparr>as_id = i, as_scan_id = scan_id, as_host = da_host a, as_ip_addresses = da_ips a,
     as_http_probes = JArr (map probe_json (da_http_probes a)), as_discovery_source = da_source a\<rparr>"

fun add_recon_assets :: "uid \<Rightarrow> discovered_asset list \<Rightarrow> database \<Rightarrow> database" where
  "add_recon_assets scan_id [] db = db"
| "add_recon_assets scan_id (a # rest) db =
     add_recon_assets scan_id rest
       (db\<lparr>db_assets := db_assets db @ [recon_asset scan_id (db_next db) a], db_next := db_next db + 1\<rparr>)"

definition recon_stats :: "recon_result \<Rightarrow> json" where
  "recon_stats r = JObj [(jkey ''assets_found'', jnat (length (rr_assets r))),
     (jkey ''tool_availability'', JObj (map (\<lambda>(k, b). (jkey k, JBool b)) (rr_tool_availability r))),
     (jkey ''wildcard_dns_suspected'', JBool (rr_wildcard_dns_suspected r)),
     (jkey ''notes'', JArr (map JStr (rr_notes r)))]"

definition recon_phase ::
  "('s, 'n, 'b, 'p) run_env \<Rightarrow> uid \<Rightarrow> target \<Rightarrow> scan_state_machine \<Rightarrow> ('s, 'n, 'b, 'p, scan_state_machine) run" where
  "recon_phase env scan_id t m =
     rbind (get_or_create_phase env scan_id PH_RECON) (\<lambda>ph.
     rbind (enter_state scan_id m RECON) (\<lambda>m.
     rbind (start_phase env ph) (\<lambda>_.
     rbind (rcommit env) (\<lambda>_.
     rbind (do_recon env (code_points (tg_root_domain t))) (\<lambda>r.
     rbind (rdb (add_recon_assets scan_id (rr_assets r))) (\<lambda>_.
     rbind (finish_phase env ph PS_COMPLETED (recon_stats r) None) (\<lambda>_.
     rbind (if degraded r then degrade scan_id (rr_notes r) else rreturn ()) (\<lambda>_.
     rbind (rcommit env) (\<lambda>_. rreturn m)))))))))"

section \<open>Authentication\<close>

definition persona_note :: "persona_row \<Rightarrow> persona_auth_result \<Rightarrow> ptext" where
  "persona_note p res = code_points (''Persona '' @ [CHR 0x27] @ pe_label p @ [CHR 0x27] @ '': '') @
     or_default (pa_oracle_detail res) (code_points ''None'')"

type_synonym sessions = "(string, browser_cookie list) dict"

definition keep_session ::
  "('s, 'n, 'b, 'p) run_env \<Rightarrow> uid \<Rightarrow> bytes \<Rightarrow> persona_row \<Rightarrow> persona_auth_result \<Rightarrow> ('s, 'n, 'b, 'p, unit) run" where
  "keep_session env scan_id key p res =
     rbind rtick (\<lambda>s.
     rbind (rlift (env_encrypt (re_fernet env) key (re_seed env s) (re_dump_state env (or_default (pa_storage_state res) [])))) (\<lambda>c.
     rbind rtick (\<lambda>t.
     rbind (rdb (update_persona (pe_id p) (\<lambda>p. p\<lparr>pe_session_state_ciphertext := Some c,
       pe_session_state_updated_at := Some (re_now env t), pe_session_oracle := pa_session_oracle res\<rparr>))) (\<lambda>_.
       if pa_session_oracle res = None then degrade scan_id [persona_note p res] else rreturn ()))))"

fun auth_loop ::
  "('s, 'n, 'b, 'p) run_env \<Rightarrow> uid \<Rightarrow> bytes \<Rightarrow> engine \<Rightarrow> string \<Rightarrow> persona_row list \<Rightarrow> nat \<Rightarrow> sessions \<Rightarrow>
     ('s, 'n, 'b, 'p, nat \<times> sessions) run" where
  "auth_loop env scan_id key e url [] n ss = rreturn (n, ss)"
| "auth_loop env scan_id key e url (p # ps) n ss =
     rbind (rread (persona_credential p)) (\<lambda>cred.
     rbind (establish_persona env p cred key e url) (\<lambda>res.
     rbind (rdb (update_persona (pe_id p) (\<lambda>p. p\<lparr>pe_is_available := pa_available res,
       pe_unavailable_reason := pa_unavailable_reason res\<rparr>))) (\<lambda>_.
       if \<not> pa_available res then auth_loop env scan_id key e url ps n ss
       else rbind (keep_session env scan_id key p res) (\<lambda>_.
         auth_loop env scan_id key e url ps (n + 1)
           (dict_set (show_nat (pe_id p)) (or_default (pa_storage_state res) []) ss)))))"

definition target_root_url :: "target \<Rightarrow> string" where
  "target_root_url t = ''https://'' @ tg_root_domain t @ ''/''"

definition worker_engine :: "uid \<Rightarrow> target \<Rightarrow> scope_rule_row list \<Rightarrow> engine" where
  "worker_engine scan_id t rows = build_http_engine (build_scope_guard t rows) (show_nat (tg_id t)) (show_nat scan_id)"

text \<open>The number of personas available and their storage states.\<close>

definition run_auth_establishing ::
  "('s, 'n, 'b, 'p) run_env \<Rightarrow> uid \<Rightarrow> target \<Rightarrow> organization option \<Rightarrow> scope_rule_row list \<Rightarrow> persona_row list \<Rightarrow>
     ('s, 'n, 'b, 'p, nat \<times> sessions) run" where
  "run_auth_establishing env scan_id t org rows personas =
     (if personas = [] then rreturn (0, [])
      else
        rbind (rlift (new_local_provider (re_fernet env) [utf8_encode (code_points (re_kms_master_key env))])) (\<lambda>crypto.
        rbind (rlift (case org of None \<Rightarrow> Inl (Other_Error ''AttributeError'')
                      | Some g \<Rightarrow> unwrap (re_fernet env) crypto (org_wrapped_data_key g))) (\<lambda>key.
          auth_loop env scan_id key (worker_engine scan_id t rows) (target_root_url t) personas 0 [])))"

definition no_kms_note :: ptext where
  "no_kms_note = code_points ''KMS_MASTER_KEY is not configured '' @ [0x2014] @
     code_points '' cannot decrypt any persona credentials. Proceeding with an anonymous-only crawl.''"

definition no_recipe_note :: ptext where
  "no_recipe_note = code_points ''No personas have a login recipe configured '' @ [0x2014] @
     code_points '' proceeding with an anonymous-only crawl.''"

definition auth_stats :: "nat \<Rightarrow> nat \<Rightarrow> json" where
  "auth_stats configured available =
     JObj [(jkey ''personas_configured'', jnat configured), (jkey ''personas_available'', jnat available)]"

definition launch :: "('s, 'n, 'b, 'p) run_env \<Rightarrow> scan_phase_name \<Rightarrow> ('s, 'n, 'b, 'p, unit) run" where
  "launch env ph = rlift (case re_launch env ph of None \<Rightarrow> Inr () | Some x \<Rightarrow> Inl x)"

text \<open>The three branches; \<open>None\<close> after a failed authentication.\<close>

definition auth_branch ::
  "('s, 'n, 'b, 'p) run_env \<Rightarrow> uid \<Rightarrow> target \<Rightarrow> organization option \<Rightarrow> scope_rule_row list \<Rightarrow> persona_row list \<Rightarrow>
     uid \<Rightarrow> scan_state_machine \<Rightarrow> ('s, 'n, 'b, 'p, sessions option) run" where
  "auth_branch env scan_id t org rows configured ph m =
     (if re_kms_master_key env = [] \<and> configured \<noteq> []
      then rbind (degrade scan_id [no_kms_note]) (\<lambda>_.
           rbind (finish_phase env ph PS_SKIPPED (JObj [(jkey ''error'', JStr no_kms_note)]) None) (\<lambda>_. rreturn (Some [])))
      else if configured = []
      then rbind (degrade scan_id [no_recipe_note]) (\<lambda>_.
           rbind (finish_phase env ph PS_COMPLETED (auth_stats 0 0) None) (\<lambda>_. rreturn (Some [])))
      else
        rbind (launch env PH_AUTH_ESTABLISHING) (\<lambda>_.
        rbind (run_auth_establishing env scan_id t org rows configured) (\<lambda>(available, ss).
          if available = 0
          then rbind (enter_state scan_id m FAILED_AUTH) (\<lambda>m.
               rbind (finish_phase env ph PS_FAILED (auth_stats (length configured) available)
                 (Some ''All configured personas failed to establish a session.'')) (\<lambda>_.
               rbind (finish_scan env scan_id) (\<lambda>_. rreturn None)))
          else rbind (finish_phase env ph PS_COMPLETED (auth_stats (length configured) available) None) (\<lambda>_.
               rreturn (Some ss)))))"

definition auth_phase ::
  "('s, 'n, 'b, 'p) run_env \<Rightarrow> uid \<Rightarrow> target \<Rightarrow> organization option \<Rightarrow> scope_rule_row list \<Rightarrow> persona_row list \<Rightarrow>
     scan_state_machine \<Rightarrow> ('s, 'n, 'b, 'p, (scan_state_machine \<times> sessions) option) run" where
  "auth_phase env scan_id t org rows configured m =
     rbind (get_or_create_phase env scan_id PH_AUTH_ESTABLISHING) (\<lambda>ph.
     rbind (enter_state scan_id m AUTH_ESTABLISHING) (\<lambda>m.
     rbind (start_phase env ph) (\<lambda>_.
     rbind (rcommit env) (\<lambda>_.
     rbind (auth_branch env scan_id t org rows configured ph m) (\<lambda>ss.
       case ss of
         None \<Rightarrow> rreturn None
       | Some ss \<Rightarrow>
           rbind (enter_state scan_id m CRAWLING) (\<lambda>m.
           rbind (rcommit env) (\<lambda>_. rreturn (Some (m, ss)))))))))"

section \<open>Crawling\<close>

definition worker_crawler :: "('s, 'n, 'b, 'p) run_env \<Rightarrow> target \<Rightarrow> scope_rule_row list \<Rightarrow> 'p crawler" where
  "worker_crawler env t rows =
     \<lparr>cr_py = env_py (re_engine env), cr_scope_guard = build_scope_guard t rows,
      cr_destructive_guard = default_destructive_guard, cr_limiter = default_limiter,
      cr_await = env_await (re_engine env), cr_sleep = env_sleep (re_engine env), cr_target_id = show_nat (tg_id t),
      cr_max_pages = 30, cr_page_timeout_s = 15, cr_driver = re_pages env\<rparr>"

definition run_crawl ::
  "('s, 'n, 'b, 'p) run_env \<Rightarrow> 'p crawler \<Rightarrow> string \<Rightarrow> string \<Rightarrow> browser_cookie list option \<Rightarrow> ('s, 'n, 'b, 'p, surface_map) run" where
  "run_crawl env cr root_url persona_id state w =
     (case re_open_page env state (rw_page w) of
        Inl x \<Rightarrow> Some (Inl (Run_Exn x), w)
      | Inr page \<Rightarrow>
          (case crawl cr root_url persona_id (w_db (rw_engine w)) page of
             None \<Rightarrow> None
           | Some (r, st) \<Rightarrow>
               Some (case r of Inl x \<Rightarrow> Inl (Run_Exn x) | Inr s \<Rightarrow> Inr s,
                     w\<lparr>rw_engine := (rw_engine w)\<lparr>w_db := cs_db st\<rparr>, rw_page := cs_page st,
                       rw_goto := cs_goto st @ rw_goto w\<rparr>)))"

fun crawl_personas ::
  "('s, 'n, 'b, 'p) run_env \<Rightarrow> 'p crawler \<Rightarrow> string \<Rightarrow> sessions \<Rightarrow> persona_row list \<Rightarrow> ('s, 'n, 'b, 'p, surface_map list) run" where
  "crawl_personas env cr url ss [] = rreturn []"
| "crawl_personas env cr url ss (p # ps) =
     (case dict_get ss (show_nat (pe_id p)) of
        None \<Rightarrow> crawl_personas env cr url ss ps
      | Some state \<Rightarrow>
          rbind (run_crawl env cr url (show_nat (pe_id p)) (Some state)) (\<lambda>s.
          rbind (crawl_personas env cr url ss ps) (\<lambda>rest. rreturn (s # rest))))"

definition run_crawling ::
  "('s, 'n, 'b, 'p) run_env \<Rightarrow> target \<Rightarrow> scope_rule_row list \<Rightarrow> persona_row list \<Rightarrow> sessions \<Rightarrow> ('s, 'n, 'b, 'p, surface_map list) run" where
  "run_crawling env t rows configured ss =
     rbind (run_crawl env (worker_crawler env t rows) (target_root_url t) ''anonymous'' None) (\<lambda>s.
     rbind (crawl_personas env (worker_crawler env t rows) (target_root_url t) ss configured) (\<lambda>rest.
       rreturn (s # rest)))"

definition by_persona :: "(surface_map \<Rightarrow> json) \<Rightarrow> surface_map list \<Rightarrow> json" where
  "by_persona f ss = JObj (fold (\<lambda>s d. dict_set (jkey (sm_persona_id s)) (f s) d) ss [])"

definition crawl_stats :: "surface_map list \<Rightarrow> json" where
  "crawl_stats ss = JObj [(jkey ''personas_crawled'', JArr (map (\<lambda>s. JStr (jkey (sm_persona_id s))) ss)),
     (jkey ''pages_visited_by_persona'', by_persona (\<lambda>s. jnat (sm_pages_visited s)) ss),
     (jkey ''endpoints_by_persona'', by_persona (\<lambda>s. jnat (length (sm_endpoints s))) ss)]"

definition crawl_phase ::
  "('s, 'n, 'b, 'p) run_env \<Rightarrow> uid \<Rightarrow> target \<Rightarrow> scope_rule_row list \<Rightarrow> persona_row list \<Rightarrow> scan_state_machine \<Rightarrow> sessions \<Rightarrow>
     ('s, 'n, 'b, 'p, scan_state_machine \<times> surface_map list) run" where
  "crawl_phase env scan_id t rows configured m ss =
     rbind (get_or_create_phase env scan_id PH_CRAWLING) (\<lambda>ph.
     rbind (start_phase env ph) (\<lambda>_.
     rbind (rcommit env) (\<lambda>_.
     rbind (launch env PH_CRAWLING) (\<lambda>_.
     rbind (run_crawling env t rows configured ss) (\<lambda>surfaces.
     rbind (finish_phase env ph PS_COMPLETED (crawl_stats surfaces) None) (\<lambda>_.
     rbind (enter_state scan_id m SURFACE_MAPPING) (\<lambda>m.
     rbind (rcommit env) (\<lambda>_. rreturn (m, surfaces)))))))))"

section \<open>Surface mapping\<close>

definition add_stats :: "merge_stats \<Rightarrow> merge_stats \<Rightarrow> merge_stats" where
  "add_stats a b = \<lparr>ms_assets_created = ms_assets_created a + ms_assets_created b,
     ms_endpoints_created = ms_endpoints_created a + ms_endpoints_created b,
     ms_endpoints_merged = ms_endpoints_merged a + ms_endpoints_merged b\<rparr>"

definition run_merge :: "('s, 'n, 'b, 'p) run_env \<Rightarrow> uid \<Rightarrow> surface_map \<Rightarrow> ('s, 'n, 'b, 'p, merge_stats) run" where
  "run_merge env scan_id s w =
     (case merge_surface_map (env_py (re_engine env)) scan_id s (rw_db w) of
        Inl x \<Rightarrow> Some (Inl (Run_Exn x), w)
      | Inr (stats, db) \<Rightarrow> Some (Inr stats, w\<lparr>rw_db := db\<rparr>))"

fun merge_all :: "('s, 'n, 'b, 'p) run_env \<Rightarrow> uid \<Rightarrow> surface_map list \<Rightarrow> merge_stats \<Rightarrow> ('s, 'n, 'b, 'p, merge_stats) run" where
  "merge_all env scan_id [] acc = rreturn acc"
| "merge_all env scan_id (s # ss) acc =
     rbind (run_merge env scan_id s) (\<lambda>stats. merge_all env scan_id ss (add_stats acc stats))"

definition surface_stats :: "merge_stats \<Rightarrow> json" where
  "surface_stats s = JObj [(jkey ''endpoints_created'', jnat (ms_endpoints_created s)),
     (jkey ''endpoints_merged_across_personas'', jnat (ms_endpoints_merged s)),
     (jkey ''assets_created'', jnat (ms_assets_created s))]"

definition NOT_YET_IMPLEMENTED_NOTE :: ptext where
  "NOT_YET_IMPLEMENTED_NOTE = code_points ''Paused after surface mapping '' @ [0x2014] @
     code_points ('' the check engines (injection, authz, session, business-logic) and everything past them are '' @
       ''not implemented yet (see docs/05-v1-roadmap.md milestones M2-M3). This scan can be resumed once they '' @
       ''land; it is not stuck or broken.'')"

definition surface_phase ::
  "('s, 'n, 'b, 'p) run_env \<Rightarrow> uid \<Rightarrow> scan_state_machine \<Rightarrow> surface_map list \<Rightarrow> ('s, 'n, 'b, 'p, unit) run" where
  "surface_phase env scan_id m surfaces =
     rbind (get_or_create_phase env scan_id PH_SURFACE_MAPPING) (\<lambda>ph.
     rbind (start_phase env ph) (\<lambda>_.
     rbind (rcommit env) (\<lambda>_.
     rbind (merge_all env scan_id surfaces \<lparr>ms_assets_created = 0, ms_endpoints_created = 0, ms_endpoints_merged = 0\<rparr>) (\<lambda>acc.
     rbind (finish_phase env ph PS_COMPLETED (surface_stats acc) None) (\<lambda>_.
     rbind (enter_state scan_id m PAUSED) (\<lambda>m.
     rbind (rdb (update_scan scan_id (\<lambda>r. r\<lparr>sc_paused_from := paused_from m\<rparr>))) (\<lambda>_.
     rbind (degrade scan_id [NOT_YET_IMPLEMENTED_NOTE]) (\<lambda>_. rcommit env))))))))"

section \<open>The run\<close>

definition target_rules :: "target \<Rightarrow> database \<Rightarrow> scope_rule_row list" where
  "target_rules t db = filter (\<lambda>r. sr_target_id r = tg_id t) (db_scope_rules db)"

definition configured_personas :: "target \<Rightarrow> database \<Rightarrow> persona_row list" where
  "configured_personas t db =
     filter has_recipe (filter (\<lambda>p. pe_target_id p = tg_id t) (db_personas db))"

definition later_phases ::
  "('s, 'n, 'b, 'p) run_env \<Rightarrow> uid \<Rightarrow> target \<Rightarrow> organization option \<Rightarrow> scope_rule_row list \<Rightarrow> persona_row list \<Rightarrow>
     scan_state_machine \<Rightarrow> ('s, 'n, 'b, 'p, unit) run" where
  "later_phases env scan_id t org rows configured m =
     rbind (auth_phase env scan_id t org rows configured m) (\<lambda>r.
       case r of
         None \<Rightarrow> rreturn ()
       | Some (m, ss) \<Rightarrow>
           rbind (crawl_phase env scan_id t rows configured m ss) (\<lambda>(m, surfaces).
             surface_phase env scan_id m surfaces))"

definition scan_body ::
  "('s, 'n, 'b, 'p) run_env \<Rightarrow> uid \<Rightarrow> target \<Rightarrow> scan_state_machine \<Rightarrow> ('s, 'n, 'b, 'p, unit) run" where
  "scan_body env scan_id t m =
     rbind (scope_phase env scan_id t m) (\<lambda>m.
       case m of
         None \<Rightarrow> rreturn ()
       | Some m \<Rightarrow>
           rbind (recon_phase env scan_id t m) (\<lambda>m.
           rbind (rread (get_org (tg_organization_id t))) (\<lambda>org.
           rbind (rread (target_rules t)) (\<lambda>rows.
           rbind (rread (configured_personas t)) (\<lambda>configured.
             later_phases env scan_id t org rows configured m)))))"

definition run_scan :: "('s, 'n, 'b, 'p) run_env \<Rightarrow> string \<Rightarrow> ('s, 'n, 'b, 'p, unit) run" where
  "run_scan env scan_id =
     rbind ropen (\<lambda>_.
       case re_uuid env scan_id of
         None \<Rightarrow> rlift (Inl (Value_Error ''badly formed hexadecimal UUID string''))
       | Some i \<Rightarrow>
           rbind (rread (get_scan_row i)) (\<lambda>scan.
             case scan of
               None \<Rightarrow> rreturn ()
             | Some scan \<Rightarrow>
                 rbind (rread (get_target (sc_target_id scan))) (\<lambda>t.
                   case t of
                     None \<Rightarrow> rreturn ()
                   | Some t \<Rightarrow>
                       scan_body env i t
                         \<lparr>current = sc_state scan, paused_from = sc_paused_from scan, fail_reason = None\<rparr>)))"

end
