(* ===== verification/Run_Frames.thy ===== *)
theory Run_Frames
  imports Scan_Runner
begin

text \<open>
  Frames for the orchestrator. \<open>work_frame\<close> is the interface of a relation on worlds that the parts of
  a phase respect, \<open>scan_frame\<close> adds the operations between them; in the second, every phase is
  shown to respect the relation once. The interpretations are the relations the properties need:
  the tables a run only reads, what leaves the worker, the state of the scan's row inside a phase,
  and the table of phases.
\<close>

section \<open>The interfaces\<close>

text \<open>The keys of a persona's row, which no part of a run changes.\<close>

definition persona_refs :: "persona_row \<Rightarrow> uid \<times> uid \<times> uid option" where
  "persona_refs p = (pe_id p, pe_target_id p, pe_credential_id p)"

lemma persona_refs_session [simp]:
  "persona_refs (p\<lparr>pe_session_state_ciphertext := x1\<rparr>) = persona_refs p"
  "persona_refs (p\<lparr>pe_session_state_updated_at := x2\<rparr>) = persona_refs p"
  "persona_refs (p\<lparr>pe_session_oracle := x3\<rparr>) = persona_refs p"
  "persona_refs (p\<lparr>pe_is_available := x4\<rparr>) = persona_refs p"
  "persona_refs (p\<lparr>pe_unavailable_reason := x5\<rparr>) = persona_refs p"
  by (simp_all add: persona_refs_def)

locale work_frame = run_frame R I strict
  for R :: "('s, 'n, 'b, 'p) run_world \<Rightarrow> ('s, 'n, 'b, 'p) run_world \<Rightarrow> bool" and I strict +
  fixes env :: "('s, 'n, 'b, 'p) run_env" and t :: target and rows :: "scope_rule_row list" and scan_id :: uid
  assumes m_tick: "moves rtick"
    and m_degrade: "moves (degrade scan_id notes)"
    and m_persona: "(\<And>p. persona_refs (f p) = persona_refs p) \<Longrightarrow> moves (rdb (update_persona pid f))"
    and m_replay: "moves (run_replay env recipe creds)"
    and m_oracle: "moves (run_oracle env (worker_engine scan_id t rows) ps u)"
    and m_crawl: "moves (run_crawl env (worker_crawler env t rows) u pid' state)"
    and m_merge: "moves (run_merge env scan_id s)"
begin

lemmas work_rules = m_tick m_degrade m_persona m_replay m_oracle m_crawl m_merge

lemma moves_flush: "moves (rflush env)"
  using m_tick by (simp add: moves_def rflush_def rtick_def)

lemma moves_establish: "moves (establish_persona env p cred key (worker_engine scan_id t rows) u)"
  unfolding establish_persona_def
  by (auto split: option.split intro!: moves_rules work_rules)

lemma moves_keep_session: "moves (keep_session env scan_id key p res)"
  unfolding keep_session_def by (auto intro!: moves_rules work_rules)

lemma moves_auth_loop: "moves (auth_loop env scan_id key (worker_engine scan_id t rows) u ps n ss)"
proof (induction ps arbitrary: n ss)
  case (Cons p ps)
  show ?case unfolding auth_loop.simps
    by (intro moves_bind moves_read moves_establish m_persona) (auto intro!: moves_bind moves_keep_session Cons.IH)
qed (simp add: moves_return)

lemma moves_run_auth: "moves (run_auth_establishing env scan_id t org rows ps)"
  unfolding run_auth_establishing_def by (auto intro!: moves_rules moves_auth_loop)

lemma moves_crawl_personas: "moves (crawl_personas env (worker_crawler env t rows) u ss ps)"
  by (induction ps) (auto split: option.split intro!: moves_rules m_crawl)

lemma moves_run_crawling: "moves (run_crawling env t rows ps ss)"
  unfolding run_crawling_def by (intro moves_rules m_crawl moves_crawl_personas)

lemma moves_merge_all: "moves (merge_all env scan_id ss acc)"
  by (induction ss arbitrary: acc) (auto intro!: moves_rules m_merge)

end

definition phase_key :: "phase_row \<Rightarrow> uid \<times> scan_phase_name" where
  "phase_key p = (ph_scan_id p, ph_name p)"

locale scan_frame = work_frame +
  assumes m_commit: "moves (rcommit env)"
    and m_scan: "(\<And>r. sc_id (f r) = sc_id r) \<Longrightarrow> (\<And>r. sc_target_id (f r) = sc_target_id r) \<Longrightarrow> moves (rdb (update_scan scan_id f))"
    and m_phase: "(\<And>p. phase_key (g p) = phase_key p) \<Longrightarrow> moves (rdb (update_phase ph g))"
    and m_new_phase: "moves (get_or_create_phase env scan_id name)"
    and m_recon: "moves (do_recon env d)"
    and m_assets: "moves (rdb (add_recon_assets scan_id new))"
begin

lemma moves_start: "moves (start_phase env ph)"
  unfolding start_phase_def by (intro moves_bind m_tick m_phase moves_flush) (simp add: phase_key_def)

lemma moves_finish: "moves (finish_phase env ph st stats err)"
  unfolding finish_phase_def by (intro moves_bind m_tick m_phase moves_flush) (simp add: phase_key_def)

lemma moves_enter: "moves (enter_state scan_id m s)"
proof (cases "transition m s None")
  case (Inl x)
  then show ?thesis by (simp add: enter_state_def moves_def R_refl)
next
  case (Inr m')
  then show ?thesis unfolding enter_state_def by (auto intro!: moves_rules m_scan)
qed

lemma moves_finish_scan: "moves (finish_scan env scan_id)"
  unfolding finish_scan_def by (intro moves_bind m_tick m_scan m_commit) simp_all

lemma moves_launch: "moves (launch env ph)"
  unfolding launch_def by (rule moves_lift)

lemmas phase_rules = moves_rules moves_start moves_finish moves_enter moves_finish_scan moves_launch
  m_commit m_new_phase m_recon m_assets m_degrade

lemma moves_scope: "moves (scope_phase env scan_id t' m)"
  unfolding scope_phase_def by (auto intro!: phase_rules)

lemma moves_recon: "moves (recon_phase env scan_id t' m)"
  unfolding recon_phase_def by (auto intro!: phase_rules)

lemma moves_auth_branch: "moves (auth_branch env scan_id t org rows ps ph m)"
  unfolding auth_branch_def by (auto split: prod.split intro!: phase_rules moves_run_auth)

lemma moves_auth: "moves (auth_phase env scan_id t org rows ps m)"
  unfolding auth_phase_def by (auto split: option.split intro!: phase_rules moves_auth_branch)

lemma moves_crawl: "moves (crawl_phase env scan_id t rows ps m ss)"
  unfolding crawl_phase_def by (intro phase_rules moves_run_crawling)

lemma moves_surface: "moves (surface_phase env scan_id m ss)"
  unfolding surface_phase_def by (intro phase_rules moves_merge_all m_scan) simp_all

lemma moves_later: "moves (later_phases env scan_id t org rows ps m)"
  unfolding later_phases_def
  by (auto split: option.split prod.split intro!: moves_rules moves_auth moves_crawl moves_surface)

end

section \<open>What a run only reads\<close>

definition static_tables :: "database \<Rightarrow> organization list \<times> target list \<times> scope_rule_row list \<times> credential_row list" where
  "static_tables db = (db_orgs db, db_targets db, db_scope_rules db, db_credentials db)"

definition static_frame :: "('s, 'n, 'b, 'p) run_world \<Rightarrow> ('s, 'n, 'b, 'p) run_world \<Rightarrow> bool" where
  "static_frame w w' \<longleftrightarrow> static_tables (rw_db w') = static_tables (rw_db w)"

lemma same_assets: "\<exists>as n. db = db\<lparr>db_assets := as, db_next := n\<rparr> \<and> db_next db \<le> n"
  by (intro exI [of _ "db_assets db"] exI [of _ "db_next db"]) simp

lemma add_recon_assets_fields [simp]:
  "db_orgs (add_recon_assets i new db) = db_orgs db" "db_targets (add_recon_assets i new db) = db_targets db"
  "db_scope_rules (add_recon_assets i new db) = db_scope_rules db" "db_credentials (add_recon_assets i new db) = db_credentials db"
  "db_scans (add_recon_assets i new db) = db_scans db" "db_phases (add_recon_assets i new db) = db_phases db"
  by (induction i new db rule: add_recon_assets.induct) simp_all

lemma cached_asset_frame:
  assumes "cached_asset scan_id host cache s db = Inr (a, cache1, s1, db1)"
  shows "\<exists>as n. db1 = db\<lparr>db_assets := as, db_next := n\<rparr> \<and> db_next db \<le> n"
proof (cases "dict_get cache host")
  case None
  with assms obtain created where g: "get_or_create_asset scan_id (code_points host) db = Inr ((a, created), db1)"
    by (auto simp: cached_asset_def bind_res_Inr_iff)
  then obtain f where f: "scalar_one_or_none (filter (\<lambda>a. as_scan_id a = scan_id \<and> as_host a = code_points host) (db_assets db)) = Inr f"
    by (auto simp: get_or_create_asset_def bind_res_Inr_iff)
  show ?thesis
  proof (cases f)
    case None
    with f g have "db1 = db\<lparr>db_assets := db_assets db @ [a], db_next := db_next db + 1\<rparr>"
      by (auto simp: get_or_create_asset_def Let_def)
    then show ?thesis by (intro exI conjI) (assumption, simp)
  qed (use f g same_assets [of db] in \<open>simp add: get_or_create_asset_def\<close>)
next
  case (Some b)
  with assms same_assets [of db] show ?thesis by (simp add: cached_asset_def)
qed

lemma merge_loop_frame:
  "merge_loop py scan_id ds cache s db = Inr (s', db') \<Longrightarrow>
     \<exists>as es n. db' = db\<lparr>db_assets := as, db_endpoints := es, db_next := n\<rparr> \<and> db_next db \<le> n"
proof (induction ds arbitrary: cache s db)
  case Nil
  then show ?case by (intro exI [of _ "db_assets db"] exI [of _ "db_endpoints db"] exI [of _ "db_next db"]) simp
next
  case (Cons d ds)
  from Cons.prems obtain host a cache1 s1 db1 merged db2 where
    c: "cached_asset scan_id host cache s db = Inr (a, cache1, s1, db1)"
    and m: "merge_endpoint (as_id a) d db1 = Inr (merged, db2)"
    and l: "merge_loop py scan_id ds cache1 (count_endpoint merged s1) db2 = Inr (s', db')"
    by (auto simp: bind_res_Inr_iff)
  note cached_asset_frame [OF c]
  moreover from m have "\<exists>es. db2 = db1\<lparr>db_endpoints := es\<rparr>"
    by (auto simp: merge_endpoint_def bind_res_Inr_iff split: option.splits)
  moreover note Cons.IH [OF l]
  ultimately show ?case by (elim exE conjE) (simp, blast intro: le_trans)
qed

lemma run_merge_frame:
  assumes "run_merge env scan_id s w = Some (r, w')"
  shows "\<exists>as es n. w' = w\<lparr>rw_db := (rw_db w)\<lparr>db_assets := as, db_endpoints := es, db_next := n\<rparr>\<rparr> \<and> db_next (rw_db w) \<le> n"
proof (cases "merge_surface_map (env_py (re_engine env)) scan_id s (rw_db w)")
  case (Inl x)
  with assms have "w' = w" by (simp add: run_merge_def)
  then show ?thesis
    by (intro exI [of _ "db_assets (rw_db w)"] exI [of _ "db_endpoints (rw_db w)"] exI [of _ "db_next (rw_db w)"]) simp
next
  case (Inr p)
  obtain st db where p: "p = (st, db)" by (cases p)
  with Inr have "merge_loop (env_py (re_engine env)) scan_id (sm_endpoints s) []
      \<lparr>ms_assets_created = 0, ms_endpoints_created = 0, ms_endpoints_merged = 0\<rparr> (rw_db w) = Inr (st, db)"
    by (simp add: merge_surface_map_def)
  from merge_loop_frame [OF this] assms Inr p show ?thesis by (auto simp: run_merge_def)
qed

lemma get_or_create_phase_cases:
  "get_or_create_phase env scan_id name w =
     (case find (\<lambda>p. ph_name p = name) (phases_of scan_id (rw_db w)) of
        Some p \<Rightarrow> Some (Inr (ph_id p), w)
      | None \<Rightarrow>
          rbind (rflush env) (\<lambda>_. rreturn (db_next (rw_db w))) (w\<lparr>rw_db := (rw_db w)\<lparr>db_phases := db_phases (rw_db w) @
            [\<lparr>ph_id = db_next (rw_db w), ph_scan_id = scan_id, ph_name = name, ph_status = PS_PENDING, ph_started_at = None,
              ph_finished_at = None, ph_error = None, ph_stats = JObj []\<rparr>], db_next := db_next (rw_db w) + 1\<rparr>\<rparr>))"
  by (simp add: get_or_create_phase_def rbind_def rread_def rreturn_def rdb_def split: option.split)

lemma rflush_cases:
  "rflush env w = Some (r, w') \<Longrightarrow>
     w' = w\<lparr>rw_ticks := rw_ticks w + 1\<rparr> \<and>
     (r = Inr () \<and> re_refuse env (rw_ticks w) (rw_saved w) (rw_db w) = None \<or>
      (\<exists>x. r = Inl (Run_Exn x) \<and> re_refuse env (rw_ticks w) (rw_saved w) (rw_db w) = Some x))"
  by (auto simp: rflush_def split: option.splits)

lemma rcommit_cases:
  "rcommit env w = Some (r, w') \<Longrightarrow>
     r = Inr () \<and> re_refuse env (rw_ticks w) (rw_saved w) (rw_db w) = None \<and> w' = w\<lparr>rw_ticks := rw_ticks w + 1, rw_saved := rw_db w\<rparr> \<or>
     (\<exists>x. r = Inl (Run_Exn x) \<and> re_refuse env (rw_ticks w) (rw_saved w) (rw_db w) = Some x) \<and> w' = w\<lparr>rw_ticks := rw_ticks w + 1\<rparr>"
  by (auto simp: rcommit_def rbind_Some dest!: rflush_cases)

lemma get_or_create_phase_frame:
  "get_or_create_phase env scan_id name w = Some (r, w') \<Longrightarrow>
     \<exists>ps n k. w' = w\<lparr>rw_db := (rw_db w)\<lparr>db_phases := ps, db_next := n\<rparr>, rw_ticks := k\<rparr>"
proof (cases "find (\<lambda>p. ph_name p = name) (phases_of scan_id (rw_db w))")
  case (Some p)
  assume "get_or_create_phase env scan_id name w = Some (r, w')"
  with Some show ?thesis
    by (intro exI [of _ "db_phases (rw_db w)"] exI [of _ "db_next (rw_db w)"] exI [of _ "rw_ticks w"])
      (simp add: get_or_create_phase_cases)
qed (auto simp: get_or_create_phase_cases rbind_Some rreturn_def dest!: rflush_cases)

text \<open>The worlds after the primitive operations.\<close>

lemmas primitive_defs = rtick_def rdb_def degrade_def run_replay_def do_recon_def
  update_scan_def update_phase_def update_persona_def

interpretation static: run_frame static_frame "\<lambda>_. True" False
  by unfold_locales (simp_all add: static_frame_def)

interpretation static_run: scan_frame static_frame "\<lambda>_. True" False env t rows scan_id for env t rows scan_id
  by unfold_locales
    (auto simp: static.moves_def static_frame_def static_tables_def primitive_defs run_oracle_def run_crawl_def Let_def
      dest!: run_merge_frame get_or_create_phase_frame rcommit_cases split: option.splits sum.splits prod.splits)


section \<open>What leaves the worker\<close>

text \<open>Every request and every page load that a part of a run adds is permitted by the guard.\<close>

definition outbound_frame ::
  "py_lib \<Rightarrow> scope_guard \<Rightarrow> ('s, 'n, 'b, 'p) run_world \<Rightarrow> ('s, 'n, 'b, 'p) run_world \<Rightarrow> bool" where
  "outbound_frame py g w w' \<longleftrightarrow>
     (\<exists>sent loads. sent_pairs (rw_engine w') = sent @ sent_pairs (rw_engine w) \<and> rw_goto w' = loads @ rw_goto w \<and>
        list_all (\<lambda>(m, u). permits py g m u) sent \<and> list_all (\<lambda>u. permits py g ''GET'' u) loads)"

lemma outbound_frame_quiet:
  "sent_pairs (rw_engine w') = sent_pairs (rw_engine w) \<Longrightarrow> rw_goto w' = rw_goto w \<Longrightarrow> outbound_frame py g w w'"
  by (simp add: outbound_frame_def)

lemma outbound_frame_trans: "outbound_frame py g a b \<Longrightarrow> outbound_frame py g b c \<Longrightarrow> outbound_frame py g a c"
  unfolding outbound_frame_def by (elim exE conjE, intro exI conjI) (assumption | simp)+

interpretation outbound: run_frame "outbound_frame py g" "\<lambda>_. True" False for py g
  by unfold_locales (simp add: outbound_frame_quiet, rule outbound_frame_trans)

lemma establish_oracle_steps:
  assumes "establish_session_oracle env e ps u m w = Some (r, w')"
  shows "(engine_step env e)\<^sup>*\<^sup>* w w'"
proof -
  have s: "(engine_step env e)\<^sup>*\<^sup>* x y" if "request env e m u p [] None [] False x = Some (q, y)" for p q x y
    using that unfolding engine_step_def by (intro r_into_rtranclp exI)
  show ?thesis
    using assms unfolding establish_session_oracle_def
    by (auto split: option.splits sum.splits dest!: s intro: rtranclp_trans)
qed

lemma run_oracle_outbound:
  assumes "run_oracle env e ps u w = Some (r, w')"
  shows "outbound_frame (env_py (re_engine env)) (eng_scope_guard e) w w'"
proof -
  obtain q ew where o: "establish_session_oracle (re_engine env) e ps u ''GET'' (rw_engine w) = Some (q, ew)"
    and w': "w' = w\<lparr>rw_engine := ew\<rparr>"
    using assms by (auto simp: run_oracle_def split: option.splits)
  from engine_sender.run_sent [OF establish_oracle_steps [OF o]] w' show ?thesis
    by (auto simp: outbound_frame_def)
qed

lemma run_crawl_outbound:
  assumes "run_crawl env cr u p state w = Some (r, w')"
  shows "outbound_frame (cr_py cr) (cr_scope_guard cr) w w'"
proof (cases "re_open_page env state (rw_page w)")
  case (Inl x)
  with assms show ?thesis by (simp add: run_crawl_def outbound_frame_quiet)
next
  case (Inr page)
  let ?s = "initial_state u p (w_db (rw_engine w)) page"
  obtain q st where c: "crawl cr u p (w_db (rw_engine w)) page = Some (q, st)"
    and w': "w' = w\<lparr>rw_engine := (rw_engine w)\<lparr>w_db := cs_db st\<rparr>, rw_page := cs_page st, rw_goto := cs_goto st @ rw_goto w\<rparr>"
    using assms Inr by (auto simp: run_crawl_def split: option.splits)
  obtain x where l: "crawl_loop cr ?s = Some (x, st)" using c by (auto simp: crawl_def split: option.splits)
  have "crawl_inv cr ?s" by (rule crawl_invariant.inv_init) blast
  with crawl_invariant.closure_inv [OF crawl_loop_run [OF l]] have "crawl_inv cr st" .
  then have "list_all (\<lambda>u. permits (cr_py cr) (cr_scope_guard cr) ''GET'' u) (cs_goto st)"
    by (auto simp: crawl_inv_def cleared_def list_all_iff)
  then show ?thesis by (auto simp: outbound_frame_def w' sent_pairs_def)
qed

lemma worker_guards [simp]:
  "eng_scope_guard (worker_engine scan_id t rows) = build_scope_guard t rows"
  "cr_scope_guard (worker_crawler env t rows) = build_scope_guard t rows"
  "cr_py (worker_crawler env t rows) = env_py (re_engine env)"
  by (simp_all add: worker_engine_def build_http_engine_def worker_crawler_def)

interpretation outbound_run: scan_frame "outbound_frame (env_py (re_engine env)) (build_scope_guard t rows)" "\<lambda>_. True" False env t rows scan_id
  for env t rows scan_id
proof unfold_locales
  show "outbound.moves (env_py (re_engine env)) (build_scope_guard t rows) (run_oracle env (worker_engine scan_id t rows) ps u)" for ps u
    using run_oracle_outbound [of env "worker_engine scan_id t rows"] by (simp add: outbound.moves_def)
  show "outbound.moves (env_py (re_engine env)) (build_scope_guard t rows) (run_crawl env (worker_crawler env t rows) u pid' state)" for u pid' state
    using run_crawl_outbound [of env "worker_crawler env t rows"] by (simp add: outbound.moves_def)
qed (auto simp: outbound.moves_def primitive_defs Let_def intro!: outbound_frame_quiet
    dest!: run_merge_frame get_or_create_phase_frame rcommit_cases split: prod.splits)

section \<open>The row of the scan inside a phase\<close>

definition scan_status :: "uid \<Rightarrow> database \<Rightarrow> (scan_state \<times> scan_state option \<times> rat option) option" where
  "scan_status i db = map_option (\<lambda>s. (sc_state s, sc_paused_from s, sc_finished_at s)) (get_scan_row i db)"

definition status_frame :: "uid \<Rightarrow> ('s, 'n, 'b, 'p) run_world \<Rightarrow> ('s, 'n, 'b, 'p) run_world \<Rightarrow> bool" where
  "status_frame i w w' \<longleftrightarrow> scan_status i (rw_db w') = scan_status i (rw_db w) \<and> rw_saved w' = rw_saved w"

lemma find_map_update:
  "(\<And>x. key (f x) = key x) \<Longrightarrow>
     find (\<lambda>x. key x = i) (map (\<lambda>x. if key x = j then f x else x) xs) =
     map_option (\<lambda>x. if i = j then f x else x) (find (\<lambda>x. key x = i) xs)"
  by (induction xs) auto

lemma get_scan_row_update:
  "(\<And>r. sc_id (f r) = sc_id r) \<Longrightarrow>
     get_scan_row i (update_scan j f db) = map_option (\<lambda>x. if i = j then f x else x) (get_scan_row i db)"
  by (simp add: get_scan_row_def update_scan_def find_map_update)

interpretation status: run_frame "status_frame i" "\<lambda>_. True" False for i
  by unfold_locales (simp_all add: status_frame_def)

interpretation status_run: work_frame "status_frame i" "\<lambda>_. True" False env t rows scan_id for i env t rows scan_id
proof unfold_locales
  show "status.moves i (degrade scan_id ns)" for ns
    by (auto simp: status.moves_def status_frame_def scan_status_def degrade_def rdb_def get_scan_row_update
        option.map_comp comp_def if_distrib [of sc_state] if_distrib [of sc_paused_from] if_distrib [of sc_finished_at] cong: if_cong)
qed (auto simp: status.moves_def status_frame_def scan_status_def get_scan_row_def rtick_def rdb_def update_persona_def
    run_replay_def run_oracle_def run_crawl_def Let_def dest!: run_merge_frame split: option.splits sum.splits prod.splits)

section \<open>The table of phases\<close>

definition upsert_phase :: "phase_row \<Rightarrow> phase_row list \<Rightarrow> phase_row list" where
  "upsert_phase new rows = (if phase_key new \<in> phase_key ` set rows then rows else rows @ [new])"

interpretation phase_table: find_or_create phase_key upsert_phase phase_key
  by unfold_locales (simp_all add: upsert_phase_def)

lemma get_or_create_phase_upsert:
  assumes "get_or_create_phase env scan_id name w = Some (r, w')"
  shows "\<exists>new. phase_key new = (scan_id, name) \<and> db_phases (rw_db w') = upsert_phase new (db_phases (rw_db w)) \<and>
     rw_saved w' = rw_saved w"
proof -
  let ?f = "find (\<lambda>p. ph_name p = name) (phases_of scan_id (rw_db w))"
  have f: "?f = None \<longleftrightarrow> (scan_id, name) \<notin> phase_key ` set (db_phases (rw_db w))"
    by (auto simp: find_None_iff phases_of_def phase_key_def)
  show ?thesis
  proof (cases ?f)
    case None
    with f assms show ?thesis
      by (intro exI conjI) (auto simp: get_or_create_phase_cases upsert_phase_def phase_key_def rbind_Some rreturn_def dest!: rflush_cases)
  next
    case (Some p)
    then have p: "p \<in> set (db_phases (rw_db w))" "phase_key p = (scan_id, name)"
      by (auto dest!: find_SomeD simp: phases_of_def phase_key_def)
    from p have "(scan_id, name) \<in> phase_key ` set (db_phases (rw_db w))" by force
    with p(2) Some assms show ?thesis
      by (intro exI [of _ p]) (auto simp: get_or_create_phase_cases upsert_phase_def)
  qed
qed

definition phases_unique :: "database \<Rightarrow> bool" where
  "phases_unique db \<longleftrightarrow> distinct (map phase_key (db_phases db))"

definition phases_frame :: "('s, 'n, 'b, 'p) run_world \<Rightarrow> ('s, 'n, 'b, 'p) run_world \<Rightarrow> bool" where
  "phases_frame w w' \<longleftrightarrow>
     (phases_unique (rw_db w) \<and> phases_unique (rw_saved w) \<longrightarrow> phases_unique (rw_db w') \<and> phases_unique (rw_saved w'))"

interpretation phases: run_frame phases_frame "\<lambda>_. True" False
  by unfold_locales (simp_all add: phases_frame_def)

interpretation phases_run: scan_frame phases_frame "\<lambda>_. True" False env t rows scan_id for env t rows scan_id
proof unfold_locales
  show "phases.moves (get_or_create_phase env scan_id name)" for name
    by (auto simp: phases.moves_def phases_frame_def phases_unique_def dest!: get_or_create_phase_upsert
        intro: phase_table.upsert_distinct)
  show "phases.moves (rdb (update_phase ph g))" if "\<And>p. phase_key (g p) = phase_key p" for ph g
    using that by (auto simp: phases.moves_def phases_frame_def phases_unique_def rdb_def update_phase_def comp_def if_distrib cong: if_cong)
qed (auto simp: phases.moves_def phases_frame_def phases_unique_def rtick_def rdb_def degrade_def run_replay_def
    do_recon_def update_scan_def update_persona_def run_oracle_def run_crawl_def Let_def
    dest!: run_merge_frame rcommit_cases split: option.splits sum.splits prod.splits)


section \<open>Runs that return\<close>

text \<open>The worker has the limiter to itself, and its database is in order.\<close>

definition live :: "('s, 'n, 'b, 'p) run_env \<Rightarrow> rat \<Rightarrow> ('s, 'n, 'b, 'p) run_world \<Rightarrow> bool" where
  "live env t0 w \<longleftrightarrow> passes 0 (env_await (re_engine env)) \<and> sleeps (env_sleep (re_engine env)) \<and>
     limiter_inv default_limiter 5 t0 (w_db (rw_engine w))"

lemma default_limiter_ok: "cfg_ok default_limiter 5"
  by (simp add: cfg_ok_def default_limiter_def)

lemma send_loop_live:
  assumes "passes 0 (env_await env)" and "cfg_ok (eng_limiter e) R"
  shows "send_loop env e rq n k resp err w = (out, w') \<Longrightarrow> limiter_inv (eng_limiter e) R t0 (w_db w) \<Longrightarrow>
     limiter_inv (eng_limiter e) R t0 (w_db w')"
proof (induction n arbitrary: k resp err w)
  case (Suc n)
  obtain o1 net where c: "env_client env rq (w_net w) = (o1, net)" by fastforce
  note wb = passes_well_behaved [OF assms, of t0]
  have bp: "limiter_inv (eng_limiter e) R t0 (report_backpressure (eng_limiter e) (env_await env) (eng_target_id e) (1 / 2) 60 (w_db w))"
    using limiter.closure_inv [OF report_backpressure_running [OF wb Suc.prems(2) assms(2)] Suc.prems(2)] by simp
  have sc: "limiter_inv (eng_limiter e) R t0 (report_success (env_await env) (eng_target_id e) (w_db w))"
    using limiter.closure_inv [OF report_success_running [OF wb Suc.prems(2) assms(2)] Suc.prems(2)] .
  from Suc.prems c bp sc show ?case
    by (cases o1) (auto simp: Let_def split: if_splits intro: Suc.IH)
qed simp

lemma request_live:
  assumes "passes 0 (env_await env)" and "sleeps (env_sleep env)" and "eng_limiter e = default_limiter"
    and "limiter_inv default_limiter 5 t0 (w_db w)"
  shows "\<exists>r w'. request env e m u p hs body txt skip w = Some (r, w') \<and> limiter_inv default_limiter 5 t0 (w_db w')"
proof (cases "preflight (env_py env) e (upper m) u txt skip")
  case (Some x)
  with assms(4) show ?thesis by (simp add: request_def)
next
  case None
  let ?a = "acquire default_limiter (env_await env) (env_sleep env) (eng_target_id e) 1 None (w_db w)"
  note ok = default_limiter_ok
  from assms ok have "got_token (bucket_key (eng_target_id e)) 1 (w_db w) ?a"
    by (intro acquire_got_token [where R = 5]) (simp_all, simp_all add: default_limiter_def)
  then obtain db where a: "?a = Some (Inr (), db)" by (auto simp: got_token_def)
  have "(running default_limiter 5 t0)\<^sup>*\<^sup>* (w_db w) db"
    using acquire_running [OF a assms(4) passes_well_behaved [OF assms(1) ok] assms(2) ok] by (simp add: default_limiter_def)
  from limiter.closure_inv [OF this assms(4)] have db: "limiter_inv default_limiter 5 t0 db" .
  let ?rq = "wire_of e m u p hs body"
  obtain out w1 where so: "send_loop env e ?rq (max_attempts e (upper m)) 0 None None (w\<lparr>w_db := db\<rparr>) = (out, w1)"
    by fastforce
  have w1: "limiter_inv default_limiter 5 t0 (w_db w1)"
    using send_loop_live [OF assms(1) _ so, of 5 t0] ok db assms(3) by simp
  show ?thesis
  proof (cases out)
    case (Inl x)
    with None a so w1 assms(3) show ?thesis by (simp add: request_def wire_of_def Let_def)
  next
    case (Inr y)
    obtain r' w2 where c: "conclude env e (or_default p AnonymousSession) ?rq y w1 = (r', w2)" by fastforce
    from conclude_frame [OF c] w1 have "limiter_inv default_limiter 5 t0 (w_db w2)" by simp
    with None a so c Inr assms(3) show ?thesis by (simp add: request_def wire_of_def Let_def)
  qed
qed

lemma oracle_live:
  assumes "passes 0 (env_await env)" and "sleeps (env_sleep env)" and "eng_limiter e = default_limiter"
    and "limiter_inv default_limiter 5 t0 (w_db w)"
  shows "\<exists>r w'. establish_session_oracle env e ps u m w = Some (r, w') \<and> limiter_inv default_limiter 5 t0 (w_db w')"
proof -
  note rq = request_live [OF assms(1-3)]
  from rq [OF assms(4)] obtain r1 w1 where
    1: "request env e m u (Some (session_of ps)) [] None [] False w = Some (r1, w1)" "limiter_inv default_limiter 5 t0 (w_db w1)" by blast
  from rq [OF 1(2)] obtain r2 w2 where
    2: "request env e m u (Some AnonymousSession) [] None [] False w1 = Some (r2, w2)" "limiter_inv default_limiter 5 t0 (w_db w2)" by blast
  from 1 2 show ?thesis by (cases r1; cases r2) (simp_all add: establish_session_oracle_def)
qed

lemma crawl_live:
  assumes "limiter_alone cr R t0 db"
  shows "\<exists>r st. crawl cr u p db page = Some (r, st) \<and> limiter_alone cr R t0 (cs_db st)"
proof -
  let ?s = "initial_state u p db page"
  have s: "limiter_alone cr R t0 (cs_db ?s)" using assms by (simp add: initial_state_def)
  then obtain x st where l: "crawl_loop cr ?s = Some (x, st)" using crawl_loop_returns by fastforce
  have "limiter_alone cr R t0 (cs_db st')" if "(crawl_next cr)\<^sup>*\<^sup>* ?s st'" for st'
    using that
  proof (induction rule: rtranclp_induct)
    case (step y z)
    from crawl_step_alone [OF step(3)] step(2) show ?case by (auto simp: crawl_next_def)
  qed (rule s)
  from this [OF crawl_loop_run [OF l]] l show ?thesis by (cases x) (simp_all add: crawl_def)
qed

interpretation live: run_frame "\<lambda>_ _. True" "live env t0" True for env t0
  by unfold_locales simp_all

interpretation live_run: scan_frame "\<lambda>_ _. True" "live env t0" True env t rows scan_id for env t0 t rows scan_id
proof unfold_locales
  show "live.moves env t0 (run_oracle env (worker_engine scan_id t rows) ps u)" for ps u
    unfolding live.moves_def
  proof (intro allI impI)
    fix w
    assume w: "live env t0 w"
    obtain r ew where "establish_session_oracle (re_engine env) (worker_engine scan_id t rows) ps u ''GET'' (rw_engine w) = Some (r, ew)"
      "limiter_inv default_limiter 5 t0 (w_db ew)"
      using oracle_live [of "re_engine env" "worker_engine scan_id t rows" t0 "rw_engine w" ps u "''GET''"] w
      by (auto simp: live_def worker_engine_def build_http_engine_def)
    with w show "(True \<longrightarrow> run_oracle env (worker_engine scan_id t rows) ps u w \<noteq> None) \<and>
        (\<forall>r w'. run_oracle env (worker_engine scan_id t rows) ps u w = Some (r, w') \<longrightarrow> True \<and> live env t0 w')"
      by (simp add: run_oracle_def live_def)
  qed
  show "live.moves env t0 (run_crawl env (worker_crawler env t rows) u pid' state)" for u pid' state
    unfolding live.moves_def
  proof (intro allI impI)
    fix w
    assume w: "live env t0 w"
    let ?cr = "worker_crawler env t rows"
    have alone: "limiter_alone ?cr 5 t0 db \<longleftrightarrow> passes 0 (env_await (re_engine env)) \<and> sleeps (env_sleep (re_engine env)) \<and> limiter_inv default_limiter 5 t0 db" for db
      using default_limiter_ok by (simp add: limiter_alone_def worker_crawler_def) (simp add: default_limiter_def)
    show "(True \<longrightarrow> run_crawl env ?cr u pid' state w \<noteq> None) \<and>
        (\<forall>r w'. run_crawl env ?cr u pid' state w = Some (r, w') \<longrightarrow> True \<and> live env t0 w')"
    proof (cases "re_open_page env state (rw_page w)")
      case (Inl x)
      with w show ?thesis by (simp add: run_crawl_def)
    next
      case (Inr page)
      have "limiter_alone ?cr 5 t0 (w_db (rw_engine w))" using w by (simp add: live_def alone)
      from crawl_live [OF this, of u pid' page] obtain r st where
        "crawl ?cr u pid' (w_db (rw_engine w)) page = Some (r, st)" "limiter_alone ?cr 5 t0 (cs_db st)" by blast
      with Inr w show ?thesis by (simp add: run_crawl_def live_def alone)
    qed
  qed
  show "live.moves env t0 (run_merge env scan_id s)" for s
    by (auto simp: live.moves_def live_def run_merge_def split: sum.splits)
  show "live.moves env t0 (get_or_create_phase env scan_id name)" for name
    by (auto simp: live.moves_def live_def get_or_create_phase_cases rbind_def rflush_def rreturn_def split: option.splits)
  show "live.moves env t0 (rcommit env)"
    by (auto simp: live.moves_def live_def rcommit_def rbind_def rflush_def split: option.splits)
qed (auto simp: live.moves_def live_def primitive_defs Let_def split: prod.splits)

end
