(* ===== verification/Scan_Properties.thy ===== *)
theory Scan_Properties
  imports Run_Frames
begin

text \<open>
  What a run of the orchestrator does: where a run that returns leaves the scan, that nothing leaves
  the worker out of scope, what happens to an unverified target, and what a retry after an exception
  does. The retry of \<^verbatim>\<open>tasks.py\<close> is modelled here.
\<close>

section \<open>The task\<close>

text \<open>\<^verbatim>\<open>run_scan_task\<close> with \<open>n\<close> retries left: an exception schedules the task again.\<close>

fun run_scan_task :: "nat \<Rightarrow> ('s, 'n, 'b, 'p) run_env \<Rightarrow> string \<Rightarrow> ('s, 'n, 'b, 'p, unit) run" where
  "run_scan_task 0 env scan_id w = run_scan env scan_id w"
| "run_scan_task (Suc n) env scan_id w =
     (case run_scan env scan_id w of
        Some (Inl x, w') \<Rightarrow> run_scan_task n env scan_id w'
      | res \<Rightarrow> res)"

definition MAX_RETRIES :: nat where
  "MAX_RETRIES = 3"

section \<open>The state of the scan along a run\<close>

lemma rbind_Inr: "rbind m f w = Some (Inr b, w') \<longleftrightarrow> (\<exists>a w1. m w = Some (Inr a, w1) \<and> f a w1 = Some (Inr b, w'))"
  by (auto simp: rbind_Some)

lemma get_scan_row_other [simp]:
  "get_scan_row i (db\<lparr>db_phases := ps\<rparr>) = get_scan_row i db" "get_scan_row i (db\<lparr>db_next := n\<rparr>) = get_scan_row i db"
  "get_scan_row i (update_phase ph f db) = get_scan_row i db"
  "get_scan_row i (add_recon_assets j new db) = get_scan_row i db"
  by (simp_all add: get_scan_row_def update_phase_def)

lemma scan_status_update:
  "(\<And>r. sc_id (f r) = sc_id r) \<Longrightarrow>
     scan_status i (update_scan i f db) = map_option (\<lambda>s. (sc_state (f s), sc_paused_from (f s), sc_finished_at (f s))) (get_scan_row i db)"
  by (simp add: scan_status_def get_scan_row_update option.map_comp comp_def)

lemma scan_status_Some: "scan_status i db = Some (q, p, f) \<longleftrightarrow> (\<exists>s. get_scan_row i db = Some s \<and> sc_state s = q \<and> sc_paused_from s = p \<and> sc_finished_at s = f)"
  by (auto simp: scan_status_def)

text \<open>The effect of each operation on the status of the scan and on what is committed.\<close>

abbreviation keeps_status :: "uid \<Rightarrow> ('s, 'n, 'b, 'p) run_world \<Rightarrow> ('s, 'n, 'b, 'p) run_world \<Rightarrow> bool" where
  "keeps_status i w w' \<equiv> scan_status i (rw_db w') = scan_status i (rw_db w)"

lemma phase_opsD:
  "get_or_create_phase env j n w = Some (r, w') \<Longrightarrow> keeps_status i w w'"
  "start_phase env ph w = Some (r', w') \<Longrightarrow> keeps_status i w w'"
  "finish_phase env ph st stats err w = Some (r', w') \<Longrightarrow> keeps_status i w w'"
  "degrade j ns w = Some (r', w') \<Longrightarrow> keeps_status i w w'"
  "do_recon env d w = Some (rr, w') \<Longrightarrow> keeps_status i w w'"
  "rdb (add_recon_assets j new) w = Some (r', w') \<Longrightarrow> keeps_status i w w'"
  "launch env pn w = Some (r', w') \<Longrightarrow> keeps_status i w w'"
  "rcommit env w = Some (Inr (), w') \<Longrightarrow> keeps_status i w w' \<and> rw_saved w' = rw_db w'"
  "run_auth_establishing env j t org rows conf w = Some (ra, w') \<Longrightarrow> keeps_status i w w'"
  "run_crawling env t rows conf ss w = Some (rc, w') \<Longrightarrow> keeps_status i w w'"
  "merge_all env j surfs acc w = Some (rm, w') \<Longrightarrow> keeps_status i w w'"
proof -
  note frame = status_frame_def
  show "get_or_create_phase env j n w = Some (r, w') \<Longrightarrow> keeps_status i w w'"
    by (auto simp: scan_status_def dest!: get_or_create_phase_frame)
  show "degrade j ns w = Some (r', w') \<Longrightarrow> keeps_status i w w'"
    using status.movesD [OF status_run.m_degrade [of i j ns], of w] by (simp add: frame)
  show "run_auth_establishing env j t org rows conf w = Some (ra, w') \<Longrightarrow> keeps_status i w w'"
    using status.movesD [OF status_run.moves_run_auth [of i env j t org rows conf], of w] by (simp add: frame)
  show "run_crawling env t rows conf ss w = Some (rc, w') \<Longrightarrow> keeps_status i w w'"
    using status.movesD [OF status_run.moves_run_crawling [of i env t rows conf ss], of w] by (simp add: frame)
  show "merge_all env j surfs acc w = Some (rm, w') \<Longrightarrow> keeps_status i w w'"
    using status.movesD [OF status_run.moves_merge_all [of i env j surfs acc], of w] by (simp add: frame)
qed (auto simp: start_phase_def finish_phase_def rbind_Some rtick_def rdb_def scan_status_def do_recon_def launch_def rlift_def
    dest!: rflush_cases rcommit_cases)

lemma enter_stateD:
  assumes "enter_state i m s w = Some (Inr m', w')"
  shows "transition m s None = Inr m' \<and>
     scan_status i (rw_db w') = map_option (\<lambda>(_, p, f). (current m', p, f)) (scan_status i (rw_db w))"
  using assms
  by (cases "transition m s None")
    (auto simp: enter_state_def rbind_Inr rdb_def rreturn_def scan_status_update, simp add: scan_status_def option.map_comp comp_def)

lemma finish_scanD:
  assumes "finish_scan env i w = Some (Inr (), w')"
  shows "rw_saved w' = rw_db w' \<and>
     (\<exists>n. scan_status i (rw_db w') = map_option (\<lambda>(q, p, _). (q, p, Some n)) (scan_status i (rw_db w)))"
  using assms
  by (auto simp: finish_scan_def rbind_Inr rtick_def rdb_def scan_status_update dest!: rcommit_cases)
    (auto simp: scan_status_def option.map_comp comp_def)

lemma transition_toD: "transition m s None = Inr m' \<Longrightarrow> can_transition m s \<and> current m' = s \<and> (s \<noteq> PAUSED \<longrightarrow> paused_from m' = paused_from m) \<and> (s = PAUSED \<longrightarrow> paused_from m' = Some (current m))"
  by (auto simp: transition_def Let_def split: if_splits)


text \<open>The phases.\<close>

lemma scope_phase_status:
  assumes "scope_phase env i t m w = Some (Inr r, w')" and "scan_status i (rw_db w) = Some (q, p, f)"
  shows "rw_saved w' = rw_db w' \<and> current m = QUEUED \<and>
     (case r of
        None \<Rightarrow> \<not> is_scannable t \<and> (\<exists>n. scan_status i (rw_db w') = Some (BLOCKED_UNVERIFIED, p, Some n))
      | Some m' \<Rightarrow> is_scannable t \<and> current m' = SCOPE_VERIFYING \<and> scan_status i (rw_db w') = Some (SCOPE_VERIFYING, p, f))"
proof -
  have q: "can_transition m SCOPE_VERIFYING \<Longrightarrow> current m = QUEUED"
    by (cases "current m") (auto simp: can_transition_def split: if_splits)
  show ?thesis
    using assms
    by (auto simp: scope_phase_def rbind_Inr rreturn_def dest!: phase_opsD(1-3,8) [where i = i] enter_stateD finish_scanD
        transition_toD q split: if_splits)
qed

lemma recon_phase_status:
  assumes "recon_phase env i t m w = Some (Inr m', w')" and "scan_status i (rw_db w) = Some (q, p, f)"
  shows "current m' = RECON \<and> scan_status i (rw_db w') = Some (RECON, p, f) \<and> rw_saved w' = rw_db w'"
  using assms
  by (auto simp: recon_phase_def rbind_Inr rreturn_def dest!: phase_opsD(1-6,8) [where i = i] enter_stateD transition_toD split: if_splits)

lemma auth_branch_status:
  assumes "auth_branch env i t org rows conf ph m w = Some (Inr r, w')" and "scan_status i (rw_db w) = Some (q, p, f)"
  shows "case r of
       None \<Rightarrow> rw_saved w' = rw_db w' \<and> (\<exists>n. scan_status i (rw_db w') = Some (FAILED_AUTH, p, Some n))
     | Some ss \<Rightarrow> scan_status i (rw_db w') = Some (q, p, f)"
  using assms
  by (auto simp: auth_branch_def rbind_Inr rreturn_def dest!: phase_opsD(3,4,7,9) [where i = i] enter_stateD finish_scanD transition_toD
      split: if_splits prod.splits)

lemma auth_phase_status:
  assumes "auth_phase env i t org rows conf m w = Some (Inr r, w')" and "scan_status i (rw_db w) = Some (q, p, f)"
  shows "rw_saved w' = rw_db w' \<and>
     (case r of
        None \<Rightarrow> \<exists>n. scan_status i (rw_db w') = Some (FAILED_AUTH, p, Some n)
      | Some (m', ss) \<Rightarrow> current m' = CRAWLING \<and> scan_status i (rw_db w') = Some (CRAWLING, p, f))"
proof -
  from assms(1) obtain ph w1 m1 w2 w3 w4 b w5 where
    ops: "get_or_create_phase env i PH_AUTH_ESTABLISHING w = Some (Inr ph, w1)" "enter_state i m AUTH_ESTABLISHING w1 = Some (Inr m1, w2)"
      "start_phase env ph w2 = Some (Inr (), w3)" "rcommit env w3 = Some (Inr (), w4)"
    and branch: "auth_branch env i t org rows conf ph m1 w4 = Some (Inr b, w5)"
    and rest: "(case b of None \<Rightarrow> rreturn None | Some ss \<Rightarrow> rbind (enter_state i m1 CRAWLING) (\<lambda>m. rbind (rcommit env) (\<lambda>_. rreturn (Some (m, ss))))) w5 = Some (Inr r, w')"
    by (auto simp: auth_phase_def rbind_Inr)
  have st: "scan_status i (rw_db w4) = Some (AUTH_ESTABLISHING, p, f)"
    using ops assms(2) by (auto dest!: phase_opsD(1,2,8) [where i = i] enter_stateD transition_toD)
  show ?thesis
    using auth_branch_status [OF branch st] rest
    by (cases b) (auto simp: rbind_Inr rreturn_def dest!: phase_opsD(8) [where i = i] enter_stateD transition_toD)
qed

lemma crawl_phase_status:
  assumes "crawl_phase env i t rows conf m ss w = Some (Inr (m', surfs), w')" and "scan_status i (rw_db w) = Some (q, p, f)"
  shows "current m' = SURFACE_MAPPING \<and> scan_status i (rw_db w') = Some (SURFACE_MAPPING, p, f) \<and> rw_saved w' = rw_db w'"
  using assms
  by (auto simp: crawl_phase_def rbind_Inr rreturn_def dest!: phase_opsD(1-3,7,8,10) [where i = i] enter_stateD transition_toD)

lemma surface_phase_status:
  assumes "surface_phase env i m surfs w = Some (Inr (), w')" and "scan_status i (rw_db w) = Some (q, p, f)"
  shows "rw_saved w' = rw_db w' \<and>
     (\<exists>s. get_scan_row i (rw_db w') = Some s \<and> sc_state s = PAUSED \<and> sc_paused_from s = Some (current m) \<and> sc_finished_at s = f \<and>
        sc_is_degraded s \<and> NOT_YET_IMPLEMENTED_NOTE \<in> set (sc_degraded_reasons s))"
proof -
  from assms(1) obtain ph w1 w2 w3 acc w4 w5 m6 w6 where
    ops: "get_or_create_phase env i PH_SURFACE_MAPPING w = Some (Inr ph, w1)" "start_phase env ph w1 = Some (Inr (), w2)"
      "rcommit env w2 = Some (Inr (), w3)"
      "merge_all env i surfs \<lparr>ms_assets_created = 0, ms_endpoints_created = 0, ms_endpoints_merged = 0\<rparr> w3 = Some (Inr acc, w4)"
      "finish_phase env ph PS_COMPLETED (surface_stats acc) None w4 = Some (Inr (), w5)" "enter_state i m PAUSED w5 = Some (Inr m6, w6)"
    and last: "rcommit env (w6\<lparr>rw_db := update_scan i (\<lambda>r. r\<lparr>sc_is_degraded := True, sc_degraded_reasons := sc_degraded_reasons r @ [NOT_YET_IMPLEMENTED_NOTE]\<rparr>)
          (update_scan i (\<lambda>r. r\<lparr>sc_paused_from := paused_from m6\<rparr>) (rw_db w6))\<rparr>) = Some (Inr (), w')"
    by (auto simp: surface_phase_def rbind_Inr degrade_def rdb_def)
  have "scan_status i (rw_db w6) = Some (PAUSED, p, f)" "paused_from m6 = Some (current m)"
    using ops assms(2) by (auto dest!: phase_opsD(1-3,8,11) [where i = i] enter_stateD transition_toD)
  then obtain s where s: "get_scan_row i (rw_db w6) = Some s" "sc_state s = PAUSED" "sc_finished_at s = f" "paused_from m6 = Some (current m)"
    by (auto simp: scan_status_Some)
  from s rcommit_cases [OF last] show ?thesis by (auto simp: get_scan_row_update)
qed

lemma scan_body_status:
  assumes "scan_body env i t m w = Some (Inr (), w')" and "scan_status i (rw_db w) = Some (q, p, f)"
  shows "rw_saved w' = rw_db w' \<and> current m = QUEUED \<and>
     (\<exists>s. get_scan_row i (rw_db w') = Some s \<and>
       (\<not> is_scannable t \<and> sc_state s = BLOCKED_UNVERIFIED \<and> sc_finished_at s \<noteq> None \<or>
        is_scannable t \<and> sc_state s = FAILED_AUTH \<and> sc_finished_at s \<noteq> None \<or>
        is_scannable t \<and> sc_state s = PAUSED \<and> sc_paused_from s = Some SURFACE_MAPPING \<and> sc_finished_at s = f \<and>
          sc_is_degraded s \<and> NOT_YET_IMPLEMENTED_NOTE \<in> set (sc_degraded_reasons s)))"
proof -
  obtain r1 w1 where s1: "scope_phase env i t m w = Some (Inr r1, w1)"
    using assms(1) by (auto simp: scan_body_def rbind_Inr)
  note st1 = scope_phase_status [OF s1 assms(2)]
  show ?thesis
  proof (cases r1)
    case None
    with assms(1) s1 have "w' = w1" by (simp add: scan_body_def rbind_Inr rreturn_def)
    with st1 None show ?thesis by (auto simp: scan_status_Some)
  next
    case (Some m1)
    from assms(1) s1 Some obtain m2 w2 org rows conf where
      s2: "recon_phase env i t m1 w1 = Some (Inr m2, w2)" and l: "later_phases env i t org rows conf m2 w2 = Some (Inr (), w')"
      by (auto simp: scan_body_def rbind_Inr rread_def)
    then obtain r3 w3 where s3: "auth_phase env i t org rows conf m2 w2 = Some (Inr r3, w3)"
      and s4: "(case r3 of None \<Rightarrow> rreturn () | Some (m, ss) \<Rightarrow> rbind (crawl_phase env i t rows conf m ss) (\<lambda>(m, surfs). surface_phase env i m surfs)) w3 = Some (Inr (), w')"
      by (auto simp: later_phases_def rbind_Inr)
    from st1 Some have st: "is_scannable t" "current m = QUEUED" "scan_status i (rw_db w1) = Some (SCOPE_VERIFYING, p, f)" by simp_all
    from recon_phase_status [OF s2 st(3)] have "scan_status i (rw_db w2) = Some (RECON, p, f)" by blast
    from auth_phase_status [OF s3 this] have st3: "rw_saved w3 = rw_db w3"
      "case r3 of None \<Rightarrow> \<exists>n. scan_status i (rw_db w3) = Some (FAILED_AUTH, p, Some n)
       | Some (m', ss) \<Rightarrow> current m' = CRAWLING \<and> scan_status i (rw_db w3) = Some (CRAWLING, p, f)" by blast+
    show ?thesis
    proof (cases r3)
      case None
      with s4 have "w' = w3" by (simp add: rreturn_def)
      with st3 None st show ?thesis by (auto simp: scan_status_Some)
    next
      case r3: (Some ms)
      obtain m3 ss where ms: "ms = (m3, ss)" by (cases ms)
      from s4 r3 ms obtain m4 surfs w4 where s5: "crawl_phase env i t rows conf m3 ss w3 = Some (Inr (m4, surfs), w4)"
        and s6: "surface_phase env i m4 surfs w4 = Some (Inr (), w')"
        by (auto simp: rbind_Inr)
      have "scan_status i (rw_db w3) = Some (CRAWLING, p, f)" using st3(2) r3 ms by simp
      from crawl_phase_status [OF s5 this] have st4: "current m4 = SURFACE_MAPPING" "scan_status i (rw_db w4) = Some (SURFACE_MAPPING, p, f)"
        by blast+
      from surface_phase_status [OF s6 st4(2)] st st4(1) show ?thesis by auto
    qed
  qed
qed


section \<open>Whole runs\<close>

lemma run_scan_body:
  assumes "re_uuid env sid = Some i" and "get_scan_row i (rw_saved w) = Some s"
    and "get_target (sc_target_id s) (rw_saved w) = Some t"
  shows "run_scan env sid w =
     scan_body env i t \<lparr>current = sc_state s, paused_from = sc_paused_from s, fail_reason = None\<rparr> (w\<lparr>rw_db := rw_saved w\<rparr>)"
  using assms by (simp add: run_scan_def rbind_def ropen_def rread_def)

text \<open>A frame that holds for every guard holds for the run.\<close>

lemma phases_scan_body: "phases.moves (scan_body env i t m)"
  unfolding scan_body_def
  by (auto split: option.split prod.split intro!: phases.moves_rules phases_run.moves_scope phases_run.moves_recon phases_run.moves_later)

lemma live_scan_body: "live.moves env t0 (scan_body env i t m)"
  unfolding scan_body_def
  by (auto split: option.split prod.split intro!: live.moves_rules live_run.moves_scope live_run.moves_recon live_run.moves_later)

lemma run_scan_cases:
  "(\<exists>i s t. re_uuid env sid = Some i \<and> get_scan_row i (rw_saved w) = Some s \<and> get_target (sc_target_id s) (rw_saved w) = Some t) \<or>
   (\<exists>r. run_scan env sid w = Some (r, w\<lparr>rw_db := rw_saved w\<rparr>))"
proof (cases "re_uuid env sid")
  case None
  then show ?thesis by (simp add: run_scan_def rbind_def ropen_def rlift_def)
next
  case i: (Some i)
  show ?thesis
  proof (cases "get_scan_row i (rw_saved w)")
    case None
    with i show ?thesis by (simp add: run_scan_def rbind_def ropen_def rread_def rreturn_def)
  next
    case s: (Some s)
    show ?thesis
    proof (cases "get_target (sc_target_id s) (rw_saved w)")
      case None
      with i s show ?thesis by (simp add: run_scan_def rbind_def ropen_def rread_def rreturn_def)
    qed (use i s in simp)
  qed
qed

lemma target_rules_static: "static_frame w w' \<Longrightarrow> target_rules t (rw_db w') = target_rules t (rw_db w)"
  by (simp add: static_frame_def static_tables_def target_rules_def)

lemma rbind_read: "rbind (rread f) g w = g (f (rw_db w)) w"
  by (simp add: rbind_def rread_def)

lemma scan_body_cases:
  assumes "scan_body env i t m w = Some (r, w')"
  obtains
    (scope) r1 where "scope_phase env i t m w = Some (r1, w')"
  | (recon) m1 w1 x where "scope_phase env i t m w = Some (Inr (Some m1), w1)" "recon_phase env i t m1 w1 = Some (Inl x, w')"
  | (later) m1 w1 m2 w2 where "scope_phase env i t m w = Some (Inr (Some m1), w1)" "recon_phase env i t m1 w1 = Some (Inr m2, w2)"
      "later_phases env i t (get_org (tg_organization_id t) (rw_db w2)) (target_rules t (rw_db w2))
         (configured_personas t (rw_db w2)) m2 w2 = Some (r, w')"
proof (cases "scope_phase env i t m w")
  case None
  with assms show ?thesis by (simp add: scan_body_def rbind_def)
next
  case (Some p)
  obtain r1 w1 where p: "p = (r1, w1)" by (cases p)
  show ?thesis
  proof (cases "\<exists>m1. r1 = Inr (Some m1)")
    case False
    then consider x where "r1 = Inl x" | "r1 = Inr None" by (cases r1) auto
    then have "w' = w1" using assms Some p by cases (simp_all add: scan_body_def rbind_def rreturn_def)
    with Some p scope show ?thesis by blast
  next
    case True
    then obtain m1 where r1: "r1 = Inr (Some m1)" by blast
    obtain r2 w2 where s2: "recon_phase env i t m1 w1 = Some (r2, w2)"
      using assms Some p r1 by (auto simp: scan_body_def rbind_def split: option.splits)
    show ?thesis
    proof (cases r2)
      case (Inl x)
      with s2 assms Some p r1 recon show ?thesis by (simp add: scan_body_def rbind_def)
    next
      case (Inr m2)
      with s2 assms Some p r1 later show ?thesis by (simp add: scan_body_def rbind_def rread_def)
    qed
  qed
qed

text \<open>A run of a scannable target that returns got through reconnaissance.\<close>

lemma returned_body:
  assumes "scan_body env i t m w = Some (Inr (), w')" and "is_scannable t" and "scan_status i (rw_db w) = Some (q, p, f)"
  obtains m1 w1 m2 w2 org where "scope_phase env i t m w = Some (Inr (Some m1), w1)" and "recon_phase env i t m1 w1 = Some (Inr m2, w2)"
    and "later_phases env i t org (target_rules t (rw_db w)) (configured_personas t (rw_db w2)) m2 w2 = Some (Inr (), w')"
    and "scan_status i (rw_db w2) = Some (RECON, p, f)" and "rw_saved w2 = rw_db w2"
proof -
  obtain r1 w1 where scope: "scope_phase env i t m w = Some (Inr r1, w1)" using assms(1) by (auto simp: scan_body_def rbind_Inr)
  note st1 = scope_phase_status [OF scope assms(3)]
  with assms(2) obtain m1 where m1: "r1 = Some m1" by (cases r1) auto
  from assms(1) scope m1 obtain m2 w2 org where recon: "recon_phase env i t m1 w1 = Some (Inr m2, w2)"
    and later: "later_phases env i t org (target_rules t (rw_db w2)) (configured_personas t (rw_db w2)) m2 w2 = Some (Inr (), w')"
    by (auto simp: scan_body_def rbind_Inr rread_def)
  have "static_frame w w1" "static_frame w1 w2"
    using static.movesD [OF static_run.moves_scope scope] static.movesD [OF static_run.moves_recon recon] by simp_all
  from target_rules_static [OF this(1), of t] target_rules_static [OF this(2), of t]
  have rows: "target_rules t (rw_db w2) = target_rules t (rw_db w)" by simp
  from st1 m1 have "scan_status i (rw_db w1) = Some (SCOPE_VERIFYING, p, f)" by simp
  from recon_phase_status [OF recon this] have "scan_status i (rw_db w2) = Some (RECON, p, f)" "rw_saved w2 = rw_db w2" by blast+
  with that scope recon later m1 rows show ?thesis by metis
qed

lemma scan_body_outbound:
  assumes "scan_body env i t m w = Some (r, w')"
  shows "outbound_frame (env_py (re_engine env)) (build_scope_guard t (target_rules t (rw_db w))) w w'"
proof -
  let ?O = "outbound_frame (env_py (re_engine env)) (build_scope_guard t (target_rules t (rw_db w)))"
  have sc: "?O w w1" "static_frame w w1" if "scope_phase env i t m w = Some (r1, w1)" for r1 w1
    using outbound.movesD [OF outbound_run.moves_scope that] static.movesD [OF static_run.moves_scope that] by simp_all
  have rc: "?O w1 w2" "static_frame w1 w2" if "recon_phase env i t m1 w1 = Some (r2, w2)" for m1 w1 r2 w2
    using outbound.movesD [OF outbound_run.moves_recon that] static.movesD [OF static_run.moves_recon that] by simp_all
  from assms show ?thesis
  proof (cases rule: scan_body_cases)
    case (later m1 w1 m2 w2)
    have rows: "target_rules t (rw_db w2) = target_rules t (rw_db w)"
      using target_rules_static [OF sc(2) [OF later(1)]] target_rules_static [OF rc(2) [OF later(2)]] by simp
    have "?O w2 w'" using outbound.movesD [OF outbound_run.moves_later later(3) [unfolded rows]] by simp
    from outbound_frame_trans [OF outbound_frame_trans [OF sc(1) [OF later(1)] rc(1) [OF later(2)]] this] show ?thesis .
  next
    case (scope r1)
    then show ?thesis by (rule sc(1))
  next
    case (recon m1 w1 x)
    show ?thesis by (rule outbound_frame_trans [OF sc(1) [OF recon(1)] rc(1) [OF recon(2)]])
  qed
qed

text \<open>The errors of a run that come from the database.\<close>

definition refused :: "('s, 'n, 'b, 'p) run_env \<Rightarrow> run_error \<Rightarrow> bool" where
  "refused env x \<longleftrightarrow> (\<exists>e k old new. x = Run_Exn e \<and> re_refuse env k old new = Some e)"

definition untouched :: "('s, 'n, 'b, 'p) run_world \<Rightarrow> ('s, 'n, 'b, 'p) run_world \<Rightarrow> bool" where
  "untouched w w' \<longleftrightarrow> rw_engine w' = rw_engine w \<and> rw_browser w' = rw_browser w \<and> rw_page w' = rw_page w \<and>
     rw_goto w' = rw_goto w \<and> rw_recon w' = rw_recon w"

lemmas machine_defs = enter_state_def transition_def can_transition_def is_terminal_def TERMINAL_STATES_def

interpretation quiet: run_frame untouched "\<lambda>_. True" True
  by unfold_locales (simp_all add: untouched_def)

lemma quiet_ops:
  "quiet.moves (rdb g)" "quiet.moves rtick" "quiet.moves (rflush env)" "quiet.moves (rcommit env)"
  "quiet.moves (get_or_create_phase env i name)" "quiet.moves (enter_state i m q)"
  by (auto simp: quiet.moves_def untouched_def rdb_def rtick_def rflush_def rcommit_def rbind_def get_or_create_phase_cases rreturn_def
      enter_state_def split: option.split sum.split)

lemma quiet_scope: "quiet.moves (scope_phase env i t m)"
  unfolding scope_phase_def start_phase_def finish_phase_def finish_scan_def
  by (auto intro!: quiet.moves_rules quiet_ops)

text \<open>What an operation that changes rows raises was refused, and it has committed nothing then.\<close>

lemma row_opsD:
  "get_or_create_phase env i n w = Some (r, w') \<Longrightarrow> rw_saved w' = rw_saved w \<and> (\<forall>x. r = Inl x \<longrightarrow> refused env x)"
  "start_phase env ph w = Some (u, w') \<Longrightarrow> rw_saved w' = rw_saved w \<and> (\<forall>x. u = Inl x \<longrightarrow> refused env x)"
  "finish_phase env ph st stats err w = Some (u, w') \<Longrightarrow> rw_saved w' = rw_saved w \<and> (\<forall>x. u = Inl x \<longrightarrow> refused env x)"
  "finish_scan env i w = Some (Inl x, w') \<Longrightarrow> rw_saved w' = rw_saved w \<and> refused env x"
  by (auto simp: get_or_create_phase_cases start_phase_def finish_phase_def finish_scan_def rbind_Some rtick_def rdb_def rreturn_def refused_def
      split: option.splits dest!: rflush_cases rcommit_cases)

lemma scope_phase_refused:
  assumes "scope_phase env i t m w = Some (Inl x, w')" and "current m = QUEUED" and "\<not> is_scannable t"
  shows "refused env x \<and> rw_saved w' = rw_saved w"
  using assms
  by (auto simp: scope_phase_def rbind_Some machine_defs Let_def rdb_def rreturn_def dest!: row_opsD)

lemma blocked_run:
  assumes "re_uuid env sid = Some i" and "get_scan_row i (rw_saved w) = Some s" and "sc_state s = QUEUED"
    and "get_target (sc_target_id s) (rw_saved w) = Some t" and "\<not> is_scannable t"
  shows "\<exists>r w'. run_scan env sid w = Some (r, w') \<and> untouched w w' \<and>
     (case r of
        Inl x \<Rightarrow> refused env x \<and> rw_saved w' = rw_saved w
      | Inr _ \<Rightarrow> \<exists>s'. get_scan_row i (rw_saved w') = Some s' \<and> sc_state s' = BLOCKED_UNVERIFIED \<and> sc_finished_at s' \<noteq> None)"
proof -
  let ?w = "w\<lparr>rw_db := rw_saved w\<rparr>" and ?m = "\<lparr>current = QUEUED, paused_from = sc_paused_from s, fail_reason = None\<rparr>"
  have run: "run_scan env sid w = scan_body env i t ?m ?w"
    using run_scan_body [OF assms(1,2,4)] assms(3) by simp
  obtain r w1 where sc: "scope_phase env i t ?m ?w = Some (r, w1)"
    using quiet.moves_returns [OF quiet_scope] by fastforce
  then have u: "untouched w w1" using quiet.movesD [OF quiet_scope sc] by (simp add: untouched_def)
  have st: "scan_status i (rw_db ?w) = Some (QUEUED, sc_paused_from s, sc_finished_at s)"
    using assms(2,3) by (simp add: scan_status_def)
  show ?thesis
  proof (cases r)
    case (Inl y)
    with run sc u scope_phase_refused [OF sc [unfolded Inl] _ assms(5)] show ?thesis by (simp add: scan_body_def rbind_def)
  next
    case (Inr m')
    from scope_phase_status [OF sc [unfolded Inr] st] assms(5) obtain n where
      "m' = None" "rw_saved w1 = rw_db w1" "scan_status i (rw_db w1) = Some (BLOCKED_UNVERIFIED, sc_paused_from s, Some n)"
      by (cases m') auto
    with run sc u Inr show ?thesis by (auto simp: scan_body_def rbind_def rreturn_def scan_status_Some)
  qed
qed

lemma rerun_raises:
  assumes "re_uuid env sid = Some i" and "get_scan_row i (rw_saved w) = Some s"
    and "get_target (sc_target_id s) (rw_saved w) = Some t" and "sc_state s \<noteq> QUEUED"
  shows "\<exists>x db n. run_scan env sid w = Some (Inl x, w\<lparr>rw_db := db, rw_ticks := n\<rparr>) \<and>
     (x = Run_Machine (Invalid_Transition (sc_state s) SCOPE_VERIFYING) \<or> refused env x)"
proof -
  let ?m = "\<lparr>current = sc_state s, paused_from = sc_paused_from s, fail_reason = None\<rparr>" and ?w = "w\<lparr>rw_db := rw_saved w\<rparr>"
  have t: "transition ?m SCOPE_VERIFYING None = Inl (Invalid_Transition (sc_state s) SCOPE_VERIFYING)"
    using assms(4) by (cases "sc_state s") (simp_all add: transition_def can_transition_def)
  obtain r w1 where g: "get_or_create_phase env i PH_SCOPE_VERIFYING ?w = Some (r, w1)"
    using quiet.moves_returns [OF quiet_ops(5)] by fastforce
  have x: "\<And>x. r = Inl x \<Longrightarrow> refused env x" using row_opsD(1) [OF g] by blast
  from get_or_create_phase_frame [OF g] obtain db n where w1: "w1 = w\<lparr>rw_db := db, rw_ticks := n\<rparr>" by auto
  show ?thesis
    unfolding run_scan_body [OF assms(1-3)] scan_body_def scope_phase_def
    using g x t by (cases r) (auto simp: rbind_def enter_state_def w1)
qed

section \<open>Properties\<close>

text \<open>
  No unverified target is touched: a run on a target whose ownership is not verified or whose
  authorization is not accepted sends nothing, loads no page, starts no browser, does no
  reconnaissance, and either commits the scan as blocked and finished, or was refused by the database and commits nothing.
\<close>

lemma unverified_target_is_not_touched:
  assumes "re_uuid env sid = Some i" and "get_scan_row i (rw_saved w) = Some s" and "sc_state s = QUEUED"
    and "get_target (sc_target_id s) (rw_saved w) = Some t" and "\<not> is_scannable t"
  shows "\<exists>r w'. run_scan env sid w = Some (r, w') \<and> untouched w w' \<and>
     (case r of
        Inl x \<Rightarrow> refused env x \<and> rw_saved w' = rw_saved w
      | Inr _ \<Rightarrow> \<exists>s'. get_scan_row i (rw_saved w') = Some s' \<and> sc_state s' = BLOCKED_UNVERIFIED \<and> sc_finished_at s' \<noteq> None)"
  using assms by (rule blocked_run)

text \<open>A worker for the examples, with a scan in a given state of a target that is verified or not.\<close>

definition demo_target :: "bool \<Rightarrow> target" where
  "demo_target verified = \<lparr>tg_id = 2, tg_organization_id = 0, tg_root_domain = ''shop.io'', tg_display_name = ''Shop'',
     tg_is_production = True, tg_ownership_verified = verified, tg_verification_method = None, tg_verification_token = None,
     tg_verified_at = None, tg_authorization_accepted = True, tg_authorization_accepted_at = None\<rparr>"

definition demo_scan :: "scan_state \<Rightarrow> scan_row" where
  "demo_scan q = \<lparr>sc_id = 7, sc_target_id = 2, sc_triggered_by = ''manual'', sc_state = q, sc_paused_from = None,
     sc_fail_reason = None, sc_is_degraded = False, sc_degraded_reasons = [], sc_started_at = None, sc_finished_at = None,
     sc_llm_token_budget = 200000, sc_llm_tokens_used = 0\<rparr>"

definition demo_run_env :: "(files, net_outcome list, unit, unit) run_env" where
  "demo_run_env = \<lparr>re_engine = demo_env scripted, re_driver = (\<lambda>c b. (Pg_Ok, b)), re_pages = demo_driver [],
     re_open_page = (\<lambda>_ p. Inr p), re_recon = bare_lib, re_fernet = toy_lib, re_kms_master_key = ''key1'',
     re_uuid = (\<lambda>s. if s = ''seven'' then Some 7 else None), re_dump_state = (\<lambda>_. []), re_now = of_nat, re_seed = (\<lambda>n. n),
     re_launch = (\<lambda>_. None), re_number = (\<lambda>s. if s = ''10.0'' then 10 else 30),
     re_refuse = (\<lambda>_ _ _. None)\<rparr>"

definition demo_run_world :: "bool \<Rightarrow> scan_state \<Rightarrow> (files, net_outcome list, unit, unit) run_world" where
  "demo_run_world verified q = \<lparr>rw_db = empty_database,
     rw_saved = empty_database\<lparr>db_targets := [demo_target verified], db_scans := [demo_scan q], db_next := 8\<rparr>,
     rw_engine = demo_world [], rw_browser = \<lparr>br_state = (), br_log = []\<rparr>, rw_page = (), rw_goto = [], rw_recon = [], rw_ticks = 0\<rparr>"

lemma demo_rows [simp]:
  "re_uuid demo_run_env ''seven'' = Some 7"
  "get_scan_row 7 (rw_saved (demo_run_world v q)) = Some (demo_scan q)" "sc_state (demo_scan q) = q" "sc_target_id (demo_scan q) = 2"
  "get_target 2 (rw_saved (demo_run_world v q)) = Some (demo_target v)" "is_scannable (demo_target v) = v"
  by (simp_all add: demo_run_env_def demo_run_world_def get_scan_row_def get_target_def demo_scan_def demo_target_def is_scannable_def)

lemma demo_unrefused [simp]: "re_refuse demo_run_env k old new = None" "\<not> refused demo_run_env y"
  by (simp_all add: demo_run_env_def refused_def)

lemma demo_run:
  "run_scan demo_run_env ''seven'' (demo_run_world v q) =
     scan_body demo_run_env 7 (demo_target v) \<lparr>current = q, paused_from = sc_paused_from (demo_scan q), fail_reason = None\<rparr>
       ((demo_run_world v q)\<lparr>rw_db := rw_saved (demo_run_world v q)\<rparr>)"
  by (rule run_scan_body [OF demo_rows(1,2), unfolded demo_rows(3)]) simp

lemma demo_quiet [simp]:
  "w_sent (rw_engine (demo_run_world v q)) = []" "rw_goto (demo_run_world v q) = []" "rw_recon (demo_run_world v q) = []"
  by (simp_all add: demo_run_world_def demo_world_def)

lemma demo_live: "live demo_run_env 0 (demo_run_world v q)"
  using id_passes exact_sleep_ok empty_db_inv [of default_limiter 5 0]
  by (simp add: live_def demo_run_env_def demo_run_world_def demo_env_def demo_world_def)

lemma run_scan_live: "live env t0 w \<Longrightarrow> \<exists>r w'. run_scan env sid w = Some (r, w')"
proof -
  assume l: "live env t0 w"
  from run_scan_cases [of env sid w] show ?thesis
  proof (elim disjE exE conjE)
    fix i s t
    assume "re_uuid env sid = Some i" "get_scan_row i (rw_saved w) = Some s" "get_target (sc_target_id s) (rw_saved w) = Some t"
    from run_scan_body [OF this] live.moves_returns [OF live_scan_body, of env t0 "w\<lparr>rw_db := rw_saved w\<rparr>"] l
    show ?thesis by (simp add: live_def)
  qed auto
qed



text \<open>
  C22. A run ends: if the worker has the limiter to itself, \<^verbatim>\<open>run_scan\<close> returns or raises, whatever the
  site, the browser and the network do.
\<close>

theorem every_run_ends:
  assumes "live env t0 w"
  shows "\<exists>r w'. run_scan env sid w = Some (r, w')"
  using assms by (rule run_scan_live)

theorem every_run_ends_witness:
  "\<exists>r w'. run_scan demo_run_env ''seven'' (demo_run_world True QUEUED) = Some (r, w')"
  using every_run_ends [OF demo_live] .

text \<open>
  C13. Where a run that returns leaves the scan: it started as queued, everything is committed, and the
  scan is blocked and finished if the target is not scannable, otherwise failed in authentication and
  finished, or paused after surface mapping, marked as degraded with the note that the checks are
  not implemented; never complete.
\<close>

theorem run_leaves_scan_in_known_state:
  assumes "run_scan env sid w = Some (Inr (), w')" and "re_uuid env sid = Some i"
    and "get_scan_row i (rw_saved w) = Some s" and "get_target (sc_target_id s) (rw_saved w) = Some t"
  shows "sc_state s = QUEUED \<and> rw_saved w' = rw_db w' \<and>
     (\<exists>s'. get_scan_row i (rw_saved w') = Some s' \<and>
       (\<not> is_scannable t \<and> sc_state s' = BLOCKED_UNVERIFIED \<and> sc_finished_at s' \<noteq> None \<or>
        is_scannable t \<and> sc_state s' = FAILED_AUTH \<and> sc_finished_at s' \<noteq> None \<or>
        is_scannable t \<and> sc_state s' = PAUSED \<and> sc_paused_from s' = Some SURFACE_MAPPING \<and>
          sc_finished_at s' = sc_finished_at s \<and> sc_is_degraded s' \<and>
          NOT_YET_IMPLEMENTED_NOTE \<in> set (sc_degraded_reasons s')))"
proof -
  have "scan_status i (rw_db (w\<lparr>rw_db := rw_saved w\<rparr>)) = Some (sc_state s, sc_paused_from s, sc_finished_at s)"
    using assms(3) by (simp add: scan_status_def)
  from scan_body_status [OF assms(1) [unfolded run_scan_body [OF assms(2-4)]] this] show ?thesis by simp
qed

theorem run_leaves_scan_in_known_state_witness:
  "\<exists>w' s'. run_scan demo_run_env ''seven'' (demo_run_world False QUEUED) = Some (Inr (), w') \<and>
     get_scan_row 7 (rw_saved w') = Some s' \<and> sc_state s' = BLOCKED_UNVERIFIED"
proof -
  let ?w = "demo_run_world False QUEUED"
  have "\<exists>w'. run_scan demo_run_env ''seven'' ?w = Some (Inr (), w')"
    unfolding demo_run
    by (simp add: scan_body_def scope_phase_def rbind_def get_or_create_phase_cases machine_defs start_phase_def finish_phase_def
        finish_scan_def rtick_def rdb_def rcommit_def rflush_def rreturn_def Let_def split: option.split)
  then obtain w' where r: "run_scan demo_run_env ''seven'' ?w = Some (Inr (), w')" by blast
  from run_leaves_scan_in_known_state [OF r demo_rows(1), of "demo_scan QUEUED" "demo_target False"] r show ?thesis by auto
qed

text \<open>
  C17. A retry never resumes: once a run has raised after it committed a state, every retry of the task
  raises, \<^verbatim>\<open>InvalidTransition\<close> at the first transition unless the database refuses something before it; it commits
  nothing, sends nothing and loads nothing, and the scan stays in the state in which the first attempt left it.
\<close>

theorem retry_never_resumes:
  assumes "run_scan env sid w = Some (Inl x, w1)" and "re_uuid env sid = Some i"
    and "get_scan_row i (rw_saved w1) = Some s" and "get_target (sc_target_id s) (rw_saved w1) = Some t"
    and "sc_state s \<noteq> QUEUED"
  shows "\<exists>y db n. run_scan_task MAX_RETRIES env sid w = Some (Inl y, w1\<lparr>rw_db := db, rw_ticks := n\<rparr>) \<and>
     (y = Run_Machine (Invalid_Transition (sc_state s) SCOPE_VERIFYING) \<or> refused env y)"
proof -
  let ?ok = "\<lambda>y. y = Run_Machine (Invalid_Transition (sc_state s) SCOPE_VERIFYING) \<or> refused env y"
  have again: "\<exists>y db n. run_scan env sid (w1\<lparr>rw_db := db0, rw_ticks := n0\<rparr>) = Some (Inl y, w1\<lparr>rw_db := db, rw_ticks := n\<rparr>) \<and> ?ok y"
    for db0 n0
    using rerun_raises [OF assms(2), of "w1\<lparr>rw_db := db0, rw_ticks := n0\<rparr>" s t] assms(3-5) by simp
  have task: "\<exists>y db n. run_scan_task k env sid (w1\<lparr>rw_db := db0, rw_ticks := n0\<rparr>) = Some (Inl y, w1\<lparr>rw_db := db, rw_ticks := n\<rparr>) \<and> ?ok y"
    for k db0 n0
  proof (induction k arbitrary: db0 n0)
    case 0
    from again show ?case by simp
  next
    case (Suc k)
    from again [where ?db0.0 = db0 and ?n0.0 = n0] obtain y db n where
      "run_scan env sid (w1\<lparr>rw_db := db0, rw_ticks := n0\<rparr>) = Some (Inl y, w1\<lparr>rw_db := db, rw_ticks := n\<rparr>)" by blast
    with Suc.IH show ?case by simp
  qed
  from task [where k = 2 and ?db0.0 = "rw_db w1" and ?n0.0 = "rw_ticks w1"] assms(1) show ?thesis by (simp add: MAX_RETRIES_def numeral_3_eq_3 numeral_2_eq_2)
qed

theorem retry_never_resumes_witness:
  "\<exists>w'. run_scan_task MAX_RETRIES demo_run_env ''seven'' (demo_run_world True RECON) =
     Some (Inl (Run_Machine (Invalid_Transition RECON SCOPE_VERIFYING)), w')"
proof -
  let ?w = "demo_run_world True RECON"
  from rerun_raises [OF demo_rows(1), of ?w "demo_scan RECON" "demo_target True"] obtain w1 where
    r: "run_scan demo_run_env ''seven'' ?w = Some (Inl (Run_Machine (Invalid_Transition RECON SCOPE_VERIFYING)), w1)"
    and s: "rw_saved w1 = rw_saved ?w" by auto
  from retry_never_resumes [OF r demo_rows(1), of "demo_scan RECON" "demo_target True"] s show ?thesis by auto
qed

lemma blocked_oracle:
  assumes "\<not> in_scope (env_py env) (eng_scope_guard e) ''GET'' u"
  shows "\<exists>x. establish_session_oracle env e ps u ''GET'' w = Some (Inl x, w)"
proof -
  have "preflight (env_py env) e ''GET'' u [] False \<noteq> None"
    using preflight_None [of "env_py env" e "''GET''" u "[]" False] assms unfolding permits_iff_in_scope by blast
  then show ?thesis by (auto simp: establish_session_oracle_def request_def demo_upper)
qed

text \<open>
  One login too many ends the scan: if the page that the session oracle probes is out of scope, as the
  root page is when an include rule covers only another path, then the first persona that logs in
  successfully makes the whole authentication raise, after its login was replayed in the browser;
  the personas after it are not tried.
\<close>

lemma out_of_scope_probe_aborts_scan:
  assumes "pe_login_recipe p = Some raw" and "json_truthy raw" and "build_login_recipe (re_number env) raw = Inr recipe"
    and "persona_credential p (rw_db w) = Some c"
    and "secret_ref_of recipe = Some k"
    and "decrypted_secret (re_fernet env) key (cred_ciphertext c) = Inr secret"
    and "replay (re_driver env) recipe [(k, \<lparr>cr_ref = k, cr_secret = secret\<rparr>)] (rw_browser w) = (Inr res, b)"
    and "lrr_success res" and "urlsplit (env_py (re_engine env)) (lr_start_url recipe) = Inr parts"
    and "\<not> in_scope (env_py (re_engine env)) (eng_scope_guard e) ''GET'' url"
  shows "\<exists>x. auth_loop env i key e url (p # ps) n ss w = Some (Inl (Run_Engine x), w\<lparr>rw_browser := b\<rparr>)"
proof -
  let ?ps = "\<lparr>ps_persona_id = show_nat (pe_id p), ps_storage_cookies = or_default (lrr_storage_state res) [], ps_target_host = host_or_none parts\<rparr>"
  obtain x where "establish_session_oracle (re_engine env) e ?ps url ''GET'' (rw_engine w) = Some (Inl x, rw_engine w)"
    using blocked_oracle [OF assms(10)] by blast
  then have "establish_persona env p (Some c) key e url w = Some (Inl (Run_Engine x), w\<lparr>rw_browser := b\<rparr>)"
    using assms by (simp add: establish_persona_def has_recipe_def or_default_def rbind_def rlift_def run_replay_def run_oracle_def)
  with assms(4) show ?thesis by (simp add: rbind_def rread_def)
qed

text \<open>
  One row per phase: if the committed table of phases has each phase of each scan once, it still
  does after a run, whether the run returned or raised.
\<close>

lemma one_row_per_phase:
  assumes "run_scan env sid w = Some (r, w')" and "phases_unique (rw_saved w)"
  shows "phases_unique (rw_saved w')"
  using run_scan_cases [of env sid w]
proof (elim disjE exE conjE)
  fix i s t
  assume "re_uuid env sid = Some i" "get_scan_row i (rw_saved w) = Some s" "get_target (sc_target_id s) (rw_saved w) = Some t"
  from phases.movesD [OF phases_scan_body assms(1) [unfolded run_scan_body [OF this]]] assms(2) show ?thesis
    by (simp add: phases_frame_def)
qed (use assms in simp)

end
