(* ===== verification/Shared_Database.thy ===== *)
theory Shared_Database
  imports Api_History Scan_Properties
begin

text \<open>
  The database that the API and a worker share. A state of the system is the state of both with the requests
  served so far; a step is one request or one run of one scan, in any order, each on what the other has committed.
  A run is one step: requests served while it is under way are not interleaved with it. The invariant is what the
  tables promise: keys that are unique and references that have a row (\<open>db_ok\<close>), one row per phase of a scan, and
  the history behind the flags of every target. That a run keeps it is an interpretation of the interface of theory
  \<open>Run_Frames\<close>.
\<close>

section \<open>A run keeps the keys\<close>

text \<open>The targets, and the targets of the scans, are those at the start, in the session and in what is committed.\<close>

definition kept :: "uid \<Rightarrow> target list \<times> uid list \<Rightarrow> ('s, 'n, 'b, 'p) run_world \<Rightarrow> bool" where
  "kept i rows w \<longleftrightarrow>
     db_ok (rw_db w) \<and> db_ok (rw_saved w) \<and> phases_unique (rw_db w) \<and> phases_unique (rw_saved w) \<and> i < db_next (rw_db w) \<and>
     (db_targets (rw_db w), map sc_target_id (db_scans (rw_db w))) = rows \<and>
     (db_targets (rw_saved w), map sc_target_id (db_scans (rw_saved w))) = rows"

lemma db_ok_next:
  assumes "db_ok db" and "db_next db \<le> n"
  shows "db_ok (db\<lparr>db_assets := as, db_endpoints := es, db_next := n\<rparr>)"
  using assms by (auto simp: db_ok_def intro: less_le_trans)

lemma db_ok_add_phase:
  "db_ok db \<Longrightarrow> ph_scan_id p < db_next db \<Longrightarrow> db_ok (db\<lparr>db_phases := db_phases db @ [p], db_next := Suc (db_next db)\<rparr>)"
  by (auto simp: db_ok_def intro: less_SucI)

lemma db_ok_update_scan: "db_ok db \<Longrightarrow> (\<And>r. sc_id (f r) = sc_id r \<and> sc_target_id (f r) = sc_target_id r) \<Longrightarrow> db_ok (update_scan i f db)"
  by (auto simp: db_ok_def update_scan_def comp_def if_distrib cong: if_cong)

lemma add_recon_assets_frame: "\<exists>as n. add_recon_assets i new db = db\<lparr>db_assets := as, db_next := n\<rparr> \<and> db_next db \<le> n"
proof (induction i new db rule: add_recon_assets.induct)
  case (1 i db)
  show ?case using same_assets [of db] by simp
next
  case (2 i a new db)
  then show ?case by (elim exE conjE, intro exI conjI) auto
qed

lemma db_ok_recon: "db_ok db \<Longrightarrow> db_ok (add_recon_assets i new db)"
proof -
  assume ok: "db_ok db"
  from add_recon_assets_frame [of i new db] obtain as n where
    a: "add_recon_assets i new db = db\<lparr>db_assets := as, db_next := n\<rparr>" and n: "db_next db \<le> n" by blast
  from db_ok_next [OF ok n, where as = as and es = "db_endpoints db"] show ?thesis unfolding a by simp
qed

lemma db_next_recon: "db_next db \<le> db_next (add_recon_assets i new db)"
  using add_recon_assets_frame [of i new db] by auto

lemma db_ok_update_phase:
  assumes "db_ok db" and "\<And>p. phase_key (g p) = phase_key p"
  shows "db_ok (update_phase j g db)"
proof -
  have "ph_scan_id (g p) = ph_scan_id p" for p using assms(2) [of p] by (simp add: phase_key_def)
  with assms(1) show ?thesis by (auto simp: db_ok_def update_phase_def)
qed

lemma db_ok_update_persona:
  assumes "db_ok db" and "\<And>p. persona_refs (f p) = persona_refs p"
  shows "db_ok (update_persona j f db)"
proof -
  have "pe_target_id (f p) = pe_target_id p" "pe_credential_id (f p) = pe_credential_id p" for p
    using assms(2) [of p] by (simp_all add: persona_refs_def)
  with assms(1) show ?thesis by (auto simp: db_ok_def update_persona_def)
qed

lemma scan_targets_update:
  "(\<And>r. sc_target_id (f r) = sc_target_id r) \<Longrightarrow> map sc_target_id (db_scans (update_scan i f db)) = map sc_target_id (db_scans db)"
  by (simp add: update_scan_def)

lemma update_fields [simp]:
  "db_targets (update_scan i f db) = db_targets db" "db_next (update_scan i f db) = db_next db" "db_phases (update_scan i f db) = db_phases db"
  "db_targets (update_phase j g db) = db_targets db" "db_next (update_phase j g db) = db_next db" "db_scans (update_phase j g db) = db_scans db"
  "db_targets (update_persona k h db) = db_targets db" "db_next (update_persona k h db) = db_next db"
  "db_scans (update_persona k h db) = db_scans db" "db_phases (update_persona k h db) = db_phases db"
  by (simp_all add: update_scan_def update_phase_def update_persona_def)

lemma phases_unique_cong: "db_phases db' = db_phases db \<Longrightarrow> phases_unique db' = phases_unique db"
  by (simp add: phases_unique_def)

lemma phases_unique_update: "(\<And>p. phase_key (g p) = phase_key p) \<Longrightarrow> phases_unique (update_phase j g db) = phases_unique db"
  by (simp add: phases_unique_def update_phase_def comp_def if_distrib cong: if_cong)

lemma kept_db:
  assumes "kept i rows w" and "db_ok db" and "phases_unique db" and "db_next (rw_db w) \<le> db_next db"
    and "db_targets db = db_targets (rw_db w)" and "map sc_target_id (db_scans db) = map sc_target_id (db_scans (rw_db w))"
  shows "kept i rows (w\<lparr>rw_db := db\<rparr>)"
  using assms by (auto simp: kept_def)

interpretation keys: run_frame "\<lambda>_ _. True" "kept i rows" False for i rows
  by unfold_locales simp_all

lemma kept_rdb:
  assumes "\<And>db. db_ok db \<Longrightarrow> db_ok (f db)" and "\<And>db. phases_unique db \<Longrightarrow> phases_unique (f db)"
    and "\<And>db. db_next db \<le> db_next (f db)" and "\<And>db. db_targets (f db) = db_targets db"
    and "\<And>db. map sc_target_id (db_scans (f db)) = map sc_target_id (db_scans db)"
  shows "keys.moves i rows (rdb f)"
  using assms by (auto simp: keys.moves_def rdb_def intro!: kept_db) (auto simp: kept_def)

interpretation keys_run: scan_frame "\<lambda>_ _. True" "kept scan_id kept_rows" False env t rows scan_id for kept_rows env t rows scan_id
proof unfold_locales
  show "keys.moves scan_id kept_rows (run_merge env scan_id s)" for s
    by (auto simp: keys.moves_def intro!: kept_db dest!: run_merge_frame) (auto simp: kept_def phases_unique_def intro!: db_ok_next)
  show "keys.moves scan_id kept_rows (get_or_create_phase env scan_id name)" for name
    unfolding keys.moves_def
  proof (intro allI impI conjI TrueI)
    fix w r w'
    assume k: "kept scan_id kept_rows w" and g: "get_or_create_phase env scan_id name w = Some (r, w')"
    have "phases_unique (rw_db w')"
      using phases.movesD [OF phases_run.m_new_phase g] k by (simp add: phases_frame_def kept_def)
    moreover have "db_ok (rw_db w')"
      using g k by (auto simp: get_or_create_phase_cases rbind_def rflush_def rreturn_def kept_def split: option.splits intro!: db_ok_add_phase)
    ultimately show "kept scan_id kept_rows w'"
      using g k by (auto simp: get_or_create_phase_cases rbind_def rflush_def rreturn_def kept_def split: option.splits)
  qed simp
  show "keys.moves scan_id kept_rows (rdb (add_recon_assets scan_id new))" for new
    by (intro kept_rdb db_ok_recon db_next_recon) (simp_all add: phases_unique_def)
  show "keys.moves scan_id kept_rows (rdb (update_scan scan_id f))"
    if "\<And>r. sc_id (f r) = sc_id r" "\<And>r. sc_target_id (f r) = sc_target_id r" for f
    using that by (intro kept_rdb db_ok_update_scan scan_targets_update) (simp_all add: phases_unique_def)
  show "keys.moves scan_id kept_rows (degrade scan_id ns)" for ns
    unfolding degrade_def by (intro kept_rdb db_ok_update_scan scan_targets_update) (simp_all add: phases_unique_def)
  show "keys.moves scan_id kept_rows (rdb (update_phase ph g))" if "\<And>p. phase_key (g p) = phase_key p" for ph g
    using that by (intro kept_rdb db_ok_update_phase) (simp_all add: phases_unique_update)
  show "keys.moves scan_id kept_rows (rdb (update_persona pid f))" if "\<And>p. persona_refs (f p) = persona_refs p" for pid f
    using that by (intro kept_rdb db_ok_update_persona) (simp_all add: phases_unique_def)
  show "keys.moves scan_id kept_rows (rcommit env)"
    by (auto simp: keys.moves_def kept_def dest!: rcommit_cases)
qed (auto simp: keys.moves_def kept_def rtick_def run_replay_def do_recon_def run_oracle_def run_crawl_def Let_def
    split: option.splits sum.splits prod.splits)

lemma keys_scan_body: "keys.moves i rows (scan_body env i t m)"
  unfolding scan_body_def
  by (auto split: option.split prod.split intro!: keys.moves_rules keys_run.moves_scope keys_run.moves_recon keys_run.moves_later)

lemma run_scan_kept:
  assumes "run_scan env sid w = Some (r, w')" and "db_ok (rw_saved w)" and "phases_unique (rw_saved w)"
  shows "db_ok (rw_saved w') \<and> phases_unique (rw_saved w') \<and> db_targets (rw_saved w') = db_targets (rw_saved w) \<and>
     map sc_target_id (db_scans (rw_saved w')) = map sc_target_id (db_scans (rw_saved w))"
  using run_scan_cases [of env sid w]
proof (elim disjE exE conjE)
  fix i s t
  assume rows: "re_uuid env sid = Some i" "get_scan_row i (rw_saved w) = Some s" "get_target (sc_target_id s) (rw_saved w) = Some t"
  let ?w = "w\<lparr>rw_db := rw_saved w\<rparr>" and ?m = "\<lparr>current = sc_state s, paused_from = sc_paused_from s, fail_reason = None\<rparr>"
  let ?rows = "(db_targets (rw_saved w), map sc_target_id (db_scans (rw_saved w)))"
  have b: "scan_body env i t ?m ?w = Some (r, w')" using assms(1) run_scan_body [OF rows] by simp
  have "i < db_next (rw_saved w)"
    using assms(2) find_SomeD [OF rows(2) [unfolded get_scan_row_def]] by (auto simp: db_ok_def)
  then have "kept i ?rows ?w" using assms(2,3) by (simp add: kept_def)
  with keys_scan_body [of i ?rows env t ?m] b have "kept i ?rows w'" by (auto simp: keys.moves_def)
  then show ?thesis by (simp add: kept_def)
next
  fix r'
  assume "run_scan env sid w = Some (r', w\<lparr>rw_db := rw_saved w\<rparr>)"
  with assms show ?thesis by auto
qed

section \<open>Requests and runs together\<close>

record ('s, 'n, 'b, 'p) system =
  sys_api :: api_world
  sys_run :: "('s, 'n, 'b, 'p) run_world"
  sys_steps :: "api_step list"

inductive system_step :: "('s, 'n, 'b, 'p) system \<Rightarrow> ('s, 'n, 'b, 'p) system \<Rightarrow> bool" where
  request_step: "w = snd (serve env h r (sys_api s)) \<Longrightarrow>
     system_step s \<lparr>sys_api = w, sys_run = (sys_run s)\<lparr>rw_saved := aw_db w\<rparr>, sys_steps = sys_steps s @ [(env, h, r)]\<rparr>"
| run_step: "run_scan env sid (sys_run s) = Some (r, w) \<Longrightarrow>
     system_step s \<lparr>sys_api = (sys_api s)\<lparr>aw_db := rw_saved w\<rparr>, sys_run = w, sys_steps = sys_steps s\<rparr>"

definition system_start :: "('s, 'n, 'b, 'p) system \<Rightarrow> bool" where
  "system_start s \<longleftrightarrow> aw_db (sys_api s) = empty_database \<and> rw_saved (sys_run s) = empty_database \<and> sys_steps s = []"

definition system_ok :: "('s, 'n, 'b, 'p) system \<Rightarrow> bool" where
  "system_ok s \<longleftrightarrow> rw_saved (sys_run s) = aw_db (sys_api s) \<and> phases_unique (aw_db (sys_api s)) \<and>
     history_ok (sys_steps s) (aw_db (sys_api s))"

lemma api_effect_phases: "api_effect env c r db db' \<Longrightarrow> db_phases db' = db_phases db"
  by (induction rule: api_effect.induct) (auto simp: update_target_def)

lemma history_run:
  assumes "history_ok steps db" and "db_ok db'" and "db_targets db' = db_targets db"
    and "map sc_target_id (db_scans db') = map sc_target_id (db_scans db)"
  shows "history_ok steps db'"
proof -
  have b: "scan_backed steps db' s' = scan_backed steps db s" if "sc_target_id s' = sc_target_id s" for s s'
    using that assms(3) by (simp add: scan_backed_def)
  have "scan_backed steps db' s'" if "s' \<in> set (db_scans db')" for s'
  proof -
    have "sc_target_id s' \<in> set (map sc_target_id (db_scans db'))" using that by simp
    then obtain s where "s \<in> set (db_scans db)" "sc_target_id s' = sc_target_id s" unfolding assms(4) by auto
    with b assms(1) show ?thesis by (simp add: history_ok_def)
  qed
  with assms show ?thesis by (simp add: history_ok_def)
qed

interpretation shared: invariant_system system_start system_step system_ok
proof
  show "system_ok s" if "system_start s" for s
    using that by (simp add: system_start_def system_ok_def history_ok_def db_ok_def phases_unique_def empty_database_def)
  show "system_ok t" if ok: "system_ok s" and st: "system_step s t" for s t
    using st
  proof cases
    case (request_step w env h r)
    from history_effect [OF serve_effect [of env h r "sys_api s"] refl] ok
    have "history_ok (sys_steps s @ [(env, h, r)]) (aw_db w)" by (simp add: system_ok_def request_step)
    moreover from api_effect_phases [OF serve_effect [of env h r "sys_api s"]] ok have "phases_unique (aw_db w)"
      by (simp add: system_ok_def request_step phases_unique_def)
    ultimately show ?thesis by (simp add: system_ok_def request_step(1))
  next
    case (run_step env sid r w)
    from ok have ok': "db_ok (rw_saved (sys_run s))" "phases_unique (rw_saved (sys_run s))" by (simp_all add: system_ok_def history_ok_def)
    from run_scan_kept [OF run_step(2) ok'] ok have "history_ok (sys_steps s) (rw_saved w)" "phases_unique (rw_saved w)"
      by (auto simp: system_ok_def intro: history_run)
    then show ?thesis by (simp add: system_ok_def run_step(1))
  qed
qed

section \<open>Properties\<close>


text \<open>Requests alone, then a run: the example's requests, from an empty database.\<close>

definition after_requests :: "api_step list \<Rightarrow> ('s, 'n, 'b, 'p) system \<Rightarrow> ('s, 'n, 'b, 'p) system" where
  "after_requests steps s = \<lparr>sys_api = served steps (sys_api s), sys_run = (sys_run s)\<lparr>rw_saved := aw_db (served steps (sys_api s))\<rparr>,
     sys_steps = sys_steps s @ steps\<rparr>"

lemma requests_reach:
  assumes step: "\<And>env h r s. step s \<lparr>sys_api = snd (serve env h r (sys_api s)),
      sys_run = (sys_run s)\<lparr>rw_saved := aw_db (snd (serve env h r (sys_api s)))\<rparr>, sys_steps = sys_steps s @ [(env, h, r)]\<rparr>"
    and "reach start step s" and "rw_saved (sys_run s) = aw_db (sys_api s)"
  shows "reach start step (after_requests steps s)"
  using assms(2,3)
proof (induction steps arbitrary: s)
  case Nil
  then have "after_requests [] s = s" by (simp add: after_requests_def served_def flip: \<open>rw_saved (sys_run s) = _\<close>)
  with Nil show ?case by simp
next
  case (Cons x steps)
  obtain env h r where x: "x = (env, h, r)" by (cases x)
  let ?w = "snd (serve env h r (sys_api s))"
  let ?t = "\<lparr>sys_api = ?w, sys_run = (sys_run s)\<lparr>rw_saved := aw_db ?w\<rparr>, sys_steps = sys_steps s @ [(env, h, r)]\<rparr>"
  have "reach start step ?t" by (rule reach_step [OF Cons.prems(1) step])
  from Cons.IH [OF this] show ?case by (simp add: after_requests_def served_def x)
qed

definition demo_system :: "(files, net_outcome list, unit, unit) system" where
  "demo_system = \<lparr>sys_api = demo_api_world, sys_run = (demo_run_world True QUEUED)\<lparr>rw_saved := empty_database\<rparr>, sys_steps = []\<rparr>"

lemma demo_system_reach: "reach system_start system_step (after_requests demo_steps demo_system)"
  by (intro requests_reach system_step.request_step refl reach_init)
    (simp_all add: system_start_def demo_system_def demo_api_world_def)


text \<open>The rows after the example's requests, and after a persona with a password has been added.\<close>

lemma demo_served_rows:
  "\<exists>s t g. db_scans (aw_db (served demo_steps demo_api_world)) = [s] \<and> db_targets (aw_db (served demo_steps demo_api_world)) = [t] \<and>
     sc_id s = 3 \<and> sc_target_id s = 2 \<and> sc_state s = QUEUED \<and> tg_id t = 2 \<and> tg_organization_id t = 0 \<and> is_scannable t \<and>
     get_org 0 (aw_db (served demo_steps demo_api_world)) = Some g \<and> org_id g = 0 \<and>
     org_wrapped_data_key g = wrap toy_lib \<lparr>provider_keys = [utf8_encode (code_points ''key1'')]\<rparr> 4 (generate_data_key toy_lib 3)"
proof -
  note crypto = demo_crypto handled_def create_organization_def organization_out_of_def
  note tgt = get_current_org_def get_org_def get_target_def get_owned_target_def update_target_def is_scannable_def
    create_target_def create_ownership_challenge_def run_ownership_verification_def accept_authorization_def create_scan_def dispatch_scan_def
  note ver = demo_verified [unfolded generate_verification_token_def TOKEN_PREFIX_def, simplified]
  have "api_fernet demo_api_env = toy_lib" "api_seed_cipher demo_api_env = 4" "api_seed_key demo_api_env = 3"
    by (simp_all add: demo_api_env_def)
  then show ?thesis
    unfolding served_def demo_steps_def
    by (simp add: serve_def crypto tgt ver server_res_def demo_api_world_def empty_database_def Let_def
        generate_verification_token_def TOKEN_PREFIX_def)
qed

definition demo_payload :: persona_create where
  "demo_payload = \<lparr>pc_label = ''Ann'', pc_role_name = ''user'', pc_trust_rank = 1, pc_tenant_key = None, pc_login_strategy = Some LS_FORM,
     pc_credential = Some (CK_PASSWORD, [0x70, 0xE9, 0x2014]), pc_login_recipe = Some demo_recipe, pc_expected_denied = []\<rparr>"

lemma demo_persona_created:
  "\<exists>out w' p. create_persona demo_api_env (Some ''a'') 2 demo_payload (served demo_steps demo_api_world) = (Inr (R_Persona out), w') \<and>
     db_scans (aw_db w') = db_scans (aw_db (served demo_steps demo_api_world)) \<and>
     db_targets (aw_db w') = db_targets (aw_db (served demo_steps demo_api_world)) \<and>
     p \<in> set (db_personas (aw_db w')) \<and> pe_target_id p = 2 \<and> has_recipe p"
proof -
  let ?w = "served demo_steps demo_api_world" and ?p = "\<lparr>provider_keys = [utf8_encode (code_points ''key1'')]\<rparr>"
  obtain t g where t: "db_targets (aw_db ?w) = [t]" "tg_id t = 2" "tg_organization_id t = 0"
    and g: "get_org 0 (aw_db ?w) = Some g" "org_id g = 0" "org_wrapped_data_key g = wrap toy_lib ?p 4 (generate_data_key toy_lib 3)"
    using demo_served_rows by (elim exE conjE)
  have org: "get_current_org demo_api_env (Some ''a'') (aw_db ?w) = Inr g" by (simp add: get_current_org_def g(1))
  have own: "get_owned_target demo_api_env (Some ''a'') 2 (aw_db ?w) = Inr t"
    by (simp add: get_owned_target_def org get_target_def t g(2))
  have lib: "api_fernet demo_api_env = toy_lib" by (simp add: demo_api_env_def)
  have key: "unwrap toy_lib ?p (org_wrapped_data_key g) = Inr (generate_data_key toy_lib 3)"
    unfolding g(3) by (simp add: unwrap_def wrap_def toy_lib_def toy_open_seal)
  have "fernet_key toy_lib (generate_data_key toy_lib 3)" by (simp add: toy_lib_def generate_data_key_def)
  then obtain c where "encrypt_secret demo_api_env ?p g [0x70, 0xE9, 0x2014] = Inr c"
    by (simp add: encrypt_secret_def lib key env_encrypt_def with_key_def scalar_def)
  then show ?thesis
    using truthy_dump [of "api_number demo_api_env" demo_recipe]
    by (simp add: create_persona_def handled_def own org demo_crypto server_res_def add_credential_def demo_payload_def has_recipe_def t(2) Let_def
        conj_disj_distribR ex_disj_distrib)
qed

end
