(* ===== verification/Db_Schema.thy ===== *)
theory Db_Schema
  imports Prelude
begin

text \<open>
  Schemas of a relational database and the statements of a migration that change them: the operations
  of \<^verbatim>\<open>alembic\<close> that \<^verbatim>\<open>packages/db/migrations/versions/\<close> uses, with the errors of the database. A table has its
  columns, its foreign keys, its primary key and the number of its rows; an enumeration is a type of its
  own. Within one run the types of enumerations that were created are remembered, and a type is
  created with the first table that uses it; a type that is there from before is an error. The undoing
  of statements is shown here once for every sequence of them.
\<close>

section \<open>Schemas\<close>

datatype col_type =
    T_UUID | T_String nat | T_Integer | T_Float | T_Boolean | T_Bytes | T_DateTime bool | T_JSONB
  | T_Enum string "string list"

record column =
  col_name :: string
  col_ty :: col_type
  col_nullable :: bool
  col_default :: "string option"

definition col :: "string \<Rightarrow> col_type \<Rightarrow> bool \<Rightarrow> column" where
  "col n t nullable = \<lparr>col_name = n, col_ty = t, col_nullable = nullable, col_default = None\<rparr>"

record foreign_key =
  fk_column :: string
  fk_table :: string
  fk_ref :: string
  fk_cascade :: bool

definition fk :: "string \<Rightarrow> string \<Rightarrow> string \<Rightarrow> bool \<Rightarrow> foreign_key" where
  "fk c t r cascade = \<lparr>fk_column = c, fk_table = t, fk_ref = r, fk_cascade = cascade\<rparr>"

record table_def =
  tb_columns :: "column list"
  tb_foreign_keys :: "foreign_key list"
  tb_primary :: string
  tb_rows :: nat

record index_def =
  ix_name :: string
  ix_table :: string
  ix_column :: string
  ix_unique :: bool

record schema =
  sm_tables :: "(string, table_def) dict"
  sm_indexes :: "index_def list"
  sm_types :: "(string, string list) dict"

definition empty_schema :: schema where
  "empty_schema = \<lparr>sm_tables = [], sm_indexes = [], sm_types = []\<rparr>"

definition has_column :: "table_def \<Rightarrow> string \<Rightarrow> bool" where
  "has_column t c \<longleftrightarrow> c \<in> col_name ` set (tb_columns t)"

definition column_at :: "schema \<Rightarrow> string \<Rightarrow> string \<Rightarrow> bool" where
  "column_at s t c \<longleftrightarrow> (case dict_get (sm_tables s) t of None \<Rightarrow> False | Some d \<Rightarrow> has_column d c)"

fun enum_of :: "col_type \<Rightarrow> (string \<times> string list) list" where
  "enum_of (T_Enum n ms) = [(n, ms)]"
| "enum_of _ = []"

definition enums_of :: "column list \<Rightarrow> (string \<times> string list) list" where
  "enums_of cs = concat (map (\<lambda>c. enum_of (col_ty c)) cs)"

section \<open>Statements\<close>

datatype ddl =
    Create_Table string "column list" "foreign_key list" string
  | Create_Index string string string bool
  | Add_Column string column
  | Drop_Column string string
  | Drop_Index string string
  | Drop_Table string
  | Drop_Type string

datatype ddl_error =
    Duplicate_Table string | Duplicate_Type string | Duplicate_Index string | Duplicate_Column string
  | Undefined_Table string | Undefined_Column string | Undefined_Index string | Undefined_Type string
  | Not_Null_Violation string | Dependent_Objects string

text \<open>A schema with the types that the run has created.\<close>

type_synonym ddl_state = "schema \<times> string list"

fun create_types :: "(string \<times> string list) list \<Rightarrow> ddl_state \<Rightarrow> ddl_error + ddl_state" where
  "create_types [] st = Inr st"
| "create_types ((n, ms) # es) (s, created) =
     (if n \<in> set created then create_types es (s, created)
      else if n \<in> fst ` set (sm_types s) then Inl (Duplicate_Type n)
      else create_types es (s\<lparr>sm_types := sm_types s @ [(n, ms)]\<rparr>, created @ [n]))"

definition refers_to :: "string \<Rightarrow> table_def \<Rightarrow> bool" where
  "refers_to t d \<longleftrightarrow> t \<in> fk_table ` set (tb_foreign_keys d)"

definition uses_type :: "string \<Rightarrow> table_def \<Rightarrow> bool" where
  "uses_type n d \<longleftrightarrow> n \<in> fst ` set (enums_of (tb_columns d))"

definition drop_table_def :: "string \<Rightarrow> schema \<Rightarrow> schema" where
  "drop_table_def t s = s\<lparr>sm_tables := filter (\<lambda>(k, _). k \<noteq> t) (sm_tables s),
     sm_indexes := filter (\<lambda>i. ix_table i \<noteq> t) (sm_indexes s)\<rparr>"

definition drop_column_def :: "string \<Rightarrow> string \<Rightarrow> table_def \<Rightarrow> schema \<Rightarrow> schema" where
  "drop_column_def t c d s =
     s\<lparr>sm_tables := dict_set t (d\<lparr>tb_columns := filter (\<lambda>k. col_name k \<noteq> c) (tb_columns d),
         tb_foreign_keys := filter (\<lambda>f. fk_column f \<noteq> c) (tb_foreign_keys d)\<rparr>) (sm_tables s),
       sm_indexes := filter (\<lambda>i. \<not> (ix_table i = t \<and> ix_column i = c)) (sm_indexes s)\<rparr>"

fun apply_ddl :: "ddl \<Rightarrow> ddl_state \<Rightarrow> ddl_error + ddl_state" where
  "apply_ddl (Create_Table n cs fks pk) (s, created) =
     (if n \<in> fst ` set (sm_tables s) then Inl (Duplicate_Table n)
      else bind_res (create_types (enums_of cs) (s, created)) (\<lambda>(s, created).
        if \<not> distinct (map col_name cs) then Inl (Duplicate_Column n)
        else if pk \<notin> col_name ` set cs \<or> (\<exists>f\<in>set fks. fk_column f \<notin> col_name ` set cs) then Inl (Undefined_Column n)
        else if \<exists>f\<in>set fks. \<not> column_at s (fk_table f) (fk_ref f) then Inl (Undefined_Table n)
        else Inr (s\<lparr>sm_tables := sm_tables s @
          [(n, \<lparr>tb_columns = cs, tb_foreign_keys = fks, tb_primary = pk, tb_rows = 0\<rparr>)]\<rparr>, created)))"
| "apply_ddl (Create_Index n t c u) (s, created) =
     (if n \<in> ix_name ` set (sm_indexes s) then Inl (Duplicate_Index n)
      else if \<not> column_at s t c then Inl (Undefined_Column c)
      else Inr (s\<lparr>sm_indexes := sm_indexes s @ [\<lparr>ix_name = n, ix_table = t, ix_column = c, ix_unique = u\<rparr>]\<rparr>, created))"
| "apply_ddl (Add_Column t c) (s, created) =
     (case dict_get (sm_tables s) t of
        None \<Rightarrow> Inl (Undefined_Table t)
      | Some d \<Rightarrow>
          if has_column d (col_name c) then Inl (Duplicate_Column (col_name c))
          else if \<exists>e\<in>set (enum_of (col_ty c)). fst e \<notin> fst ` set (sm_types s) then Inl (Undefined_Type (col_name c))
          else if \<not> col_nullable c \<and> col_default c = None \<and> tb_rows d \<noteq> 0 then Inl (Not_Null_Violation (col_name c))
          else Inr (s\<lparr>sm_tables := dict_set t (d\<lparr>tb_columns := tb_columns d @ [c]\<rparr>) (sm_tables s)\<rparr>, created))"
| "apply_ddl (Drop_Column t c) (s, created) =
     (case dict_get (sm_tables s) t of
        None \<Rightarrow> Inl (Undefined_Table t)
      | Some d \<Rightarrow>
          if \<not> has_column d c then Inl (Undefined_Column c)
          else if \<exists>(k, e)\<in>set (sm_tables s). \<exists>f\<in>set (tb_foreign_keys e). fk_table f = t \<and> fk_ref f = c
          then Inl (Dependent_Objects c)
          else Inr (drop_column_def t c d s, created))"
| "apply_ddl (Drop_Index n t) (s, created) =
     (if n \<notin> ix_name ` set (sm_indexes s) then Inl (Undefined_Index n)
      else Inr (s\<lparr>sm_indexes := filter (\<lambda>i. ix_name i \<noteq> n) (sm_indexes s)\<rparr>, created))"
| "apply_ddl (Drop_Table t) (s, created) =
     (if t \<notin> fst ` set (sm_tables s) then Inl (Undefined_Table t)
      else if \<exists>(k, d)\<in>set (sm_tables s). k \<noteq> t \<and> refers_to t d then Inl (Dependent_Objects t)
      else Inr (drop_table_def t s, created))"
| "apply_ddl (Drop_Type n) (s, created) =
     (if \<exists>(k, d)\<in>set (sm_tables s). uses_type n d then Inl (Dependent_Objects n)
      else Inr (s\<lparr>sm_types := filter (\<lambda>(k, _). k \<noteq> n) (sm_types s)\<rparr>, created))"

fun run_ddl :: "ddl list \<Rightarrow> ddl_state \<Rightarrow> ddl_error + ddl_state" where
  "run_ddl [] st = Inr st"
| "run_ddl (x # xs) st = bind_res (apply_ddl x st) (run_ddl xs)"

text \<open>A run of its own, which starts with no type created.\<close>

definition migrate :: "ddl list \<Rightarrow> schema \<Rightarrow> ddl_error + schema" where
  "migrate xs s = bind_res (run_ddl xs (s, [])) (\<lambda>(s, _). Inr s)"

lemma run_ddl_append: "run_ddl (xs @ ys) st = bind_res (run_ddl xs st) (run_ddl ys)"
  by (induction xs arbitrary: st) (auto simp: bind_res_def split: sum.split)

section \<open>Well-formed schemas\<close>

text \<open>Names are unique, and indexes, foreign keys and enumerations refer to what is there.\<close>

definition table_ok :: "schema \<Rightarrow> table_def \<Rightarrow> bool" where
  "table_ok s d \<longleftrightarrow> has_column d (tb_primary d) \<and>
     (\<forall>f\<in>set (tb_foreign_keys d). has_column d (fk_column f) \<and> column_at s (fk_table f) (fk_ref f)) \<and>
     fst ` set (enums_of (tb_columns d)) \<subseteq> fst ` set (sm_types s)"

definition schema_ok :: "schema \<Rightarrow> bool" where
  "schema_ok s \<longleftrightarrow>
     distinct (map fst (sm_tables s)) \<and> distinct (map ix_name (sm_indexes s)) \<and> distinct (map fst (sm_types s)) \<and>
     (\<forall>i\<in>set (sm_indexes s). column_at s (ix_table i) (ix_column i)) \<and> (\<forall>d\<in>snd ` set (sm_tables s). table_ok s d)"

lemma schema_okI:
  assumes "distinct (map fst (sm_tables s)) \<and> distinct (map ix_name (sm_indexes s)) \<and> distinct (map fst (sm_types s))"
    and "\<And>i. i \<in> set (sm_indexes s) \<Longrightarrow> column_at s (ix_table i) (ix_column i)"
    and "\<And>d. d \<in> snd ` set (sm_tables s) \<Longrightarrow> table_ok s d"
  shows "schema_ok s"
  unfolding schema_ok_def using assms by blast

lemma schema_okD:
  assumes "schema_ok s"
  shows "distinct (map fst (sm_tables s)) \<and> distinct (map ix_name (sm_indexes s)) \<and> distinct (map fst (sm_types s))"
    and "i \<in> set (sm_indexes s) \<Longrightarrow> column_at s (ix_table i) (ix_column i)"
    and "d \<in> snd ` set (sm_tables s) \<Longrightarrow> table_ok s d"
  using assms unfolding schema_ok_def by blast+

text \<open>Statements that add to a schema, and those that take it away again.\<close>

fun creates :: "ddl \<Rightarrow> bool" where
  "creates (Create_Table _ _ _ _) = True"
| "creates (Create_Index _ _ _ _) = True"
| "creates (Add_Column _ _) = True"
| "creates _ = False"

fun undo :: "ddl \<Rightarrow> ddl" where
  "undo (Create_Table n _ _ _) = Drop_Table n"
| "undo (Create_Index n t _ _) = Drop_Index n t"
| "undo (Add_Column t c) = Drop_Column t (col_name c)"
| "undo x = x"

lemma column_at_types [simp]: "column_at (s\<lparr>sm_types := ts\<rparr>) t c = column_at s t c"
  "column_at (s\<lparr>sm_indexes := is\<rparr>) t c = column_at s t c"
  by (simp_all add: column_at_def)

lemma column_at_table: "column_at s t c \<Longrightarrow> t \<in> fst ` set (sm_tables s)"
  by (force simp: column_at_def dict_get_def split: option.splits dest: map_of_SomeD)

text \<open>The types a statement creates are new, and they are those of its columns that the run has not created before.\<close>

definition fresh_types :: "(string \<times> string list) list \<Rightarrow> schema \<Rightarrow> bool" where
  "fresh_types new s \<longleftrightarrow> distinct (map fst new) \<and> fst ` set new \<inter> fst ` set (sm_types s) = {}"

lemma create_types_spec:
  "create_types es (s, cr) = Inr (s', cr') \<Longrightarrow>
     \<exists>new. s' = s\<lparr>sm_types := sm_types s @ new\<rparr> \<and> cr' = cr @ map fst new \<and> fresh_types new s \<and>
       set cr' = set cr \<union> fst ` set es"
proof (induction es "(s, cr)" arbitrary: s cr rule: create_types.induct)
  case (1 s cr)
  then show ?case by (intro exI [of _ "[]"]) (simp add: fresh_types_def)
next
  case (2 n ms es s cr)
  show ?case
  proof (cases "n \<in> set cr")
    case True
    with 2 show ?thesis by auto
  next
    case False
    with "2.prems" have n: "n \<notin> fst ` set (sm_types s)" by (auto split: if_splits)
    with False "2.prems" have c: "create_types es (s\<lparr>sm_types := sm_types s @ [(n, ms)]\<rparr>, cr @ [n]) = Inr (s', cr')" by simp
    from "2.hyps"(2) [OF False n c] obtain new where
      new: "s' = s\<lparr>sm_types := sm_types s @ [(n, ms)] @ new\<rparr>" "cr' = cr @ [n] @ map fst new"
        "fresh_types new (s\<lparr>sm_types := sm_types s @ [(n, ms)]\<rparr>)" "set cr' = set cr \<union> {n} \<union> fst ` set es" by auto
    with n show ?thesis
      by (intro exI [of _ "(n, ms) # new"]) (auto simp: fresh_types_def)
  qed
qed

fun enums_in :: "ddl \<Rightarrow> string set" where
  "enums_in (Create_Table _ cs _ _) = fst ` set (enums_of cs)"
| "enums_in _ = {}"

text \<open>What each statement that creates does to a well-formed schema, and that undoing it gives the schema back.\<close>

lemma dict_set_back: "dict_get d k = Some v \<Longrightarrow> dict_set k v (dict_set k w d) = d"
  by (induction d) (auto simp: dict_get_def split: if_splits)

lemma dict_set_same_keys: "k \<in> fst ` set d \<Longrightarrow> map fst (dict_set k v d) = map fst d"
  by (induction k v d rule: dict_set.induct) auto

lemma table_ok_mono:
  assumes "table_ok s d" and "\<And>t c. column_at s t c \<Longrightarrow> column_at s' t c" and "fst ` set (sm_types s) \<subseteq> fst ` set (sm_types s')"
  shows "table_ok s' d"
  using assms unfolding table_ok_def by blast

lemma dict_get_snoc: "k \<notin> fst ` set d \<Longrightarrow> dict_get (d @ [(k, v)]) k' = (if k' = k then Some v else dict_get d k')"
  by (auto simp: dict_get_def map_add_def map_of_eq_None_iff [symmetric] split: option.splits)

lemma create_table_step:
  assumes "schema_ok s" and "set cr \<subseteq> fst ` set (sm_types s)" and "apply_ddl (Create_Table n cs fks pk) (s, cr) = Inr (s', cr')"
  shows "schema_ok s'"
    and "\<exists>new. sm_types s' = sm_types s @ new \<and> cr' = cr @ map fst new \<and> fresh_types new s \<and> set cr' = set cr \<union> fst ` set (enums_of cs)"
    and "apply_ddl (Drop_Table n) (s'\<lparr>sm_types := T\<rparr>, m) = Inr (s\<lparr>sm_types := T\<rparr>, m)"
proof -
  let ?d = "\<lparr>tb_columns = cs, tb_foreign_keys = fks, tb_primary = pk, tb_rows = 0\<rparr>"
  from assms(3) have n: "n \<notin> fst ` set (sm_tables s)" by (auto split: if_splits)
  with assms(3) obtain s1 where c: "create_types (enums_of cs) (s, cr) = Inr (s1, cr')"
    and pk: "pk \<in> col_name ` set cs" and fks: "\<forall>f\<in>set fks. fk_column f \<in> col_name ` set cs"
    and refs: "\<forall>f\<in>set fks. column_at s1 (fk_table f) (fk_ref f)"
    and s': "s' = s1\<lparr>sm_tables := sm_tables s1 @ [(n, ?d)]\<rparr>"
    by (auto simp: bind_res_Inr_iff split: if_splits)
  from create_types_spec [OF c] obtain new where s1: "s1 = s\<lparr>sm_types := sm_types s @ new\<rparr>"
    and new: "cr' = cr @ map fst new" "fresh_types new s" "set cr' = set cr \<union> fst ` set (enums_of cs)" by blast
  then show "\<exists>new. sm_types s' = sm_types s @ new \<and> cr' = cr @ map fst new \<and> fresh_types new s \<and> set cr' = set cr \<union> fst ` set (enums_of cs)"
    by (intro exI [of _ new]) (simp add: s')
  have at: "column_at s' t c \<longleftrightarrow> (if t = n then c \<in> col_name ` set cs else column_at s t c)" for t c
    using n by (auto simp: s' s1 column_at_def dict_get_snoc has_column_def)
  have mono: "column_at s t c \<Longrightarrow> column_at s' t c" for t c
    using column_at_table [of s t c] n by (auto simp: at)
  have "table_ok s' ?d"
    unfolding table_ok_def
  proof (intro conjI ballI)
    have "fst ` set (enums_of cs) \<subseteq> set cr'" using new(3) by blast
    also have "\<dots> \<subseteq> fst ` set (sm_types s')" using assms(2) by (auto simp: new(1) s' s1)
    finally show "fst ` set (enums_of (tb_columns ?d)) \<subseteq> fst ` set (sm_types s')" by simp
    show "has_column ?d (tb_primary ?d)" using pk by (simp add: has_column_def)
    show "has_column ?d (fk_column f)" if "f \<in> set (tb_foreign_keys ?d)" for f using that fks by (simp add: has_column_def)
    show "column_at s' (fk_table f) (fk_ref f)" if "f \<in> set (tb_foreign_keys ?d)" for f
      using that refs by (intro mono) (simp add: s1)
  qed
  moreover have old: "table_ok s' d" if "d \<in> snd ` set (sm_tables s)" for d
    by (rule table_ok_mono [OF schema_okD(3) [OF assms(1) that]], erule mono) (simp add: s' s1 image_Un)
  ultimately have tabs: "table_ok s' d" if "d \<in> snd ` set (sm_tables s')" for d
  proof -
    have "d = ?d \<or> d \<in> snd ` set (sm_tables s)" using that by (simp add: s' s1 image_Un)
    then show ?thesis using \<open>table_ok s' ?d\<close> old by (elim disjE) simp_all
  qed
  have keys: "distinct (map fst (sm_tables s')) \<and> distinct (map ix_name (sm_indexes s')) \<and> distinct (map fst (sm_types s'))"
  proof -
    have "distinct (map fst new)" "fst ` set (sm_types s) \<inter> fst ` set new = {}"
      using new(2) unfolding fresh_types_def by blast+
    with n schema_okD(1) [OF assms(1)] show ?thesis by (simp add: s' s1)
  qed
  have inds: "sm_indexes s' = sm_indexes s" by (simp add: s' s1)
  show "schema_ok s'"
  proof (rule schema_okI [OF keys])
    show "column_at s' (ix_table i) (ix_column i)" if "i \<in> set (sm_indexes s')" for i
      using schema_okD(2) [OF assms(1), of i] that unfolding inds by (intro mono)
  qed (rule tabs)
  have "filter (\<lambda>i. ix_table i \<noteq> n) (sm_indexes s) = sm_indexes s"
    using schema_okD(2) [OF assms(1)] column_at_table n by (intro filter_True ballI) blast
  moreover have "filter (\<lambda>(k, _). k \<noteq> n) (sm_tables s) = sm_tables s" using n by (intro filter_True ballI) force
  moreover have "\<not> (\<exists>(k, d)\<in>set (sm_tables s'). k \<noteq> n \<and> refers_to n d)"
  proof (clarsimp simp: refers_to_def)
    fix k d f
    assume f: "(k, d) \<in> set (sm_tables s')" "k \<noteq> fk_table f" "f \<in> set (tb_foreign_keys d)" "n = fk_table f"
    then have "d \<in> snd ` set (sm_tables s)" by (force simp: s' s1)
    from schema_okD(3) [OF assms(1) this] f(3) have "column_at s (fk_table f) (fk_ref f)" unfolding table_ok_def by blast
    from column_at_table [OF this] n f(4) show False by simp
  qed
  ultimately show "apply_ddl (Drop_Table n) (s'\<lparr>sm_types := T\<rparr>, m) = Inr (s\<lparr>sm_types := T\<rparr>, m)"
    by (simp add: drop_table_def_def) (simp add: s' s1)
qed

lemma enums_of_snoc: "enums_of (cs @ [c]) = enums_of cs @ enum_of (col_ty c)"
  by (simp add: enums_of_def)

lemma has_column_snoc: "has_column (d\<lparr>tb_columns := tb_columns d @ [c]\<rparr>) x \<longleftrightarrow> has_column d x \<or> x = col_name c"
  by (auto simp: has_column_def)

lemma dict_set_values: "set (dict_set k v d) \<subseteq> insert (k, v) (set d)"
  by (induction k v d rule: dict_set.induct) auto

lemma create_index_step:
  assumes "schema_ok s" and "apply_ddl (Create_Index n t c u) (s, cr) = Inr (s', cr')"
  shows "schema_ok s'" and "sm_types s' = sm_types s \<and> cr' = cr"
    and "apply_ddl (Drop_Index n t) (s'\<lparr>sm_types := T\<rparr>, m) = Inr (s\<lparr>sm_types := T\<rparr>, m)"
proof -
  let ?i = "\<lparr>ix_name = n, ix_table = t, ix_column = c, ix_unique = u\<rparr>"
  from assms(2) have n: "n \<notin> ix_name ` set (sm_indexes s)" and c: "column_at s t c"
    and s': "s' = s\<lparr>sm_indexes := sm_indexes s @ [?i]\<rparr>" and cr: "cr' = cr"
    by (auto split: if_splits)
  from assms(1) have "table_ok s' d" if "d \<in> snd ` set (sm_tables s)" for d
    using that table_ok_mono [of s d s'] unfolding schema_ok_def by (simp add: s') blast
  with assms(1) n c show "schema_ok s'" by (auto simp: schema_ok_def s')
  show "sm_types s' = sm_types s \<and> cr' = cr" by (simp add: s' cr)
  have "filter (\<lambda>i. ix_name i \<noteq> n) (sm_indexes s) = sm_indexes s" using n by (intro filter_True ballI) force
  then show "apply_ddl (Drop_Index n t) (s'\<lparr>sm_types := T\<rparr>, m) = Inr (s\<lparr>sm_types := T\<rparr>, m)"
    by (simp add: s')
qed

lemma add_column_step:
  assumes "schema_ok s" and "apply_ddl (Add_Column t c) (s, cr) = Inr (s', cr')"
  shows "schema_ok s'" and "sm_types s' = sm_types s \<and> cr' = cr"
    and "apply_ddl (Drop_Column t (col_name c)) (s'\<lparr>sm_types := T\<rparr>, m) = Inr (s\<lparr>sm_types := T\<rparr>, m)"
proof -
  from assms(2) obtain d where d: "dict_get (sm_tables s) t = Some d" and c: "\<not> has_column d (col_name c)"
    and e: "fst ` set (enum_of (col_ty c)) \<subseteq> fst ` set (sm_types s)"
    and s': "s' = s\<lparr>sm_tables := dict_set t (d\<lparr>tb_columns := tb_columns d @ [c]\<rparr>) (sm_tables s)\<rparr>" and cr: "cr' = cr"
    by (auto split: if_splits option.splits)
  let ?d = "d\<lparr>tb_columns := tb_columns d @ [c]\<rparr>"
  have t: "(t, d) \<in> set (sm_tables s)" using d by (simp add: dict_get_def map_of_SomeD)
  then have keys: "map fst (sm_tables s') = map fst (sm_tables s)" by (force simp: s' intro: dict_set_same_keys)
  have at: "column_at s' k x \<longleftrightarrow> column_at s k x \<or> k = t \<and> x = col_name c" for k x
    using d by (auto simp: column_at_def s' has_column_def)
  have old: "table_ok s e" if "e \<in> snd ` set (sm_tables s)" for e
    using schema_okD(3) [OF assms(1) that] .
  have "table_ok s' ?d"
  proof -
    have "table_ok s' d" by (rule table_ok_mono [OF old]) (use t at in \<open>force simp: s'\<close>)+
    with e show ?thesis by (simp add: table_ok_def has_column_snoc enums_of_snoc image_Un s')
  qed
  have vals: "snd ` set (sm_tables s') \<subseteq> insert ?d (snd ` set (sm_tables s))"
    using dict_set_values [of t ?d "sm_tables s"] by (force simp: s')
  have kept: "table_ok s' e" if "e \<in> snd ` set (sm_tables s)" for e
    by (rule table_ok_mono [OF old [OF that]]) (simp add: at, simp add: s')
  have tabs: "table_ok s' e" if "e \<in> snd ` set (sm_tables s')" for e
    using subsetD [OF vals that] \<open>table_ok s' ?d\<close> kept by (elim insertE) simp_all
  have inds: "sm_indexes s' = sm_indexes s" by (simp add: s')
  have "distinct (map fst (sm_tables s')) \<and> distinct (map ix_name (sm_indexes s')) \<and> distinct (map fst (sm_types s'))"
    unfolding keys using schema_okD(1) [OF assms(1)] by (simp add: s')
  then show "schema_ok s'"
  proof (rule schema_okI)
    show "column_at s' (ix_table i) (ix_column i)" if "i \<in> set (sm_indexes s')" for i
      using schema_okD(2) [OF assms(1), of i] that unfolding inds at by blast
  qed (rule tabs)
  show "sm_types s' = sm_types s \<and> cr' = cr" by (simp add: s' cr)
  have fks: "column_at s (fk_table f) (fk_ref f) \<and> (d = e \<longrightarrow> has_column d (fk_column f))"
    if "e \<in> insert d (snd ` set (sm_tables s))" "f \<in> set (tb_foreign_keys e)" for e f
    using that old t unfolding table_ok_def by force
  have no: "\<not> column_at s t (col_name c)" using c d by (simp add: column_at_def)
  have "\<not> (\<exists>(k, e)\<in>set (sm_tables s'). \<exists>f\<in>set (tb_foreign_keys e). fk_table f = t \<and> fk_ref f = col_name c)"
  proof (clarsimp)
    fix k e f
    assume "(k, e) \<in> set (sm_tables s')" "f \<in> set (tb_foreign_keys e)" "t = fk_table f" "fk_ref f = col_name c"
    moreover from this vals have "e = ?d \<or> e \<in> snd ` set (sm_tables s)" by force
    ultimately have "column_at s t (col_name c)" using fks [of d f] fks [of e f] by auto
    with no show False by simp
  qed
  moreover have "filter (\<lambda>k. col_name k \<noteq> col_name c) (tb_columns d) = tb_columns d"
    using c by (intro filter_True ballI) (metis has_column_def image_eqI)
  moreover have "filter (\<lambda>f. fk_column f \<noteq> col_name c) (tb_foreign_keys d) = tb_foreign_keys d"
    using c fks [of d] by (intro filter_True ballI) force
  moreover have "filter (\<lambda>i. \<not> (ix_table i = t \<and> ix_column i = col_name c)) (sm_indexes s) = sm_indexes s"
    using no schema_okD(2) [OF assms(1)] by (intro filter_True ballI) force
  moreover have "dict_get (sm_tables s') t = Some ?d" "has_column ?d (col_name c)" by (simp_all add: s' has_column_snoc)
  ultimately show "apply_ddl (Drop_Column t (col_name c)) (s'\<lparr>sm_types := T\<rparr>, m) = Inr (s\<lparr>sm_types := T\<rparr>, m)"
    using dict_set_back [OF d] by (simp add: drop_column_def_def) (simp add: s')
qed

text \<open>The three together, and then every sequence of statements.\<close>

lemma creates_step:
  assumes "creates x" and "schema_ok s" and "set cr \<subseteq> fst ` set (sm_types s)" and "apply_ddl x (s, cr) = Inr (s', cr')"
  shows "schema_ok s' \<and> set cr' \<subseteq> fst ` set (sm_types s')"
    and "\<exists>new. sm_types s' = sm_types s @ new \<and> fst ` set new \<inter> fst ` set (sm_types s) = {} \<and> set cr' = set cr \<union> enums_in x \<and>
      set cr' = set cr \<union> fst ` set new"
    and "apply_ddl (undo x) (s'\<lparr>sm_types := T\<rparr>, m) = Inr (s\<lparr>sm_types := T\<rparr>, m)"
proof -
  have 1: "(schema_ok s' \<and> (\<exists>new. sm_types s' = sm_types s @ new \<and> fst ` set new \<inter> fst ` set (sm_types s) = {} \<and>
      set cr' = set cr \<union> enums_in x \<and> set cr' = set cr \<union> fst ` set new)) \<and>
      apply_ddl (undo x) (s'\<lparr>sm_types := T\<rparr>, m) = Inr (s\<lparr>sm_types := T\<rparr>, m)"
  proof (cases x)
    case (Create_Table n cs fks pk)
    from create_table_step [OF assms(2,3) assms(4) [unfolded Create_Table]] show ?thesis
      by (auto simp: Create_Table fresh_types_def simp del: apply_ddl.simps)
  next
    case (Create_Index n t c u)
    from create_index_step [OF assms(2) assms(4) [unfolded Create_Index]] show ?thesis
      by (simp add: Create_Index del: apply_ddl.simps)
  next
    case (Add_Column t c)
    from add_column_step [OF assms(2) assms(4) [unfolded Add_Column]] show ?thesis
      by (simp add: Add_Column del: apply_ddl.simps)
  qed (use assms(1) in simp_all)
  then obtain new where ok: "schema_ok s'" and new: "sm_types s' = sm_types s @ new" "set cr' = set cr \<union> fst ` set new" by blast
  have "set cr' \<subseteq> fst ` set (sm_types s')" unfolding new(2) using assms(3) by (auto simp: new(1))
  with ok show "schema_ok s' \<and> set cr' \<subseteq> fst ` set (sm_types s')" by blast
  from 1 show "\<exists>new. sm_types s' = sm_types s @ new \<and> fst ` set new \<inter> fst ` set (sm_types s) = {} \<and>
      set cr' = set cr \<union> enums_in x \<and> set cr' = set cr \<union> fst ` set new" by blast
  from 1 show "apply_ddl (undo x) (s'\<lparr>sm_types := T\<rparr>, m) = Inr (s\<lparr>sm_types := T\<rparr>, m)" by blast
qed

lemma creates_run:
  assumes "list_all creates xs" and "schema_ok s" and "set cr \<subseteq> fst ` set (sm_types s)" and "run_ddl xs (s, cr) = Inr (s', cr')"
  shows "schema_ok s' \<and> set cr' \<subseteq> fst ` set (sm_types s')"
    and "\<exists>new. sm_types s' = sm_types s @ new \<and> fst ` set new \<inter> fst ` set (sm_types s) = {} \<and>
      set cr' = set cr \<union> \<Union>(enums_in ` set xs) \<and> set cr' = set cr \<union> fst ` set new"
    and "run_ddl (rev (map undo xs)) (s'\<lparr>sm_types := T\<rparr>, m) = Inr (s\<lparr>sm_types := T\<rparr>, m)"
proof -
  have "(schema_ok s' \<and> set cr' \<subseteq> fst ` set (sm_types s')) \<and>
    (\<exists>new. sm_types s' = sm_types s @ new \<and> fst ` set new \<inter> fst ` set (sm_types s) = {} \<and>
      set cr' = set cr \<union> \<Union>(enums_in ` set xs) \<and> set cr' = set cr \<union> fst ` set new) \<and>
    run_ddl (rev (map undo xs)) (s'\<lparr>sm_types := T\<rparr>, m) = Inr (s\<lparr>sm_types := T\<rparr>, m)"
    using assms
  proof (induction xs arbitrary: s cr)
    case Nil
    then show ?case by simp
  next
    case (Cons x xs)
    from Cons.prems(4) obtain s1 cr1 where x: "apply_ddl x (s, cr) = Inr (s1, cr1)" and xs: "run_ddl xs (s1, cr1) = Inr (s', cr')"
      by (auto simp: bind_res_Inr_iff)
    from Cons.prems(1) have c: "creates x" "list_all creates xs" by simp_all
    note st = creates_step [OF c(1) Cons.prems(2,3) x]
    from st(1) have ok: "schema_ok s1" "set cr1 \<subseteq> fst ` set (sm_types s1)" by blast+
    from st(2) obtain new where new: "sm_types s1 = sm_types s @ new" "fst ` set new \<inter> fst ` set (sm_types s) = {}"
      "set cr1 = set cr \<union> enums_in x" "set cr1 = set cr \<union> fst ` set new" by blast
    from Cons.IH [OF c(2) ok xs] obtain new' where new': "sm_types s' = sm_types s1 @ new'"
      "fst ` set new' \<inter> fst ` set (sm_types s1) = {}" "set cr' = set cr1 \<union> \<Union>(enums_in ` set xs)" "set cr' = set cr1 \<union> fst ` set new'"
      and rest: "schema_ok s' \<and> set cr' \<subseteq> fst ` set (sm_types s')"
        "run_ddl (rev (map undo xs)) (s'\<lparr>sm_types := T\<rparr>, m) = Inr (s1\<lparr>sm_types := T\<rparr>, m)" by (elim exE conjE, intro that conjI) assumption+
    have "sm_types s' = sm_types s @ (new @ new')" by (simp add: new(1) new'(1))
    moreover have "fst ` set (new @ new') \<inter> fst ` set (sm_types s) = {}"
      using new(2) new'(2) [unfolded new(1)] by (simp add: image_Un) blast
    moreover have "set cr' = set cr \<union> \<Union>(enums_in ` set (x # xs))" unfolding new'(3) new(3) by (simp add: Un_assoc)
    moreover have "set cr' = set cr \<union> fst ` set (new @ new')" unfolding new'(4) new(4) by (simp add: image_Un Un_assoc)
    moreover have "run_ddl (rev (map undo (x # xs))) (s'\<lparr>sm_types := T\<rparr>, m) = Inr (s\<lparr>sm_types := T\<rparr>, m)"
      using rest(2) st(3) by (simp add: run_ddl_append del: apply_ddl.simps)
    ultimately show ?case using rest(1) by blast
  qed
  then show "schema_ok s' \<and> set cr' \<subseteq> fst ` set (sm_types s')"
    and "\<exists>new. sm_types s' = sm_types s @ new \<and> fst ` set new \<inter> fst ` set (sm_types s) = {} \<and>
      set cr' = set cr \<union> \<Union>(enums_in ` set xs) \<and> set cr' = set cr \<union> fst ` set new"
    and "run_ddl (rev (map undo xs)) (s'\<lparr>sm_types := T\<rparr>, m) = Inr (s\<lparr>sm_types := T\<rparr>, m)" by blast+
qed

text \<open>Dropping types that no table uses.\<close>

lemma drop_types_run:
  assumes "schema_ok s" and "set ns \<inter> fst ` set (sm_types s) = {}"
  shows "run_ddl (map Drop_Type ns) (s\<lparr>sm_types := ts\<rparr>, m) = Inr (s\<lparr>sm_types := filter (\<lambda>(k, _). k \<notin> set ns) ts\<rparr>, m)"
  using assms(2)
proof (induction ns arbitrary: ts)
  case Nil
  then show ?case by (simp add: case_prod_unfold)
next
  case (Cons n ns)
  have "\<not> (\<exists>(k, d)\<in>set (sm_tables s). uses_type n d)"
  proof (clarsimp)
    fix k d
    assume "(k, d) \<in> set (sm_tables s)" "uses_type n d"
    then have "n \<in> fst ` set (sm_types s)"
      using schema_okD(3) [OF assms(1), of d] unfolding table_ok_def uses_type_def by force
    with Cons.prems show False by simp
  qed
  with Cons show ?case by (simp add: case_prod_unfold conj_commute)
qed

text \<open>Everything that was created, taken away in the opposite order, and then the types.\<close>

lemma migrate_back:
  assumes "list_all creates xs" and "schema_ok s" and "migrate xs s = Inr s'" and "set ns = \<Union>(enums_in ` set xs)"
  shows "schema_ok s' \<and> migrate (rev (map undo xs) @ map Drop_Type ns) s' = Inr s"
proof -
  obtain cr where r: "run_ddl xs (s, []) = Inr (s', cr)" using assms(3) by (auto simp: migrate_def bind_res_Inr_iff)
  note run = creates_run [OF assms(1,2) _ r, simplified]
  from run(2) obtain new where new: "sm_types s' = sm_types s @ new" "fst ` set new \<inter> fst ` set (sm_types s) = {}"
    "set cr = \<Union>(enums_in ` set xs)" "set cr = fst ` set new" by (elim exE conjE, intro that) assumption+
  have "run_ddl (rev (map undo xs)) (s', []) = Inr (s\<lparr>sm_types := sm_types s @ new\<rparr>, [])"
    using run(3) [of "sm_types s'" "[]"] by (simp add: new(1) flip: new(1))
  moreover have n: "set ns = fst ` set new" unfolding assms(4) new(3) [symmetric] by (rule new(4))
  moreover have "run_ddl (map Drop_Type ns) (s\<lparr>sm_types := sm_types s @ new\<rparr>, []) =
      Inr (s\<lparr>sm_types := filter (\<lambda>(k, _). k \<notin> set ns) (sm_types s @ new)\<rparr>, [])"
    using new(2) unfolding n [symmetric] by (intro drop_types_run [OF assms(2)])
  moreover have "filter (\<lambda>(k, _). k \<notin> set ns) (sm_types s @ new) = sm_types s"
  proof -
    have "filter (\<lambda>(k, _). k \<notin> set ns) new = []" unfolding n filter_empty_conv by force
    moreover have "filter (\<lambda>(k, _). k \<notin> set ns) (sm_types s) = sm_types s"
      unfolding n using new(2) by (intro filter_True) (auto simp: rev_image_eqI)
    ultimately show ?thesis by simp
  qed
  ultimately have "run_ddl (rev (map undo xs) @ map Drop_Type ns) (s', []) = Inr (s, [])" by (simp add: run_ddl_append)
  then show ?thesis using run(1) by (simp add: migrate_def)
qed

section \<open>Evaluating a migration\<close>

text \<open>
  Rules to run concrete statements with. Columns stay folded as \<^const>\<open>col\<close> terms, and a conjunction is evaluated from the left, so that
  two long names are told apart at their first difference.
\<close>

lemma conj_lazy: "P = P' \<Longrightarrow> (P \<and> Q) = (P' \<and> Q)"
  by simp

lemma imp_lazy: "P = P' \<Longrightarrow> (P \<longrightarrow> Q) = (P' \<longrightarrow> Q)"
  by simp

lemma col_sel:
  "col_name (col n t b) = n" "col_ty (col n t b) = t" "col_nullable (col n t b) = b" "col_default (col n t b) = None"
  "col_name (col n t b\<lparr>col_default := d\<rparr>) = n" "col_ty (col n t b\<lparr>col_default := d\<rparr>) = t"
  "col_nullable (col n t b\<lparr>col_default := d\<rparr>) = b" "col_default (col n t b\<lparr>col_default := d\<rparr>) = d"
  by (simp_all add: col_def)

lemma fk_sel: "fk_column (fk c t r b) = c" "fk_table (fk c t r b) = t" "fk_ref (fk c t r b) = r"
  by (simp_all add: fk_def)

lemma col_eq: "col n t b = col n' t' b' \<longleftrightarrow> n = n' \<and> t = t' \<and> b = b'"
  by (simp add: col_def)

lemma fk_eq: "fk c t r b = fk c' t' r' b' \<longleftrightarrow> c = c' \<and> t = t' \<and> r = r' \<and> b = b'"
  by (simp add: fk_def)

lemmas names_simps = list.inject list.distinct char.inject simp_thms list.map list.set insert_iff empty_iff
  image_insert image_empty distinct.simps prod.sel prod.inject if_True if_False

lemmas run_simps = names_simps migrate_def run_ddl.simps apply_ddl.simps create_types.simps enum_of.simps bind_res_simps
  column_at_def has_column_def dict_get_def dict_set.simps empty_schema_def col_sel fk_sel
  schema.select_convs schema.update_convs table_def.select_convs table_def.update_convs index_def.select_convs
  concat.simps append.simps map_of.simps fun_upd_apply set_append image_Un Un_iff
  option.case option.distinct prod.case sum.case sum.inject sum.distinct ball_simps bex_simps

end
