(* ===== verification/Api_Http.thy ===== *)
theory Api_Http
  imports Api Migrations
begin

text \<open>
  The framework around the handlers: \<^verbatim>\<open>apps/api/sentinel_api_app/main.py\<close>, the constraints of the request bodies
  (\<^verbatim>\<open>schemas/\<close>), the status codes of the routes, and what the columns of the tables hold. A request's dependencies are
  resolved first and may answer it; then its body is validated; then the handler runs; and a row that the database refuses
  makes the commit raise, which leaves everything as it was. Values start where JSON has been read as the types of the schema.
\<close>

section \<open>Request bodies\<close>

definition length_in :: "nat \<Rightarrow> nat \<Rightarrow> string \<Rightarrow> bool" where
  "length_in lo hi s \<longleftrightarrow> lo \<le> length s \<and> length s \<le> hi"

text \<open>\<^verbatim>\<open>^[a-z0-9][a-z0-9-]*$\<close>, where the end is the end of the text.\<close>

definition slug_char :: "char \<Rightarrow> bool" where
  "slug_char c \<longleftrightarrow> (let n = of_char c in (97 \<le> n \<and> n \<le> 122) \<or> (48 \<le> n \<and> n \<le> (57 :: nat)))"

definition slug_ok :: "string \<Rightarrow> bool" where
  "slug_ok s = (case s of [] \<Rightarrow> False | c # cs \<Rightarrow> slug_char c \<and> list_all (\<lambda>d. slug_char d \<or> d = CHR ''-'') cs)"

definition organization_body_ok :: "string \<Rightarrow> string \<Rightarrow> bool" where
  "organization_body_ok nm slug \<longleftrightarrow> length_in 1 200 nm \<and> length_in 1 200 slug \<and> slug_ok slug"

definition target_body_ok :: "string \<Rightarrow> string \<Rightarrow> bool" where
  "target_body_ok root_domain display_name \<longleftrightarrow> length_in 1 255 root_domain \<and> length_in 1 200 display_name"

definition scope_rule_body_ok :: "scope_rule \<Rightarrow> bool" where
  "scope_rule_body_ok r \<longleftrightarrow>
     rule_kind r \<in> set [''host'', ''path_prefix'', ''path_regex'', ''method''] \<and> length_in 1 500 (rule_pattern r) \<and>
     rule_effect r \<in> set [''include'', ''exclude'']"

definition step_body_ok :: "login_step \<Rightarrow> bool" where
  "step_body_ok s \<longleftrightarrow> 0 < ls_timeout_s s"

definition assertion_body_ok :: "success_assertion \<Rightarrow> bool" where
  "assertion_body_ok a \<longleftrightarrow> sa_value a \<noteq> [] \<and> 0 < sa_timeout_s a"

definition recipe_body_ok :: "login_recipe \<Rightarrow> bool" where
  "recipe_body_ok r \<longleftrightarrow> lr_start_url r \<noteq> [] \<and> lr_steps r \<noteq> [] \<and> list_all step_body_ok (lr_steps r) \<and>
     assertion_body_ok (lr_success_assertion r) \<and> 0 < lr_max_duration_s r"

definition credential_body_ok :: "credential_kind \<times> ptext \<Rightarrow> bool" where
  "credential_body_ok c \<longleftrightarrow> snd c \<noteq> []"

definition optional_ok :: "('a \<Rightarrow> bool) \<Rightarrow> 'a option \<Rightarrow> bool" where
  "optional_ok f x = (case x of None \<Rightarrow> True | Some a \<Rightarrow> f a)"

lemma optional_ok_simps [simp]: "optional_ok f None" "optional_ok f (Some a) = f a"
  by (simp_all add: optional_ok_def)

text \<open>The rank is a natural number in the model, so its lower bound is in its type.\<close>

definition persona_body_ok :: "persona_create \<Rightarrow> bool" where
  "persona_body_ok p \<longleftrightarrow> length_in 1 200 (pc_label p) \<and> length_in 1 100 (pc_role_name p) \<and>
     optional_ok (length_in 0 200) (pc_tenant_key p) \<and> optional_ok credential_body_ok (pc_credential p) \<and>
     optional_ok recipe_body_ok (pc_login_recipe p)"

fun body_ok :: "api_request \<Rightarrow> bool" where
  "body_ok (Create_Organization nm slug) = organization_body_ok nm slug"
| "body_ok (Create_Target d nm _) = target_body_ok d nm"
| "body_ok (Create_Scope_Rule _ r) = scope_rule_body_ok r"
| "body_ok (Create_Persona _ p) = persona_body_ok p"
| "body_ok _ = True"

section \<open>What a column holds\<close>

datatype db_value = V_Null | V_Text string | V_Chars ptext | V_Int int | V_Time bool | V_Json json | V_Member string

text \<open>
  A column of texts counts characters and takes no zero character, a document takes no text with one or with half of a surrogate
  pair, an integer has 32 bits, and a time with a zone does not go into a column of times without.
\<close>

definition no_zero :: "string \<Rightarrow> bool" where
  "no_zero s \<longleftrightarrow> CHR 0x00 \<notin> set s"

definition text_fits :: "nat \<Rightarrow> string \<Rightarrow> bool" where
  "text_fits n s \<longleftrightarrow> length s \<le> n \<and> no_zero s"

fun json_storable :: "json \<Rightarrow> bool" where
  "json_storable (JStr t) = list_all (\<lambda>c. scalar c \<and> c \<noteq> 0) t"
| "json_storable (JArr js) = list_all json_storable js"
| "json_storable (JObj kvs) = list_all (\<lambda>(k, v). list_all (\<lambda>c. scalar c \<and> c \<noteq> 0) k \<and> json_storable v) kvs"
| "json_storable _ = True"

fun fits :: "column \<Rightarrow> db_value \<Rightarrow> bool" where
  "fits k V_Null = col_nullable k"
| "fits k (V_Text s) = (case col_ty k of T_String n \<Rightarrow> text_fits n s | _ \<Rightarrow> False)"
| "fits k (V_Chars s) = (case col_ty k of T_String n \<Rightarrow> length s \<le> n \<and> 0 \<notin> set s | _ \<Rightarrow> False)"
| "fits k (V_Int i) = (col_ty k = T_Integer \<and> - (2 ^ 31) \<le> i \<and> i < 2 ^ 31)"
| "fits k (V_Time aware) = (case col_ty k of T_DateTime zone \<Rightarrow> aware \<longrightarrow> zone | _ \<Rightarrow> False)"
| "fits k (V_Json j) = (col_ty k = T_JSONB \<and> json_storable j)"
| "fits k (V_Member m) = (case col_ty k of T_Enum _ ms \<Rightarrow> m \<in> set ms | _ \<Rightarrow> False)"

definition column_of :: "declared \<Rightarrow> string \<Rightarrow> column option" where
  "column_of d c = find (\<lambda>k. col_name k = c) (md_columns d)"

definition row_fits :: "declared \<Rightarrow> (string \<times> db_value) list \<Rightarrow> bool" where
  "row_fits d vs = list_all (\<lambda>(c, v). optional_ok (\<lambda>k. fits k v) (column_of d c)) vs"

definition nullable :: "('a \<Rightarrow> db_value) \<Rightarrow> 'a option \<Rightarrow> db_value" where
  "nullable f x = (case x of None \<Rightarrow> V_Null | Some a \<Rightarrow> f a)"

section \<open>The rows that a request writes\<close>

fun method_member :: "ownership_method \<Rightarrow> string" where
  "method_member DNS_TXT = ''DNS_TXT''"
| "method_member WELL_KNOWN_FILE = ''WELL_KNOWN_FILE''"
| "method_member META_TAG = ''META_TAG''"

fun strategy_member :: "login_strategy \<Rightarrow> string" where
  "strategy_member LS_FORM = ''FORM''"
| "strategy_member LS_OAUTH_REDIRECT = ''OAUTH_REDIRECT''"
| "strategy_member LS_SAML = ''SAML''"
| "strategy_member LS_API_TOKEN = ''API_TOKEN''"
| "strategy_member LS_HAR_REPLAY = ''HAR_REPLAY''"
| "strategy_member LS_MANUAL_SESSION = ''MANUAL_SESSION''"

fun kind_member :: "credential_kind \<Rightarrow> string" where
  "kind_member CK_PASSWORD = ''PASSWORD''"
| "kind_member CK_TOTP_SECRET = ''TOTP_SECRET''"
| "kind_member CK_API_TOKEN = ''API_TOKEN''"
| "kind_member CK_SESSION_IMPORT = ''SESSION_IMPORT''"

definition organization_values :: "organization \<Rightarrow> (string \<times> db_value) list" where
  "organization_values g = [(''name'', V_Text (org_name g)), (''slug'', V_Text (org_slug g)), (''plan'', V_Text (org_plan g))]"

definition target_values :: "target \<Rightarrow> (string \<times> db_value) list" where
  "target_values t =
     [(''root_domain'', V_Text (tg_root_domain t)), (''display_name'', V_Text (tg_display_name t)),
      (''ownership_verification_method'', nullable (V_Member \<circ> method_member) (tg_verification_method t)),
      (''ownership_verification_token'', nullable V_Text (tg_verification_token t)),
      (''ownership_verified_at'', nullable (\<lambda>_. V_Time True) (tg_verified_at t)),
      (''authorization_accepted_at'', nullable (\<lambda>_. V_Time True) (tg_authorization_accepted_at t))]"

definition scope_rule_values :: "scope_rule_row \<Rightarrow> (string \<times> db_value) list" where
  "scope_rule_values r =
     [(''kind'', V_Text (rule_kind (sr_rule r))), (''pattern'', V_Text (rule_pattern (sr_rule r))),
      (''effect'', V_Text (rule_effect (sr_rule r))), (''label'', V_Text (rule_label (sr_rule r)))]"

definition credential_values :: "credential_row \<Rightarrow> (string \<times> db_value) list" where
  "credential_values c = [(''kind'', V_Member (kind_member (cred_kind c)))]"

definition persona_values :: "persona_row \<Rightarrow> (string \<times> db_value) list" where
  "persona_values p =
     [(''label'', V_Text (pe_label p)), (''role_name'', V_Text (pe_role_name p)), (''trust_rank'', V_Int (int (pe_trust_rank p))),
      (''tenant_key'', nullable V_Text (pe_tenant_key p)),
      (''login_strategy'', nullable (V_Member \<circ> strategy_member) (pe_login_strategy p)),
      (''login_recipe'', V_Json (case pe_login_recipe p of None \<Rightarrow> JNull | Some j \<Rightarrow> j)),
      (''expected_denied'', V_Json (JArr (map json_text (pe_expected_denied p))))]"

definition scan_values :: "scan_row \<Rightarrow> (string \<times> db_value) list" where
  "scan_values s = [(''triggered_by'', V_Text (sc_triggered_by s))]"

text \<open>Every row of the tables that requests write fits its columns, in the columns that requests write.\<close>

definition columns_accept :: "database \<Rightarrow> bool" where
  "columns_accept db \<longleftrightarrow>
     list_all (\<lambda>g. row_fits declared_organizations (organization_values g)) (db_orgs db) \<and>
     list_all (\<lambda>t. row_fits declared_targets (target_values t)) (db_targets db) \<and>
     list_all (\<lambda>r. row_fits declared_scope_rules (scope_rule_values r)) (db_scope_rules db) \<and>
     list_all (\<lambda>c. row_fits declared_credentials (credential_values c)) (db_credentials db) \<and>
     list_all (\<lambda>p. row_fits declared_personas (persona_values p)) (db_personas db) \<and>
     list_all (\<lambda>s. row_fits declared_scans (scan_values s)) (db_scans db)"

section \<open>Serving a request\<close>

datatype http_response = Http_Ok nat api_reply | Http_Fail nat string | Http_Invalid

text \<open>
  An exception that a handler or a dependency leaves: an \<^verbatim>\<open>HTTPException\<close> is its own answer, the exception handler of the
  application answers a \<^verbatim>\<open>RuntimeError\<close>, and the server anything else.
\<close>

fun error_response :: "http_error \<Rightarrow> http_response" where
  "error_response (Http_Exception c d) = Http_Fail c d"
| "error_response (Server_Error (Runtime_Error d)) = Http_Fail 503 d"
| "error_response (Server_Error _) = Http_Fail 500 ''Internal Server Error''"

fun success_status :: "api_request \<Rightarrow> nat" where
  "success_status (Create_Organization _ _) = 201"
| "success_status (Create_Target _ _ _) = 201"
| "success_status (Create_Scope_Rule _ _) = 201"
| "success_status (Create_Persona _ _) = 201"
| "success_status (Create_Scan _ _) = 201"
| "success_status _ = 200"

definition no_value :: "http_error + 'a \<Rightarrow> http_error + unit" where
  "no_value r = bind_res r (\<lambda>_. Inr ())"

text \<open>The dependencies of a route, in the order of the handler's parameters.\<close>

fun dependencies :: "api_env \<Rightarrow> string option \<Rightarrow> api_request \<Rightarrow> database \<Rightarrow> http_error + unit" where
  "dependencies env h (Create_Organization _ _) db = no_value (get_crypto env)"
| "dependencies env h Get_My_Organization db = no_value (get_current_org env h db)"
| "dependencies env h (Create_Target _ _ _) db = no_value (get_current_org env h db)"
| "dependencies env h List_Targets db = no_value (get_current_org env h db)"
| "dependencies env h (Get_Target i) db = no_value (get_owned_target env h i db)"
| "dependencies env h (Ownership_Challenge i _) db = no_value (get_owned_target env h i db)"
| "dependencies env h (Ownership_Verify i) db = no_value (get_owned_target env h i db)"
| "dependencies env h (Authorization i _) db = no_value (get_owned_target env h i db)"
| "dependencies env h (Create_Scope_Rule i _) db = no_value (get_owned_target env h i db)"
| "dependencies env h (List_Scope_Rules i) db = no_value (get_owned_target env h i db)"
| "dependencies env h (Create_Persona i _) db =
     bind_res (get_owned_target env h i db) (\<lambda>_. bind_res (get_current_org env h db) (\<lambda>_. no_value (get_crypto env)))"
| "dependencies env h (List_Personas i) db = no_value (get_owned_target env h i db)"
| "dependencies env h (Create_Scan i _) db = no_value (get_owned_target env h i db)"
| "dependencies env h (List_Scans i) db = no_value (get_owned_target env h i db)"
| "dependencies env h (Get_Scan _) db = no_value (get_current_org env h db)"
| "dependencies env h (List_Findings _) db = no_value (get_current_org env h db)"

definition serve_http :: "api_env \<Rightarrow> string option \<Rightarrow> api_request \<Rightarrow> api_world \<Rightarrow> http_response \<times> api_world" where
  "serve_http env h r w =
     (case dependencies env h r (aw_db w) of
        Inl e \<Rightarrow> (error_response e, w)
      | Inr _ \<Rightarrow>
          if \<not> body_ok r then (Http_Invalid, w)
          else case serve env h r w of
            (Inl e, w') \<Rightarrow> (error_response e, w')
          | (Inr a, w') \<Rightarrow>
              if columns_accept (aw_db w') then (Http_Ok (success_status r) a, w')
              else (Http_Fail 500 ''Internal Server Error'', w))"

text \<open>\<^verbatim>\<open>GET /healthz\<close> depends on nothing.\<close>

definition healthz :: "(string, string) dict" where
  "healthz = [(''status'', ''ok'')]"

section \<open>What the columns ask of each row\<close>

lemmas row_simps = row_fits_def column_of_def declare_table_def col_sel  nullable_def

lemma free_plan_fits [simp]: "text_fits 50 ''free_scan''"
  by (simp add: text_fits_def no_zero_def)

lemma organization_fits:
  "row_fits declared_organizations (organization_values g) \<longleftrightarrow> text_fits 200 (org_name g) \<and> text_fits 200 (org_slug g) \<and>
     text_fits 50 (org_plan g)"
  by (simp add: row_simps declared_organizations_def organization_values_def)

lemma target_fits:
  "row_fits declared_targets (target_values t) \<longleftrightarrow> text_fits 255 (tg_root_domain t) \<and> text_fits 200 (tg_display_name t) \<and>
     optional_ok (text_fits 200) (tg_verification_token t)"
proof -
  have "method_member m \<in> set [''DNS_TXT'', ''WELL_KNOWN_FILE'', ''META_TAG'']" for m by (cases m) simp_all
  then show ?thesis
    by (simp add: row_simps declared_targets_def target_values_def ownership_type_def optional_ok_def split: option.split)
qed

lemma scope_rule_fits:
  "row_fits declared_scope_rules (scope_rule_values r) \<longleftrightarrow> text_fits 20 (rule_kind (sr_rule r)) \<and>
     text_fits 500 (rule_pattern (sr_rule r)) \<and> text_fits 10 (rule_effect (sr_rule r)) \<and> text_fits 200 (rule_label (sr_rule r))"
  by (simp add: row_simps declared_scope_rules_def scope_rule_values_def)

lemma credential_fits: "row_fits declared_credentials (credential_values c)"
  by (cases "cred_kind c") (simp_all add: row_simps declared_credentials_def credential_values_def credential_kind_type_def)

lemma points_storable: "list_all (\<lambda>c. scalar c \<and> c \<noteq> 0) (code_points s) \<longleftrightarrow> no_zero s"
proof -
  have "of_char c = (0 :: nat) \<longleftrightarrow> c = CHR 0x00" for c :: char
    using of_char_eq_iff [of c "CHR 0x00", where 'a = nat] by simp
  then have "0 \<in> set (code_points s) \<longleftrightarrow> CHR 0x00 \<in> set s" by (force simp: code_points_def)
  moreover have "scalar c" if "c \<in> set (code_points s)" for c
    using that code_points_scalar [of s] by (simp add: list_all_iff)
  ultimately show ?thesis unfolding list_all_iff no_zero_def by metis
qed

lemma text_storable [simp]: "json_storable (json_text s) \<longleftrightarrow> no_zero s"
  unfolding json_text_def json_storable.simps(1) by (rule points_storable)

lemma persona_fits:
  "row_fits declared_personas (persona_values p) \<longleftrightarrow> text_fits 200 (pe_label p) \<and> text_fits 100 (pe_role_name p) \<and>
     pe_trust_rank p < 2 ^ 31 \<and> optional_ok (text_fits 200) (pe_tenant_key p) \<and> optional_ok json_storable (pe_login_recipe p) \<and>
     list_all no_zero (pe_expected_denied p)"
proof -
  have "strategy_member m \<in> set [''FORM'', ''OAUTH_REDIRECT'', ''SAML'', ''API_TOKEN'', ''HAR_REPLAY'', ''MANUAL_SESSION'']" for m
    by (cases m) simp_all
  then show ?thesis
    by (simp add: row_simps declared_personas_def persona_values_def login_strategy_type_def optional_ok_def list.pred_map comp_def split: option.split)
qed

lemma scan_fits: "row_fits declared_scans (scan_values s) \<longleftrightarrow> text_fits 50 (sc_triggered_by s)"
  by (simp add: row_simps declared_scans_def scan_values_def)

lemmas fits_simps = organization_fits target_fits scope_rule_fits credential_fits persona_fits scan_fits

section \<open>Bodies that can be stored\<close>

text \<open>What the columns ask of a body beyond its validation.\<close>

definition step_storable :: "login_step \<Rightarrow> bool" where
  "step_storable s \<longleftrightarrow> optional_ok no_zero (ls_selector s) \<and> optional_ok no_zero (ls_value s) \<and> optional_ok no_zero (ls_credential_ref s)"

definition recipe_storable :: "login_recipe \<Rightarrow> bool" where
  "recipe_storable r \<longleftrightarrow> no_zero (lr_start_url r) \<and> list_all step_storable (lr_steps r) \<and> no_zero (sa_value (lr_success_assertion r))"

definition persona_storable :: "persona_create \<Rightarrow> bool" where
  "persona_storable p \<longleftrightarrow> no_zero (pc_label p) \<and> no_zero (pc_role_name p) \<and> pc_trust_rank p < 2 ^ 31 \<and>
     optional_ok no_zero (pc_tenant_key p) \<and> optional_ok recipe_storable (pc_login_recipe p) \<and> list_all no_zero (pc_expected_denied p)"

fun storable :: "api_request \<Rightarrow> bool" where
  "storable (Create_Organization nm _) = no_zero nm"
| "storable (Create_Target d nm _) = (no_zero d \<and> no_zero nm)"
| "storable (Create_Scope_Rule _ r) = (no_zero (rule_pattern r) \<and> text_fits 200 (rule_label r))"
| "storable (Create_Persona _ p) = persona_storable p"
| "storable (Create_Scan _ s) = text_fits 50 s"
| "storable _ = True"

lemma fits_in: "length_in lo hi s \<Longrightarrow> text_fits hi s \<longleftrightarrow> no_zero s"
  by (simp add: length_in_def text_fits_def)

lemma opt_storable [simp]: "json_storable (json_opt x) \<longleftrightarrow> optional_ok no_zero x"
  by (cases x) (simp_all add: json_opt_def)

lemma object_storable [simp]: "json_storable (json_object kvs) \<longleftrightarrow> list_all (\<lambda>(k, v). no_zero k \<and> json_storable v) kvs"
  by (simp add: json_object_def list.pred_map comp_def case_prod_unfold points_storable [simplified])

lemma literals_storable [simp]: "no_zero (action_value a)" "no_zero (assertion_kind_value k)"
  by (cases a; simp add: no_zero_def) (cases k; simp add: no_zero_def)

lemma step_dump_storable: "json_storable (step_dump pr s) \<longleftrightarrow> step_storable s"
  by (simp add: step_dump_def step_storable_def) (simp add: no_zero_def)

lemma assertion_dump_storable: "json_storable (assertion_dump pr a) \<longleftrightarrow> no_zero (sa_value a)"
  by (simp add: assertion_dump_def) (simp add: no_zero_def)

lemma recipe_dump_storable: "json_storable (recipe_dump pr r) \<longleftrightarrow> recipe_storable r"
  by (simp add: recipe_dump_def recipe_storable_def list.pred_map comp_def step_dump_storable assertion_dump_storable)
    (simp add: no_zero_def)

lemma slug_no_zero: "slug_ok s \<Longrightarrow> no_zero s"
  by (auto simp: slug_ok_def slug_char_def no_zero_def list_all_iff Let_def split: list.splits)

section \<open>Serving\<close>

text \<open>The handlers resolve the same dependencies themselves, so what these answer is what the handler would.\<close>

lemma handled_no_value: "no_value r = Inl e \<Longrightarrow> handled r w f = (Inl e, w)"
  by (cases r) (simp_all add: no_value_def handled_def)

lemma serve_dependencies: "dependencies env h r (aw_db w) = Inl e \<Longrightarrow> serve env h r w = (Inl e, w)"
proof (cases r)
  case (Create_Persona i p)
  assume "dependencies env h r (aw_db w) = Inl e"
  then show ?thesis
    by (auto simp: Create_Persona serve_def create_persona_def handled_def no_value_def bind_res_def split: sum.splits)
next
  case (Get_Scan s)
  assume "dependencies env h r (aw_db w) = Inl e"
  then show ?thesis
    by (auto simp: Get_Scan serve_def read_scan_def owned_scan_def handled_def no_value_def bind_res_def split: sum.splits)
next
  case (List_Findings s)
  assume "dependencies env h r (aw_db w) = Inl e"
  then show ?thesis
    by (auto simp: List_Findings serve_def list_findings_def owned_scan_def handled_def no_value_def bind_res_def split: sum.splits)
qed (simp_all add: serve_def create_organization_def get_my_organization_def create_target_def list_targets_def read_target_def
    create_ownership_challenge_def run_ownership_verification_def accept_authorization_def create_scope_rule_def list_scope_rules_def
    list_personas_def create_scan_def list_scans_def handled_no_value)

lemma handled_Inr: "handled r w f = (Inr a, w') \<longleftrightarrow> (\<exists>x. r = Inr x \<and> f x = (Inr a, w'))"
  by (cases r) (simp_all add: handled_def)

lemma handled_Inl: "handled r w f = (Inl e, w') \<longleftrightarrow> (r = Inl e \<and> w' = w) \<or> (\<exists>x. r = Inr x \<and> f x = (Inl e, w'))"
  by (cases r) (auto simp: handled_def)

definition verified_row :: "api_env \<Rightarrow> verification_result \<Rightarrow> target \<Rightarrow> target" where
  "verified_row env vr t = t\<lparr>tg_ownership_verified := vr_verified vr,
     tg_verified_at := (if vr_verified vr then Some (api_now env) else None)\<rparr>"

lemma verification_cases:
  assumes "run_ownership_verification env h i w = (res, w')"
  shows "(\<exists>e. res = Inl e \<and> w' = w) \<or>
    (\<exists>(t :: target) vr. res = Inr (R_Verified \<lparr>ov_verified = vr_verified vr, ov_detail = vr_detail vr\<rparr>) \<and> w' = w\<lparr>aw_db := update_target (tg_id t) (verified_row env vr) (aw_db w)\<rparr>)"
proof -
  have "verified_row env vr = (\<lambda>t. t\<lparr>tg_ownership_verified := vr_verified vr,
      tg_verified_at := (if vr_verified vr then Some (api_now env) else None)\<rparr>)" for vr
    by (rule ext) (simp only: verified_row_def)
  note eff = this [symmetric]
  note run = assms [unfolded run_ownership_verification_def handled_def eff]
  show ?thesis
  proof (cases "get_owned_target env h i (aw_db w)")
    case (Inl e)
    with run show ?thesis by auto
  next
    case (Inr t)
    note run = run [unfolded Inr sum.case]
    show ?thesis
    proof (cases "tg_verification_method t = None \<or> or_default (tg_verification_token t) [] = []")
      case True
      with run show ?thesis by (auto split: option.splits list.splits)
    next
      case False
      then obtain m c cs where m: "tg_verification_method t = Some m" "or_default (tg_verification_token t) [] = c # cs"
        by (auto simp: neq_Nil_conv)
      show ?thesis
      proof (cases "server_res (verify_ownership (api_net env) m (tg_root_domain t) (c # cs))")
        case (Inl e)
        with run m show ?thesis by auto
      next
        case (Inr vr)
        with run m have "res = Inr (R_Verified \<lparr>ov_verified = vr_verified vr, ov_detail = vr_detail vr\<rparr>) \<and> w' = w\<lparr>aw_db := update_target (tg_id t) (verified_row env vr) (aw_db w)\<rparr>"
          by auto
        then show ?thesis by blast
      qed
    qed
  qed
qed

lemma serve_error: "serve env h r w = (Inl e, w') \<Longrightarrow> w' = w"
proof (cases r)
  case (Ownership_Verify i)
  assume "serve env h r w = (Inl e, w')"
  then have "run_ownership_verification env h i w = (Inl e, w')" by (simp add: Ownership_Verify serve_def)
  from verification_cases [OF this] show ?thesis by blast
qed (auto simp: serve_def create_organization_def get_my_organization_def create_target_def list_targets_def read_target_def
    create_ownership_challenge_def accept_authorization_def create_scope_rule_def list_scope_rules_def create_persona_def
    list_personas_def create_scan_def list_scans_def read_scan_def list_findings_def handled_Inl Let_def split: if_splits)

text \<open>What a successful request adds to the tables or changes in them, column by column.\<close>

lemma columns_update_target:
  assumes "columns_accept db" and "\<And>t. row_fits declared_targets (target_values t) \<Longrightarrow> row_fits declared_targets (target_values (f t))"
  shows "columns_accept (update_target i f db)"
  using assms by (auto simp: columns_accept_def update_target_def list_all_iff)

lemma columns_credential:
  assumes "add_credential env crypto org c db = Inr (i, db')"
  shows "columns_accept db' \<longleftrightarrow> columns_accept db" "db_personas db' = db_personas db"
  using assms
  by (auto simp: add_credential_def bind_res_Inr_iff columns_accept_def credential_fits split: option.splits)

lemma serve_storable:
  assumes "columns_accept (aw_db w)" and "body_ok r" and "text_fits 200 (generate_verification_token (api_token_hex env))"
    and "serve env h r w = (Inr a, w')"
  shows "columns_accept (aw_db w') \<longleftrightarrow> storable r"
proof (cases r)
  case (Create_Organization nm slug)
  with assms show ?thesis
    by (auto simp: serve_def create_organization_def handled_Inr Let_def organization_body_ok_def columns_accept_def organization_fits
        fits_in slug_no_zero split: if_splits)
next
  case (Create_Target d nm p)
  with assms show ?thesis
    by (auto simp: serve_def create_target_def handled_Inr Let_def target_body_ok_def columns_accept_def target_fits fits_in)
next
  case (Ownership_Challenge i m)
  with assms show ?thesis
    by (auto simp: serve_def create_ownership_challenge_def handled_Inr Let_def target_fits intro!: columns_update_target)
next
  case (Ownership_Verify i)
  with assms(4) have "run_ownership_verification env h i w = (Inr a, w')" by (simp add: serve_def)
  from verification_cases [OF this] show ?thesis
  proof (elim disjE exE conjE)
    fix t :: target and vr
    assume w': "w' = w\<lparr>aw_db := update_target (tg_id t) (verified_row env vr) (aw_db w)\<rparr>"
    have "columns_accept (update_target (tg_id t) (verified_row env vr) (aw_db w))"
      by (rule columns_update_target [OF assms(1)]) (simp add: target_fits verified_row_def)
    with Ownership_Verify w' show ?thesis by simp
  qed simp
next
  case (Authorization i b)
  with assms show ?thesis
    by (auto simp: serve_def accept_authorization_def handled_Inr Let_def target_fits intro!: columns_update_target split: if_splits)
next
  case (Create_Scope_Rule i rule)
  have "text_fits 20 (rule_kind rule)" "text_fits 10 (rule_effect rule)"
    using assms(2) by (auto simp: Create_Scope_Rule scope_rule_body_ok_def text_fits_def no_zero_def)
  with assms Create_Scope_Rule show ?thesis
    by (auto simp: serve_def create_scope_rule_def handled_Inr Let_def scope_rule_body_ok_def columns_accept_def scope_rule_fits fits_in)
next
  case (Create_Persona i p)
  with assms(2) have p: "length_in 1 200 (pc_label p)" "length_in 1 100 (pc_role_name p)" "optional_ok (length_in 0 200) (pc_tenant_key p)"
    by (simp_all add: persona_body_ok_def)
  have ten: "optional_ok (text_fits 200) (pc_tenant_key p) \<longleftrightarrow> optional_ok no_zero (pc_tenant_key p)"
    using p(3) by (cases "pc_tenant_key p") (simp_all add: fits_in)
  have rec: "optional_ok json_storable (map_option (recipe_dump (api_number env)) (pc_login_recipe p)) \<longleftrightarrow> optional_ok recipe_storable (pc_login_recipe p)"
    by (cases "pc_login_recipe p") (simp_all add: recipe_dump_storable)
  let ?row = "last (db_personas (aw_db w'))"
  from assms(4) obtain crypto org cr where
    "add_credential env crypto org (pc_credential p) (aw_db w) = Inr cr \<and>
     aw_db w' = (snd cr)\<lparr>db_personas := db_personas (snd cr) @ [?row], db_next := db_next (snd cr) + 1\<rparr> \<and>
     pe_label ?row = pc_label p \<and> pe_role_name ?row = pc_role_name p \<and> pe_trust_rank ?row = pc_trust_rank p \<and>
     pe_tenant_key ?row = pc_tenant_key p \<and> pe_expected_denied ?row = pc_expected_denied p \<and>
     pe_login_recipe ?row = map_option (recipe_dump (api_number env)) (pc_login_recipe p)"
    unfolding Create_Persona serve_def create_persona_def api_request.case handled_Inr Let_def case_prod_unfold
    by (elim exE conjE) (auto simp: server_res_def split: sum.splits)
  then obtain cid db where
    add: "add_credential env crypto org (pc_credential p) (aw_db w) = Inr (cid, db)"
    and row: "aw_db w' = db\<lparr>db_personas := db_personas db @ [?row], db_next := db_next db + 1\<rparr>"
    "pe_label ?row = pc_label p" "pe_role_name ?row = pc_role_name p" "pe_trust_rank ?row = pc_trust_rank p"
    "pe_tenant_key ?row = pc_tenant_key p" "pe_expected_denied ?row = pc_expected_denied p"
    "pe_login_recipe ?row = map_option (recipe_dump (api_number env)) (pc_login_recipe p)"
    by (cases cr) simp
  have acc: "columns_accept (db\<lparr>db_personas := db_personas db @ [q], db_next := n\<rparr>) \<longleftrightarrow>
      columns_accept db \<and> row_fits declared_personas (persona_values q)" for q n
    by (auto simp: columns_accept_def)
  have "columns_accept (aw_db w') \<longleftrightarrow> columns_accept db \<and> row_fits declared_personas (persona_values ?row)"
    by (subst row(1)) (rule acc)
  also have "\<dots> \<longleftrightarrow> persona_storable p"
    using columns_credential(1) [OF add] assms(1) p(1,2) ten rec
    by (simp add: persona_fits row(2-7) persona_storable_def fits_in)
  finally show ?thesis by (simp add: Create_Persona)
next
  case (Create_Scan i s)
  with assms show ?thesis
    by (auto simp: serve_def create_scan_def dispatch_scan_def handled_Inr Let_def columns_accept_def scan_fits split: if_splits)
qed (use assms in \<open>auto simp: serve_def get_my_organization_def list_targets_def read_target_def list_scope_rules_def
    list_personas_def list_scans_def read_scan_def list_findings_def handled_Inr Let_def\<close>)

section \<open>Answers\<close>

lemma error_response_fails: "error_response e \<noteq> Http_Ok n a"
  by (cases "(e)" rule: error_response.cases) simp_all

text \<open>
  A request that is not answered with success changes nothing: whether a dependency answered it, its body was refused,
  its handler raised, or the database refused a row, neither a table nor the queue of scans is touched. The dependencies come
  first: without a configured master key, creating an organization or, on an own target, a persona is answered with 503 whatever
  the body is.
\<close>

lemma failed_request_changes_nothing:
  assumes "serve_http env h r w = (resp, w')"
  shows "((\<forall>n a. resp \<noteq> Http_Ok n a) \<longrightarrow> w' = w) \<and>
    (api_kms_master_key env = [] \<longrightarrow>
      ((\<exists>nm slug. r = Create_Organization nm slug) \<longrightarrow> resp = Http_Fail 503 kms_missing_text) \<and>
      (\<forall>i p. r = Create_Persona i p \<and> (\<exists>t. get_owned_target env h i (aw_db w) = Inr t) \<longrightarrow> resp = Http_Fail 503 kms_missing_text))"
proof (intro conjI impI allI)
  assume "\<forall>n a. resp \<noteq> Http_Ok n a"
  with assms show "w' = w"
    by (auto simp: serve_http_def split: sum.splits if_splits prod.splits dest: serve_error)
next
  assume "api_kms_master_key env = []"
  then have no: "get_crypto env = Inl (Server_Error (Runtime_Error kms_missing_text))"
    by (simp add: get_crypto_def server_res_def local_provider_of_def)
  show "resp = Http_Fail 503 kms_missing_text" if "\<exists>nm slug. r = Create_Organization nm slug"
    using that assms no by (auto simp: serve_http_def no_value_def)
  fix i p
  assume "r = Create_Persona i p \<and> (\<exists>t. get_owned_target env h i (aw_db w) = Inr t)"
  then obtain t where r: "r = Create_Persona i p" and t: "get_owned_target env h i (aw_db w) = Inr t" by blast
  then obtain g where "get_current_org env h (aw_db w) = Inr g"
    by (auto simp: get_owned_target_def bind_res_Inr_iff)
  with r t assms no show "resp = Http_Fail 503 kms_missing_text" by (auto simp: serve_http_def no_value_def)
qed

text \<open>
  C39. Exactly what the columns hold beyond what the schemas check: on tables whose rows fit their columns, a request that passes
  its validation and that its handler would answer is answered so if its body is \<^const>\<open>storable\<close>, and the rows still fit;
  otherwise the commit raises, the answer is 500 and nothing is stored. What the schemas let through and the columns do not is the
  label of a scope rule over 200 characters, what triggered a scan over 50, a trust rank from two to the power 31, and a text
  with a zero character.
\<close>

theorem accepted_bodies_and_columns:
  assumes "columns_accept (aw_db w)" and "text_fits 200 (generate_verification_token (api_token_hex env))"
    and "body_ok r" and "serve env h r w = (Inr a, w')"
  shows "if storable r then serve_http env h r w = (Http_Ok (success_status r) a, w') \<and> columns_accept (aw_db w')
    else serve_http env h r w = (Http_Fail 500 ''Internal Server Error'', w)"
proof -
  have "dependencies env h r (aw_db w) = Inr ()"
  proof (cases "dependencies env h r (aw_db w)")
    case (Inl e)
    with serve_dependencies [OF Inl] assms(4) show ?thesis by simp
  qed simp
  with assms(3,4) serve_storable [OF assms(1,3,2,4)] show ?thesis by (simp add: serve_http_def)
qed

theorem accepted_bodies_and_columns_witness:
  "\<exists>a w'. serve_http demo_api_env None (Create_Organization ''A'' ''a'') demo_api_world = (Http_Ok 201 a, w') \<and>
     serve_http demo_api_env None (Create_Organization [CHR 0x00] ''a'') demo_api_world =
       (Http_Fail 500 ''Internal Server Error'', demo_api_world)"
proof -
  have ok: "columns_accept (aw_db demo_api_world)" by (simp add: columns_accept_def demo_api_world_def empty_database_def)
  have tok: "text_fits 200 (generate_verification_token (api_token_hex demo_api_env))"
    by (simp add: generate_verification_token_def TOKEN_PREFIX_def text_fits_def no_zero_def)
  have body: "body_ok (Create_Organization ''A'' ''a'')" "body_ok (Create_Organization [CHR 0x00] ''a'')"
    by (simp_all add: organization_body_ok_def length_in_def slug_ok_def slug_char_def)
  have served: "\<exists>a w'. serve demo_api_env None (Create_Organization nm ''a'') demo_api_world = (Inr a, w')" for nm
    by (simp add: serve_def create_organization_def handled_def demo_crypto demo_api_world_def empty_database_def Let_def)
  from served [of "''A''"] obtain a w' where a: "serve demo_api_env None (Create_Organization ''A'' ''a'') demo_api_world = (Inr a, w')"
    by blast
  from served [of "[CHR 0x00]"] obtain b v where
    b: "serve demo_api_env None (Create_Organization [CHR 0x00] ''a'') demo_api_world = (Inr b, v)" by blast
  from accepted_bodies_and_columns [OF ok tok body(1) a] accepted_bodies_and_columns [OF ok tok body(2) b] show ?thesis
    by (simp add: no_zero_def)
qed

section \<open>Sequences of requests\<close>

text \<open>
  Serving over HTTP does nothing that the handlers do not: what a sequence of requests leads to is what the handlers make of
  some of them, so what holds of the database after every sequence of handled requests holds here.
\<close>

definition served_http :: "api_step list \<Rightarrow> api_world \<Rightarrow> api_world" where
  "served_http steps w = fold (\<lambda>(env, h, r) w. snd (serve_http env h r w)) steps w"

lemma serve_http_world: "snd (serve_http env h r w) \<in> {w, snd (serve env h r w)}"
  by (auto simp: serve_http_def split: sum.splits prod.splits)

lemma served_http_handled: "\<exists>ss. set ss \<subseteq> set steps \<and> served_http steps w = served ss w"
proof (induction steps arbitrary: w)
  case Nil
  show ?case by (intro exI [of _ "[]"]) (simp add: served_http_def served_def)
next
  case (Cons s steps)
  obtain env h r where s: "s = (env, h, r)" by (cases s)
  let ?w = "snd (serve_http env h r w)"
  from Cons.IH [of ?w] obtain ss where ss: "set ss \<subseteq> set steps" "served_http steps ?w = served ss ?w" by blast
  from serve_http_world [of env h r w] consider "?w = w" | "?w = snd (serve env h r w)" by blast
  then show ?case
  proof cases
    case 1
    with ss s show ?thesis by (intro exI [of _ ss]) (auto simp: served_http_def)
  next
    case 2
    with ss s show ?thesis by (intro exI [of _ "s # ss"]) (auto simp: served_http_def served_def)
  qed
qed

section \<open>Times without a zone\<close>

text \<open>
  The models declare the two times of a persona's session and the one of a credential's revocation without a zone, so their
  columns refuse the aware times that the rest of the code, the worker's update of a session included, works with.
\<close>

lemma session_times_refused:
  "\<exists>k. column_of declared_personas ''session_state_updated_at'' = Some k \<and> \<not> fits k (V_Time True)"
  "\<exists>k. column_of declared_scans ''started_at'' = Some k \<and> fits k (V_Time True)"
  by (simp_all add: column_of_def declare_table_def declared_personas_def declared_scans_def col_sel)

end
