(* ===== verification/Scan_Columns.thy ===== *)
theory Scan_Columns
  imports Shared_Database Api_Http
begin

text \<open>
  The columns that a worker writes. The database refuses a statement whose values do not fit the columns that the
  models declare (theories \<open>Migrations\<close> and \<open>Api_Http\<close>); this theory shows what that means for a run: what the
  database can ever hold, and which runs cannot end well.
\<close>

section \<open>What a worker writes\<close>

text \<open>
  The columns of \<^verbatim>\<open>apps/worker/sentinel_worker_app/scan_runner.py\<close> and \<^verbatim>\<open>surface_adapter.py\<close> whose values come
  from outside: the login of a persona, the assets and the endpoints. A session's time is \<^verbatim>\<open>datetime.now(UTC)\<close>, which
  has a zone.
\<close>

definition login_values :: "persona_row \<Rightarrow> (string \<times> db_value) list" where
  "login_values p =
     [(''unavailable_reason'', nullable V_Text (pe_unavailable_reason p)),
      (''session_state_updated_at'', nullable (\<lambda>_. V_Time True) (pe_session_state_updated_at p))]"

definition asset_values :: "asset_row \<Rightarrow> (string \<times> db_value) list" where
  "asset_values a = [(''host'', V_Chars (as_host a)), (''http_probes'', V_Json (as_http_probes a)),
     (''discovery_source'', V_Text (as_discovery_source a))]"

definition endpoint_values :: "endpoint_row \<Rightarrow> (string \<times> db_value) list" where
  "endpoint_values e = [(''method'', V_Text (ep_method e)), (''path_template'', V_Text (ep_path_template e)),
     (''discovery_source'', V_Text (ep_discovery_source e))]"

text \<open>An UPDATE names the columns that changed; a row that did not change is not sent.\<close>

definition changed_login_values :: "persona_row list \<Rightarrow> persona_row \<Rightarrow> (string \<times> db_value) list" where
  "changed_login_values old p =
     (case find (\<lambda>q. pe_id q = pe_id p) old of
        None \<Rightarrow> login_values p
      | Some q \<Rightarrow> filter (\<lambda>v. v \<notin> set (login_values q)) (login_values p))"

definition writes_fit :: "database \<Rightarrow> database \<Rightarrow> bool" where
  "writes_fit old new \<longleftrightarrow>
     list_all (\<lambda>p. row_fits declared_personas (changed_login_values (db_personas old) p)) (db_personas new) \<and>
     list_all (\<lambda>a. a \<in> set (db_assets old) \<or> row_fits declared_assets (asset_values a)) (db_assets new) \<and>
     list_all (\<lambda>e. e \<in> set (db_endpoints old) \<or> row_fits declared_endpoints (endpoint_values e)) (db_endpoints new)"

text \<open>What the code relies on the database for: it takes no value that does not fit its column.\<close>

definition columns_checked :: "('s, 'n, 'b, 'p) run_env \<Rightarrow> bool" where
  "columns_checked env \<longleftrightarrow> (\<forall>k old new. re_refuse env k old new = None \<longrightarrow> writes_fit old new)"

definition worker_rows_fit :: "database \<Rightarrow> bool" where
  "worker_rows_fit db \<longleftrightarrow>
     list_all (\<lambda>p. row_fits declared_personas (login_values p)) (db_personas db) \<and>
     list_all (\<lambda>a. row_fits declared_assets (asset_values a)) (db_assets db) \<and>
     list_all (\<lambda>e. row_fits declared_endpoints (endpoint_values e)) (db_endpoints db)"

lemma login_fits:
  "row_fits declared_personas (login_values p) \<longleftrightarrow>
     optional_ok (text_fits 500) (pe_unavailable_reason p) \<and> pe_session_state_updated_at p = None"
  by (auto simp: row_simps declared_personas_def login_values_def split: option.splits)

lemma asset_fits:
  "row_fits declared_assets (asset_values a) \<longleftrightarrow>
     length (as_host a) \<le> 255 \<and> 0 \<notin> set (as_host a) \<and> json_storable (as_http_probes a) \<and> text_fits 30 (as_discovery_source a)"
  by (auto simp: row_simps declared_assets_def asset_values_def)

lemma endpoint_fits:
  "row_fits declared_endpoints (endpoint_values e) \<longleftrightarrow>
     text_fits 10 (ep_method e) \<and> text_fits 1000 (ep_path_template e) \<and> text_fits 30 (ep_discovery_source e)"
  by (auto simp: row_simps declared_endpoints_def endpoint_values_def)

lemma changed_fits:
  assumes "list_all (\<lambda>p. row_fits declared_personas (login_values p)) old"
    and "row_fits declared_personas (changed_login_values old p)"
  shows "row_fits declared_personas (login_values p)"
proof (cases "find (\<lambda>q. pe_id q = pe_id p) old")
  case None
  with assms(2) show ?thesis by (simp add: changed_login_values_def)
next
  case (Some q)
  then have "row_fits declared_personas (login_values q)" using assms(1) find_SomeD [OF Some] by (simp add: list_all_iff)
  with assms(2) Some show ?thesis by (auto simp: changed_login_values_def row_fits_def list_all_iff)
qed

lemma writes_fit_keep: "worker_rows_fit old \<Longrightarrow> writes_fit old new \<Longrightarrow> worker_rows_fit new"
  by (auto simp: worker_rows_fit_def writes_fit_def list_all_iff intro: changed_fits)

section \<open>What the database ever holds\<close>

definition fitted :: "('s, 'n, 'b, 'p) run_env \<Rightarrow> ('s, 'n, 'b, 'p) run_world \<Rightarrow> bool" where
  "fitted env w \<longleftrightarrow> (columns_checked env \<longrightarrow> worker_rows_fit (rw_saved w))"

interpretation fitting: run_frame "\<lambda>_ _. True" "fitted env" False for env
  by unfold_locales simp_all

interpretation fitting_run: scan_frame "\<lambda>_ _. True" "fitted env" False env t rows scan_id
  for env t rows scan_id
proof unfold_locales
  show "fitting.moves env (rcommit env)"
    by (auto simp: fitting.moves_def fitted_def columns_checked_def dest!: rcommit_cases intro: writes_fit_keep)
qed (auto simp: fitting.moves_def fitted_def primitive_defs run_oracle_def run_crawl_def Let_def
    dest!: run_merge_frame get_or_create_phase_frame split: option.splits sum.splits prod.splits)

lemma fitting_scan_body: "fitting.moves env (scan_body env i t m)"
  unfolding scan_body_def
  by (auto split: option.split prod.split intro!: fitting.moves_rules fitting_run.moves_scope fitting_run.moves_recon fitting_run.moves_later)

lemma run_scan_fits:
  assumes "run_scan env sid w = Some (r, w')" and "columns_checked env" and "worker_rows_fit (rw_saved w)"
  shows "worker_rows_fit (rw_saved w')"
  using run_scan_cases [of env sid w]
proof (elim disjE exE conjE)
  fix i s t
  assume rows: "re_uuid env sid = Some i" "get_scan_row i (rw_saved w) = Some s" "get_target (sc_target_id s) (rw_saved w) = Some t"
  let ?m = "\<lparr>current = sc_state s, paused_from = sc_paused_from s, fail_reason = None\<rparr>" and ?w = "w\<lparr>rw_db := rw_saved w\<rparr>"
  have "scan_body env i t ?m ?w = Some (r, w')" using assms(1) run_scan_body [OF rows] by simp
  moreover have "fitted env ?w" using assms(3) by (simp add: fitted_def)
  ultimately have "fitted env w'" using fitting_scan_body [of env i t ?m] unfolding fitting.moves_def by blast
  with assms(2) show ?thesis by (simp add: fitted_def)
next
  fix r'
  assume "run_scan env sid w = Some (r', w\<lparr>rw_db := rw_saved w\<rparr>)"
  with assms show ?thesis by auto
qed

text \<open>A request, or a run of a worker whose database checks its columns.\<close>

inductive checked_step :: "('s, 'n, 'b, 'p) system \<Rightarrow> ('s, 'n, 'b, 'p) system \<Rightarrow> bool" where
  checked_request: "w = snd (serve env h r (sys_api s)) \<Longrightarrow>
     checked_step s \<lparr>sys_api = w, sys_run = (sys_run s)\<lparr>rw_saved := aw_db w\<rparr>, sys_steps = sys_steps s @ [(env, h, r)]\<rparr>"
| checked_run: "columns_checked env \<Longrightarrow> run_scan env sid (sys_run s) = Some (r, w) \<Longrightarrow>
     checked_step s \<lparr>sys_api = (sys_api s)\<lparr>aw_db := rw_saved w\<rparr>, sys_run = w, sys_steps = sys_steps s\<rparr>"

lemma api_effect_fits: "api_effect env c r db db' \<Longrightarrow> worker_rows_fit db \<Longrightarrow> worker_rows_fit db'"
  by (induction rule: api_effect.induct) (auto simp: worker_rows_fit_def login_fits fresh_session_def update_target_def)

interpretation columns: invariant_system system_start checked_step
  "\<lambda>s. rw_saved (sys_run s) = aw_db (sys_api s) \<and> worker_rows_fit (aw_db (sys_api s))"
proof
  show "rw_saved (sys_run s) = aw_db (sys_api s) \<and> worker_rows_fit (aw_db (sys_api s))" if "system_start s" for s
    using that by (simp add: system_start_def worker_rows_fit_def empty_database_def)
  show "rw_saved (sys_run t) = aw_db (sys_api t) \<and> worker_rows_fit (aw_db (sys_api t))"
    if ok: "rw_saved (sys_run s) = aw_db (sys_api s) \<and> worker_rows_fit (aw_db (sys_api s))" and st: "checked_step s t" for s t
    using st
  proof cases
    case (checked_request w env h r)
    with api_effect_fits [OF serve_effect [of env h r "sys_api s"]] ok show ?thesis by simp
  next
    case (checked_run env sid r w)
    with run_scan_fits [OF checked_run(3,2)] ok show ?thesis by simp
  qed
qed

lemma reach_checked: "reach system_start checked_step s \<Longrightarrow> worker_rows_fit (rw_saved (sys_run s))"
  using columns.reach_inv by fastforce

section \<open>A login that works\<close>

text \<open>A part of a run that leaves the personas as they are.\<close>

definition personas_frame :: "('s, 'n, 'b, 'p) run_world \<Rightarrow> ('s, 'n, 'b, 'p) run_world \<Rightarrow> bool" where
  "personas_frame w w' \<longleftrightarrow> db_personas (rw_db w') = db_personas (rw_db w)"

interpretation personas: run_frame personas_frame "\<lambda>_. True" False
  by unfold_locales (simp_all add: personas_frame_def)

lemma personas_ops:
  "personas.moves rtick" "personas.moves (rflush env)" "personas.moves (rcommit env)" "personas.moves (get_or_create_phase env i name)"
  "personas.moves (rdb (update_scan i f))" "personas.moves (rdb (update_phase i g))" "personas.moves (degrade i ns)"
  "personas.moves (rdb (add_recon_assets i new))" "personas.moves (do_recon env d)" "personas.moves (enter_state i m q)"
  "personas.moves (run_replay env rec creds)" "personas.moves (run_oracle env e ps u)"
proof -
  have recon: "db_personas (add_recon_assets i new db) = db_personas db" for db
    by (induction i new db rule: add_recon_assets.induct) simp_all
  show "personas.moves (rdb (add_recon_assets i new))" by (simp add: personas.moves_def personas_frame_def rdb_def recon)
  show "personas.moves (enter_state i m q)"
    by (auto simp: personas.moves_def personas_frame_def enter_state_def rbind_def rdb_def rreturn_def update_scan_def split: sum.split)
qed (auto simp: personas.moves_def personas_frame_def primitive_defs run_oracle_def Let_def
    dest!: rflush_cases rcommit_cases get_or_create_phase_frame split: option.splits prod.splits)

lemma personas_phases:
  "personas.moves (scope_phase env i t m)" "personas.moves (recon_phase env i t m)"
  "personas.moves (finish_phase env ph st stats err)" "personas.moves (start_phase env ph)"
  "personas.moves (establish_persona env p cred key e u)" "personas.moves (launch env pn)"
  unfolding scope_phase_def recon_phase_def start_phase_def finish_phase_def finish_scan_def establish_persona_def launch_def
  by (auto split: option.split intro!: personas.moves_rules personas_ops)

definition stamped :: "database \<Rightarrow> bool" where
  "stamped db \<longleftrightarrow> (\<exists>p\<in>set (db_personas db). pe_session_state_updated_at p \<noteq> None)"

abbreviation persona_ids :: "database \<Rightarrow> uid set" where
  "persona_ids db \<equiv> pe_id ` set (db_personas db)"

lemma stamped_misfit: "stamped db \<Longrightarrow> \<not> worker_rows_fit db"
  by (auto simp: stamped_def worker_rows_fit_def login_fits list_all_iff)

lemma update_persona_ids [simp]: "(\<And>p. pe_id (f p) = pe_id p) \<Longrightarrow> persona_ids (update_persona j f db) = persona_ids db"
  by (simp add: update_persona_def image_image if_distrib del: if_image_distrib cong: if_cong)

lemma stamped_update:
  "stamped (update_persona j f db) \<longleftrightarrow>
     (\<exists>p\<in>set (db_personas db). pe_session_state_updated_at (if pe_id p = j then f p else p) \<noteq> None)"
  by (simp add: stamped_def update_persona_def del: if_image_distrib)

lemma update_persona_stamped:
  assumes "stamped db" and "\<And>p. pe_session_state_updated_at p \<noteq> None \<Longrightarrow> pe_session_state_updated_at (f p) \<noteq> None"
  shows "stamped (update_persona j f db)"
proof -
  from assms(1) obtain p where "p \<in> set (db_personas db)" "pe_session_state_updated_at p \<noteq> None" by (auto simp: stamped_def)
  with assms(2) [of p] show ?thesis unfolding stamped_update by (intro bexI [of _ p]) simp_all
qed

lemma update_persona_stamps:
  assumes "j \<in> persona_ids db" and "\<And>p. pe_session_state_updated_at (f p) \<noteq> None"
  shows "stamped (update_persona j f db)"
proof -
  from assms(1) obtain p where "p \<in> set (db_personas db)" "pe_id p = j" by auto
  with assms(2) [of p] show ?thesis unfolding stamped_update by (intro bexI [of _ p]) simp_all
qed

lemma degrade_personas: "degrade i ns w = Some (r, w') \<Longrightarrow> db_personas (rw_db w') = db_personas (rw_db w)"
  using personas.movesD [OF personas_ops(7)] by (simp add: personas_frame_def)

lemma keep_session_stamps:
  assumes "keep_session env i key p res w = Some (Inr (), w')" and "pe_id p \<in> persona_ids (rw_db w)"
  shows "stamped (rw_db w') \<and> persona_ids (rw_db w') = persona_ids (rw_db w)"
proof -
  let ?stamp = "\<lambda>c t p. p\<lparr>pe_session_state_ciphertext := Some c, pe_session_state_updated_at := Some t, pe_session_oracle := pa_session_oracle res\<rparr>"
  from assms(1) obtain c t k where rest: "(if pa_session_oracle res = None then degrade i [persona_note p res] else rreturn ())
      (w\<lparr>rw_ticks := k, rw_db := update_persona (pe_id p) (?stamp c t) (rw_db w)\<rparr>) = Some (Inr (), w')"
    by (auto simp: keep_session_def rbind_Inr rtick_def rlift_def rdb_def)
  then have "db_personas (rw_db w') = db_personas (update_persona (pe_id p) (?stamp c t) (rw_db w))"
    using degrade_personas [of i "[persona_note p res]"] by (cases "pa_session_oracle res") (fastforce simp: rreturn_def)+
  moreover have "stamped (update_persona (pe_id p) (?stamp c t) (rw_db w))"
    using assms(2) by (intro update_persona_stamps) simp_all
  moreover have "persona_ids (update_persona (pe_id p) (?stamp c t) (rw_db w)) = persona_ids (rw_db w)" by simp
  ultimately show ?thesis by (simp add: stamped_def)
qed

lemma auth_loop_stamps:
  assumes "auth_loop env i key e url ps n ss w = Some (Inr (n', ss'), w')" and "pe_id ` set ps \<subseteq> persona_ids (rw_db w)"
  shows "n \<le> n' \<and> (n < n' \<or> stamped (rw_db w) \<longrightarrow> stamped (rw_db w'))"
  using assms
proof (induction ps arbitrary: n ss w)
  case Nil
  then show ?case by (simp add: rreturn_def)
next
  case (Cons p ps)
  from Cons.prems(1) obtain cred res w1 where est: "establish_persona env p cred key e url w = Some (Inr res, w1)"
    and rest: "(if \<not> pa_available res then auth_loop env i key e url ps n ss
       else rbind (keep_session env i key p res) (\<lambda>_. auth_loop env i key e url ps (n + 1)
           (dict_set (show_nat (pe_id p)) (or_default (pa_storage_state res) []) ss)))
       (w1\<lparr>rw_db := update_persona (pe_id p) (\<lambda>p. p\<lparr>pe_is_available := pa_available res,
          pe_unavailable_reason := pa_unavailable_reason res\<rparr>) (rw_db w1)\<rparr>) = Some (Inr (n', ss'), w')"
    by (auto simp: rbind_Inr rread_def rdb_def)
  let ?w = "w1\<lparr>rw_db := update_persona (pe_id p) (\<lambda>p. p\<lparr>pe_is_available := pa_available res,
      pe_unavailable_reason := pa_unavailable_reason res\<rparr>) (rw_db w1)\<rparr>"
  have same: "db_personas (rw_db w1) = db_personas (rw_db w)"
    using personas.movesD [OF personas_phases(5) est] by (simp add: personas_frame_def)
  then have ids: "persona_ids (rw_db ?w) = persona_ids (rw_db w)" by simp
  have st: "stamped (rw_db w) \<Longrightarrow> stamped (rw_db ?w)"
    using same by (simp, intro update_persona_stamped) (simp_all add: stamped_def)
  show ?case
  proof (cases "pa_available res")
    case False
    with rest Cons.IH [of n ss ?w] Cons.prems(2) ids st show ?thesis by auto
  next
    case True
    with rest obtain w2 ss2 where k: "keep_session env i key p res ?w = Some (Inr (), w2)"
      and l: "auth_loop env i key e url ps (n + 1) ss2 w2 = Some (Inr (n', ss'), w')"
      by (auto simp: rbind_Inr)
    have "pe_id p \<in> persona_ids (rw_db ?w)" using Cons.prems(2) ids by simp
    from keep_session_stamps [OF k this] Cons.IH [OF l] Cons.prems(2) ids show ?thesis by auto
  qed
qed

lemma finish_phase_flushed:
  assumes "finish_phase env ph st stats err w = Some (Inr (), w')" and "columns_checked env" and "worker_rows_fit (rw_saved w)"
  shows "worker_rows_fit (rw_db w')"
  using assms
  by (auto simp: finish_phase_def rbind_Inr rtick_def rdb_def columns_checked_def dest!: rflush_cases intro: writes_fit_keep)

lemma auth_branch_login:
  assumes "auth_branch env i t org rows conf ph m w = Some (Inr (Some ss), w')" and "conf \<noteq> []" and "re_kms_master_key env \<noteq> []"
    and "columns_checked env" and "worker_rows_fit (rw_saved w)" and "pe_id ` set conf \<subseteq> persona_ids (rw_db w)"
  shows False
proof -
  from assms(1-3) obtain n ss1 w1 w2 where l: "launch env PH_AUTH_ESTABLISHING w = Some (Inr (), w1)"
    and a: "run_auth_establishing env i t org rows conf w1 = Some (Inr (n, ss1), w2)" and n: "n \<noteq> 0"
    and f: "finish_phase env ph PS_COMPLETED (auth_stats (length conf) n) None w2 = Some (Inr (), w')"
    by (auto simp: auth_branch_def rbind_Inr rreturn_def split: if_splits)
  have w1: "w1 = w" using l by (simp add: launch_def rlift_def split: option.splits)
  have saved: "rw_saved w2 = rw_saved w"
    using status.movesD [OF status_run.moves_run_auth a] by (simp add: status_frame_def w1)
  from a assms(2) obtain key where "auth_loop env i key (worker_engine i t rows) (target_root_url t) conf 0 [] w = Some (Inr (n, ss1), w2)"
    by (auto simp: run_auth_establishing_def w1 rbind_Inr rlift_def split: if_splits)
  from auth_loop_stamps [OF this assms(6)] n have "stamped (rw_db w2)" by simp
  moreover have "db_personas (rw_db w') = db_personas (rw_db w2)"
    using personas.movesD [OF personas_phases(3) f] by (simp add: personas_frame_def)
  ultimately have "stamped (rw_db w')" by (simp add: stamped_def)
  with finish_phase_flushed [OF f assms(4)] saved assms(5) stamped_misfit show False by simp
qed

lemma auth_phase_login:
  assumes "auth_phase env i t org rows conf m w = Some (Inr r, w')" and "conf \<noteq> []" and "re_kms_master_key env \<noteq> []"
    and "columns_checked env" and "worker_rows_fit (rw_saved w)" and "pe_id ` set conf \<subseteq> persona_ids (rw_db w)"
  shows "r = None"
proof -
  from assms(1) obtain ph w1 m1 w2 w3 w4 b w5 where
    ops: "get_or_create_phase env i PH_AUTH_ESTABLISHING w = Some (Inr ph, w1)" "enter_state i m AUTH_ESTABLISHING w1 = Some (Inr m1, w2)"
      "start_phase env ph w2 = Some (Inr (), w3)" "rcommit env w3 = Some (Inr (), w4)"
    and branch: "auth_branch env i t org rows conf ph m1 w4 = Some (Inr b, w5)"
    and rest: "(case b of None \<Rightarrow> rreturn None | Some ss \<Rightarrow> rbind (enter_state i m1 CRAWLING) (\<lambda>m. rbind (rcommit env) (\<lambda>_. rreturn (Some (m, ss))))) w5 = Some (Inr r, w')"
    by (auto simp: auth_phase_def rbind_Inr)
  have "db_personas (rw_db w4) = db_personas (rw_db w)"
    using personas.movesD [OF personas_ops(4) ops(1)] personas.movesD [OF personas_ops(10) ops(2)]
      personas.movesD [OF personas_phases(4) ops(3)] personas.movesD [OF personas_ops(3) ops(4)]
    by (simp add: personas_frame_def)
  moreover have "fitted env w4"
    using fitting_run.m_new_phase ops(1) fitting_run.moves_enter ops(2) fitting_run.moves_start ops(3) fitting_run.m_commit ops(4) assms(5)
    unfolding fitting.moves_def fitted_def by metis
  ultimately have "b \<noteq> Some ss" for ss
    using auth_branch_login [of env i t org rows conf ph m1 w4 ss w5] branch assms(2-6) by (auto simp: fitted_def)
  with rest show ?thesis by (cases b) (auto simp: rreturn_def)
qed

text \<open>A worker whose database checks its columns, and a scan of a target with a persona that has a recipe.\<close>

definition checked_env :: "(files, net_outcome list, unit, unit) run_env" where
  "checked_env = demo_run_env\<lparr>re_uuid := (\<lambda>s. if s = ''three'' then Some 3 else None),
     re_refuse := (\<lambda>_ old new. if writes_fit old new then None else Some (Other_Error ''DataError''))\<rparr>"

definition login_steps :: "api_step list" where
  "login_steps = demo_steps @ [(demo_api_env, Some ''a'', Create_Persona 2 demo_payload)]"

lemma checked_env_ok: "columns_checked checked_env" "re_uuid checked_env ''three'' = Some 3" "re_kms_master_key checked_env \<noteq> []"
  by (simp_all add: columns_checked_def checked_env_def demo_run_env_def)

lemma login_system_reach: "reach system_start checked_step (after_requests login_steps demo_system)"
  by (intro requests_reach checked_step.checked_request refl reach_init)
    (simp_all add: system_start_def demo_system_def demo_api_world_def)

lemma login_rows:
  "\<exists>s t. get_scan_row 3 (rw_saved (sys_run (after_requests login_steps demo_system))) = Some s \<and>
     get_target (sc_target_id s) (rw_saved (sys_run (after_requests login_steps demo_system))) = Some t \<and> is_scannable t \<and>
     configured_personas t (rw_saved (sys_run (after_requests login_steps demo_system))) \<noteq> []"
proof -
  obtain s t where rows: "db_scans (aw_db (served demo_steps demo_api_world)) = [s]" "db_targets (aw_db (served demo_steps demo_api_world)) = [t]"
    "sc_id s = 3" "sc_target_id s = 2" "tg_id t = 2" "is_scannable t"
    using demo_served_rows by (elim exE conjE)
  obtain out w' p where cp: "create_persona demo_api_env (Some ''a'') 2 demo_payload (served demo_steps demo_api_world) = (Inr (R_Persona out), w')"
    and same: "db_scans (aw_db w') = db_scans (aw_db (served demo_steps demo_api_world))"
      "db_targets (aw_db w') = db_targets (aw_db (served demo_steps demo_api_world))"
    and p: "p \<in> set (db_personas (aw_db w'))" "pe_target_id p = 2" "has_recipe p"
    using demo_persona_created by (elim exE conjE)
  have "rw_saved (sys_run (after_requests login_steps demo_system)) = aw_db w'"
    using cp by (simp add: after_requests_def demo_system_def login_steps_def served_def serve_def)
  moreover have "p \<in> set (configured_personas t (aw_db w'))" using p rows(5) by (simp add: configured_personas_def)
  then have "configured_personas t (aw_db w') \<noteq> []" by (cases "configured_personas t (aw_db w')") simp_all
  ultimately show ?thesis
    using rows same by (intro exI [of _ s] exI [of _ t]) (simp add: get_scan_row_def get_target_def)
qed

lemma login_run: "\<exists>r w'. run_scan checked_env ''three'' (sys_run (after_requests login_steps demo_system)) = Some (r, w')"
proof -
  have "live checked_env 0 (sys_run (after_requests login_steps demo_system))"
    using demo_live [of True QUEUED] by (simp add: live_def checked_env_def after_requests_def demo_system_def)
  then show ?thesis by (rule run_scan_live)
qed

section \<open>A path that is too long\<close>

text \<open>After a merge the table holds the methods and paths of everything that was discovered.\<close>

definition paths :: "database \<Rightarrow> string set" where
  "paths db = ep_path_template ` set (db_endpoints db)"

lemma merge_endpoint_paths:
  assumes "merge_endpoint a d db = Inr (m, db')"
  shows "paths db' = insert (de_path_template d) (paths db)"
proof -
  obtain found where f: "scalar_one_or_none (filter (is_endpoint_of a d) (db_endpoints db)) = Inr found"
    using assms by (auto simp: merge_endpoint_def bind_res_Inr_iff)
  show ?thesis
  proof (cases found)
    case None
    with f assms show ?thesis by (auto simp: merge_endpoint_def new_endpoint_def paths_def)
  next
    case (Some e)
    with f have "filter (is_endpoint_of a d) (db_endpoints db) = [e]"
      by (auto simp: scalar_one_or_none_def split: list.splits)
    then have "e \<in> set (filter (is_endpoint_of a d) (db_endpoints db))" by simp
    then have "de_path_template d \<in> paths db" by (force simp: paths_def is_endpoint_of_def)
    moreover have "ep_path_template (add_persona x y) = ep_path_template y" for x y by (simp add: add_persona_def)
    ultimately show ?thesis
      using Some f assms
      by (auto simp: merge_endpoint_def paths_def image_image if_distrib simp del: if_image_distrib cong: if_cong)
  qed
qed

lemma merge_loop_paths:
  "merge_loop py i ds cache s db = Inr (s', db') \<Longrightarrow> paths db' = de_path_template ` set ds \<union> paths db"
proof (induction ds arbitrary: cache s db)
  case (Cons d ds)
  from Cons.prems obtain host a cache1 s1 db1 merged db2 where
    c: "cached_asset i host cache s db = Inr (a, cache1, s1, db1)" and m: "merge_endpoint (as_id a) d db1 = Inr (merged, db2)"
    and l: "merge_loop py i ds cache1 (count_endpoint merged s1) db2 = Inr (s', db')"
    by (auto simp: bind_res_Inr_iff)
  from cached_asset_frame [OF c] have "paths db1 = paths db" by (auto simp: paths_def)
  with Cons.IH [OF l] merge_endpoint_paths [OF m] show ?case by auto
qed simp

lemma merge_all_paths:
  "merge_all env i surfs acc w = Some (Inr acc', w') \<Longrightarrow>
     paths (rw_db w) \<subseteq> paths (rw_db w') \<and> (\<forall>s\<in>set surfs. de_path_template ` set (sm_endpoints s) \<subseteq> paths (rw_db w')) \<and>
     rw_saved w' = rw_saved w"
proof (induction surfs arbitrary: acc w)
  case (Cons s surfs)
  then obtain st w1 where m: "run_merge env i s w = Some (Inr st, w1)" and l: "merge_all env i surfs (add_stats acc st) w1 = Some (Inr acc', w')"
    by (auto simp: rbind_Inr)
  obtain db where db: "w1 = w\<lparr>rw_db := db\<rparr>" "merge_surface_map (env_py (re_engine env)) i s (rw_db w) = Inr (st, db)"
    using m by (auto simp: run_merge_def split: sum.splits)
  from merge_loop_paths [OF db(2) [unfolded merge_surface_map_def]] db(1) Cons.IH [OF l] show ?case by auto
qed (simp add: rreturn_def)

lemma surface_phase_long:
  assumes "surface_phase env i m surfs w = Some (Inr (), w')" and "columns_checked env" and "worker_rows_fit (rw_saved w)"
    and "s \<in> set surfs" and "d \<in> set (sm_endpoints s)"
  shows "length (de_path_template d) \<le> 1000"
proof -
  from assms(1) obtain ph w1 w2 w3 acc w4 w5 where
    ops: "get_or_create_phase env i PH_SURFACE_MAPPING w = Some (Inr ph, w1)" "start_phase env ph w1 = Some (Inr (), w2)"
      "rcommit env w2 = Some (Inr (), w3)"
    and m: "merge_all env i surfs \<lparr>ms_assets_created = 0, ms_endpoints_created = 0, ms_endpoints_merged = 0\<rparr> w3 = Some (Inr acc, w4)"
    and f: "finish_phase env ph PS_COMPLETED (surface_stats acc) None w4 = Some (Inr (), w5)"
    by (auto simp: surface_phase_def rbind_Inr)
  have "fitted env w3"
    using fitting_run.m_new_phase ops(1) fitting_run.moves_start ops(2) fitting_run.m_commit ops(3) assms(3)
    unfolding fitting.moves_def fitted_def by metis
  with merge_all_paths [OF m] assms(2) have saved: "worker_rows_fit (rw_saved w4)" by (simp add: fitted_def)
  have "db_endpoints (rw_db w5) = db_endpoints (rw_db w4)"
    using f by (auto simp: finish_phase_def rbind_Inr rtick_def rdb_def update_phase_def dest!: rflush_cases)
  then have "paths (rw_db w5) = paths (rw_db w4)" by (simp add: paths_def)
  moreover have "de_path_template d \<in> paths (rw_db w4)" using merge_all_paths [OF m] assms(4,5) by blast
  ultimately obtain e where "e \<in> set (db_endpoints (rw_db w5))" "ep_path_template e = de_path_template d"
    unfolding paths_def by (metis imageE)
  with finish_phase_flushed [OF f assms(2) saved] show ?thesis
    by (auto simp: worker_rows_fit_def endpoint_fits list_all_iff text_fits_def)
qed

lemma settled_opsD:
  "get_or_create_phase env j n w = Some (r1, w') \<Longrightarrow> rw_saved w' = rw_saved w \<and> keeps_status i w w'"
  "start_phase env ph w = Some (u, w') \<Longrightarrow> rw_saved w' = rw_saved w \<and> keeps_status i w w'"
  "merge_all env j surfs acc w = Some (r2, w') \<Longrightarrow> rw_saved w' = rw_saved w \<and> keeps_status i w w'"
  "enter_state j m q w = Some (r3, w') \<Longrightarrow> rw_saved w' = rw_saved w"
  "rcommit env w = Some (u, w') \<Longrightarrow> (if u = Inr () then rw_saved w' = rw_db w else rw_saved w' = rw_saved w)"
proof -
  assume m: "merge_all env j surfs acc w = Some (r2, w')"
  show "rw_saved w' = rw_saved w \<and> keeps_status i w w'"
    using status.movesD [OF status_run.moves_merge_all m, where i = i] by (simp add: status_frame_def)
next
  assume "enter_state j m q w = Some (r3, w')"
  then show "rw_saved w' = rw_saved w" by (auto simp: enter_state_def rbind_Some rdb_def rreturn_def split: sum.splits)
qed (auto dest: phase_opsD(1,2) row_opsD(1,2) rcommit_cases)

lemma surface_phase_saved:
  assumes "surface_phase env i m surfs w = Some (Inl x, w')" and "rw_saved w = rw_db w"
  shows "scan_status i (rw_saved w') = scan_status i (rw_saved w)"
  using assms
  by (auto simp: surface_phase_def rbind_Some degrade_def rdb_def split: if_splits
      dest!: settled_opsD(1-3) [where i = i] settled_opsD(4,5) row_opsD(3))

section \<open>Properties\<close>





text \<open>
  C35. One long link strands the scan: if a crawl discovered an endpoint whose path, after its numbers have been replaced, is longer
  than the thousand characters of its column, the phase that merges the surface maps raises, and the scan stays committed in the state
  before, from which no retry continues it; the site that is scanned decides whether it has such a link.
\<close>

theorem long_path_strands_scan:
  assumes "surface_phase env i m surfs w = Some (r, w')" and "columns_checked env" and "worker_rows_fit (rw_saved w)"
    and "rw_saved w = rw_db w" and "s \<in> set surfs" and "d \<in> set (sm_endpoints s)" and "1000 < length (de_path_template d)"
  shows "(\<exists>x. r = Inl x) \<and> scan_status i (rw_saved w') = scan_status i (rw_saved w)"
proof (cases r)
  case (Inl x)
  with surface_phase_saved [of env i m surfs w x w'] assms(1,4) show ?thesis by simp
next
  case (Inr u)
  with surface_phase_long [of env i m surfs w w' s d] assms show ?thesis by simp
qed

text \<open>A surface map with one link of a thousand and one characters.\<close>

definition long_surface :: surface_map where
  "long_surface = \<lparr>sm_root_url = ''https://shop.io/'', sm_persona_id = ''anonymous'', sm_endpoints =
     [\<lparr>de_method = ''GET'', de_url = ''https://shop.io/'' @ replicate 1000 (CHR ''a''),
       de_path_template = CHR ''/'' # replicate 1000 (CHR ''a''), de_source = FROM_LINK, de_persona_id = ''anonymous''\<rparr>],
     sm_pages_visited = 1, sm_notes = []\<rparr>"

theorem long_path_strands_scan_witness:
  "\<exists>x w'. surface_phase checked_env 7 \<lparr>current = SURFACE_MAPPING, paused_from = None, fail_reason = None\<rparr> [long_surface]
       ((demo_run_world True SURFACE_MAPPING)\<lparr>rw_db := rw_saved (demo_run_world True SURFACE_MAPPING)\<rparr>) = Some (Inl x, w') \<and>
     scan_status 7 (rw_saved w') = Some (SURFACE_MAPPING, None, None)"
proof -
  let ?w = "(demo_run_world True SURFACE_MAPPING)\<lparr>rw_db := rw_saved (demo_run_world True SURFACE_MAPPING)\<rparr>"
    and ?m = "\<lparr>current = SURFACE_MAPPING, paused_from = None, fail_reason = None\<rparr>"
  have "live checked_env 0 ?w" using demo_live [of True SURFACE_MAPPING] by (simp add: live_def checked_env_def)
  then obtain r w' where r: "surface_phase checked_env 7 ?m [long_surface] ?w = Some (r, w')"
    using live.moves_returns [OF live_run.moves_surface] by blast
  have fit: "worker_rows_fit (rw_saved ?w)" "rw_saved ?w = rw_db ?w" by (simp_all add: worker_rows_fit_def demo_run_world_def empty_database_def)
  have st: "scan_status 7 (rw_saved ?w) = Some (SURFACE_MAPPING, None, None)"
    using demo_rows(2) [of True SURFACE_MAPPING] by (simp add: scan_status_def demo_scan_def)
  have d: "long_surface \<in> set [long_surface]" "hd (sm_endpoints long_surface) \<in> set (sm_endpoints long_surface)"
    "1000 < length (de_path_template (hd (sm_endpoints long_surface)))" by (simp_all add: long_surface_def)
  from long_path_strands_scan [OF r checked_env_ok(1) fit d] r st show ?thesis by auto
qed

end
