(* ===== verification/Scan_Faults.thy ===== *)
theory Scan_Faults
  imports Scan_Properties Api_Http
begin

text \<open>
  How the scope rules that the API accepts reach a scan: a pattern is stored without being compiled
  (\<^verbatim>\<open>apps/api/sentinel_api_app/schemas/target.py\<close>), and compiled at every evaluation
  (\<^verbatim>\<open>packages/core/src/sentinel_core/scope_guard/guard.py\<close>).
\<close>

lemma evaluate_bad_pattern:
  assumes "target_ownership_verified g" and "urlsplit py url = Inr parts" and "covers g (hostname parts)"
    and "path_rules ''exclude'' g = rule # rs" and "rule_kind rule = ''path_regex''" and "re_compile py (rule_pattern rule) = None"
  shows "evaluate py g m url = Inl (Re_Error (rule_pattern rule))"
  using assms by (simp add: evaluate_def path_rule_matches_def Let_def)

lemma bad_pattern_no_scope:
  assumes "path_rules ''exclude'' g = rule # rs" and "rule_kind rule = ''path_regex''" and "re_compile py (rule_pattern rule) = None"
  shows "\<not> in_scope py g m url"
  using assms by (simp add: in_scope_def path_rule_matches_def)

lemma crawl_raises:
  assumes "evaluate (cr_py cr) (cr_scope_guard cr) ''GET'' url = Inl x" and "0 < cr_max_pages cr"
  shows "\<exists>st. crawl cr url p db page = Some (Inl x, st)"
proof -
  obtain st where "crawl_step cr (initial_state url p db page) = Some (Some x, st)"
    using assms(1) by (simp add: crawl_step_def initial_state_def)
  then have "crawl_loop cr (initial_state url p db page) = Some (Some x, st)"
    using assms(2) by (subst crawl_loop.simps) (simp add: initial_state_def)
  then show ?thesis by (simp add: crawl_def)
qed

lemma crawling_raises:
  assumes "evaluate (env_py (re_engine env)) (build_scope_guard t rows) ''GET'' (target_root_url t) = Inl x"
  shows "run_crawling env t rows conf ss w \<noteq> Some (Inr surfs, w')"
proof -
  have "run_crawl env (worker_crawler env t rows) (target_root_url t) p st w \<noteq> Some (Inr s, w1)" for p st s w1
  proof (cases "re_open_page env st (rw_page w)")
    case (Inr page)
    obtain c where "crawl (worker_crawler env t rows) (target_root_url t) p (w_db (rw_engine w)) page = Some (Inl x, c)"
      using crawl_raises [of "worker_crawler env t rows"] assms by (fastforce simp: worker_crawler_def)
    with Inr show ?thesis by (simp add: run_crawl_def)
  qed (simp add: run_crawl_def)
  then show ?thesis by (auto simp: run_crawling_def rbind_Inr)
qed

lemma crawl_phase_raises:
  assumes "evaluate (env_py (re_engine env)) (build_scope_guard t rows) ''GET'' (target_root_url t) = Inl x"
  shows "crawl_phase env i t rows conf m ss w \<noteq> Some (Inr r, w')"
  using crawling_raises [OF assms, of conf ss] by (auto simp: crawl_phase_def rbind_Inr)

lemma later_phases_fail:
  assumes "evaluate (env_py (re_engine env)) (build_scope_guard t rows) ''GET'' (target_root_url t) = Inl x"
    and "later_phases env i t org rows conf m w = Some (Inr (), w')" and "scan_status i (rw_db w) = Some (q, p, f)"
  shows "rw_saved w' = rw_db w' \<and> (\<exists>n. scan_status i (rw_db w') = Some (FAILED_AUTH, p, Some n))"
proof -
  obtain r w1 where a: "auth_phase env i t org rows conf m w = Some (Inr r, w1)"
    and rest: "(case r of None \<Rightarrow> rreturn () | Some (m, ss) \<Rightarrow>
      rbind (crawl_phase env i t rows conf m ss) (\<lambda>(m, surfs). surface_phase env i m surfs)) w1 = Some (Inr (), w')"
    using assms(2) by (auto simp: later_phases_def rbind_Inr)
  show ?thesis
  proof (cases r)
    case None
    with rest auth_phase_status [OF a assms(3)] show ?thesis by (simp add: rreturn_def)
  next
    case (Some ms)
    with rest crawl_phase_raises [OF assms(1)] show ?thesis by (cases ms) (auto simp: rbind_Inr)
  qed
qed


text \<open>The example's target with a rule whose pattern is an open bracket.\<close>

definition open_bracket :: scope_rule_row where
  "open_bracket = \<lparr>sr_id = 3, sr_target_id = 2, sr_rule = \<lparr>rule_kind = ''path_regex'', rule_pattern = ''['',
     rule_effect = ''exclude'', rule_label = []\<rparr>\<rparr>"

text \<open>The API accepts and stores it.\<close>

lemma open_bracket_accepted: "body_ok (Create_Scope_Rule i (sr_rule open_bracket))" "storable (Create_Scope_Rule i (sr_rule open_bracket))"
  by (simp_all add: open_bracket_def scope_rule_body_ok_def length_in_def text_fits_def no_zero_def)

definition bracket_world :: "(files, net_outcome list, unit, unit) run_world" where
  "bracket_world = (demo_run_world True QUEUED)\<lparr>rw_saved := (rw_saved (demo_run_world True QUEUED))\<lparr>db_scope_rules := [open_bracket]\<rparr>\<rparr>"


end
