(* ===== verification/Transcript_Load.thy ===== *)
theory Transcript_Load
  imports Transcript Json_Reader
begin

text \<open>
  Reading evidence back: \<^verbatim>\<open>TranscriptRecorder.load\<close> (\<^verbatim>\<open>transcript/recorder.py\<close>), and that it gives
  the document that was recorded.
\<close>

text \<open>
  \<^verbatim>\<open>json.loads\<close> of bytes: a text that starts with two bytes that are not zero and no byte order mark is
  read as UTF-8. What it makes of bytes in another encoding is the argument \<open>foreign\<close>.
\<close>

definition plain_utf8 :: "bytes \<Rightarrow> bool" where
  "plain_utf8 raw \<longleftrightarrow> (case raw of a # b # r \<Rightarrow> a \<notin> {0, 0xEF, 0xFE, 0xFF} \<and> b \<noteq> 0 | _ \<Rightarrow> False)"

definition json_loads_bytes :: "(bytes \<Rightarrow> json res) \<Rightarrow> bytes \<Rightarrow> json res" where
  "json_loads_bytes foreign raw =
     (case utf8_decode raw of
        Some t \<Rightarrow>
          if plain_utf8 raw then (case json_loads t of None \<Rightarrow> Inl (Value_Error ''JSONDecodeError'') | Some j \<Rightarrow> Inr j)
          else foreign raw
      | None \<Rightarrow> foreign raw)"

definition load_transcript ::
  "(bytes \<Rightarrow> json res) \<Rightarrow> (string \<Rightarrow> 's \<Rightarrow> bytes res) \<Rightarrow> string \<Rightarrow> 's \<Rightarrow> json res" where
  "load_transcript foreign get tid st = bind_res (get tid st) (json_loads_bytes foreign)"

section \<open>Printed documents are texts\<close>

fun json_scalar :: "json \<Rightarrow> bool" where
  "json_scalar (JStr t) \<longleftrightarrow> list_all scalar t"
| "json_scalar (JArr js) \<longleftrightarrow> list_all json_scalar js"
| "json_scalar (JObj kvs) \<longleftrightarrow> list_all (\<lambda>(k, v). list_all scalar k \<and> json_scalar v) kvs"
| "json_scalar j \<longleftrightarrow> True"

lemma scalar_join: "list_all scalar sep \<Longrightarrow> list_all (list_all scalar) ws \<Longrightarrow> list_all scalar (join sep ws)"
  by (induction sep ws rule: join.induct) simp_all

lemma scalar_escape: "scalar c \<Longrightarrow> list_all scalar (json_escape c)"
  using code_points_scalar by (simp add: json_escape_def hex4_def) (simp add: scalar_def)

lemma scalar_json_string: "list_all scalar t \<Longrightarrow> list_all scalar (json_string t)"
proof -
  have "list_all scalar (concat (map json_escape t))" if "list_all scalar t" for t
    using that by (induction t) (simp_all add: scalar_escape)
  then show "list_all scalar t \<Longrightarrow> list_all scalar (json_string t)" by (simp add: json_string_def scalar_def)
qed

lemma scalar_print: "json_scalar j \<Longrightarrow> list_all scalar (print_json j)"
proof (induction j rule: print_json.induct)
  case (5 js)
  then have "list_all (list_all scalar) (map print_json js)" by (auto simp: list_all_iff)
  then show ?case by (simp add: code_points_scalar scalar_join)
next
  case (6 kvs)
  have "list_all scalar (json_string k @ code_points '': '' @ print_json v)" if kv: "(k, v) \<in> set kvs" for k v
  proof -
    from "6.prems" kv have "list_all scalar k \<and> json_scalar v" unfolding json_scalar.simps list_all_iff by blast
    with "6.IH" [OF kv refl] show ?thesis by (simp add: scalar_json_string code_points_scalar)
  qed
  then have "list_all (list_all scalar) (map (\<lambda>(k, v). json_string k @ code_points '': '' @ print_json v) kvs)"
    unfolding list_all_iff [of "list_all scalar"] by auto
  then show ?case by (simp add: code_points_scalar scalar_join)
qed (simp_all add: code_points_scalar scalar_json_string)

lemma json_scalar_sort: "json_scalar j \<Longrightarrow> json_scalar (sort_keys j)"
  by (induction j rule: sort_keys.induct) (fastforce simp: list_all_iff)+

text \<open>The documents of the recorder.\<close>

definition transcript_ok :: "py_lib \<Rightarrow> transcript \<Rightarrow> bool" where
  "transcript_ok py tr \<longleftrightarrow> dict_ok (req_headers (tr_request tr)) \<and>
     (case tr_response tr of None \<Rightarrow> True
      | Some r \<Rightarrow> dict_ok (resp_headers r) \<and> number_text (float_repr py (resp_elapsed_ms r)))"

lemma headers_json_ok: "dict_ok hs \<Longrightarrow> json_wf (headers_json hs)" "json_scalar (headers_json hs)"
proof -
  have "map fst (map (\<lambda>(k, v). (code_points k, str_json v)) hs) = map code_points (map fst hs)" for hs
    by (simp add: case_prod_beta comp_def)
  then show "dict_ok hs \<Longrightarrow> json_wf (headers_json hs)"
    using code_points_inj by (auto simp: headers_json_def dict_ok_def distinct_map list_all_iff str_json_def inj_on_def)
  show "json_scalar (headers_json hs)" by (auto simp: headers_json_def list_all_iff str_json_def code_points_scalar [unfolded list_all_iff])
qed


lemma body_json_ok: "json_wf (body_json b)" "json_scalar (body_json b)"
  by (auto simp: body_json_def code_points_scalar dest: utf8_decode_SomeD split: option.splits)

lemma opt_json_ok: "json_wf (opt_json x)" "json_scalar (opt_json x)"
  by (simp_all add: opt_json_def str_json_def code_points_scalar split: option.splits)

lemma str_json_ok: "json_wf (str_json x)" "json_scalar (str_json x)"
  by (simp_all add: str_json_def code_points_scalar)

lemma transcript_doc_ok:
  assumes "transcript_ok py tr"
  shows "json_wf (transcript_doc py tr)" and "json_scalar (transcript_doc py tr)"
proof -
  show "json_wf (transcript_doc py tr)"
    using assms by (cases "tr_response tr")
      (simp_all add: transcript_doc_def transcript_ok_def str_json_ok opt_json_ok body_json_ok headers_json_ok number_text_nat)
  show "json_scalar (transcript_doc py tr)"
    by (cases "tr_response tr")
      (simp_all add: transcript_doc_def str_json_ok opt_json_ok body_json_ok headers_json_ok code_points_scalar)
qed

lemma obj_print_start: "kvs \<noteq> [] \<Longrightarrow> \<exists>r. print_json (JObj kvs) = 0x7B # 0x22 # r"
  by (cases kvs; cases "tl kvs") (auto simp: code_points_def json_string_def)

text \<open>The bytes of a document are read back to it.\<close>

lemma loads_serialise:
  assumes "transcript_ok py tr"
  shows "json_loads_bytes foreign (serialise py tr) = Inr (sort_keys (transcript_doc py tr))"
proof -
  let ?j = "transcript_doc py tr"
  note ok = transcript_doc_ok [OF assms]
  have dec: "utf8_decode (serialise py tr) = Some (json_dumps ?j)"
    unfolding serialise_def json_dumps_def by (intro utf8_decode_encode scalar_print json_scalar_sort ok(2))
  obtain kvs where kvs: "sort_keys ?j = JObj kvs" "kvs \<noteq> []"
    by (auto simp: transcript_doc_def)
  from obj_print_start [OF kvs(2)] obtain r where "json_dumps ?j = 0x7B # 0x22 # r" unfolding json_dumps_def kvs by blast
  then have "plain_utf8 (serialise py tr)" by (simp add: serialise_def utf8_encode_def encode_cp_def plain_utf8_def)
  then show ?thesis by (simp add: json_loads_bytes_def dec loads_dumps [OF ok(1)])
qed

lemma scrubbed_ok:
  assumes "dict_ok (req_headers req)" and "\<And>r. resp = Some r \<Longrightarrow> dict_ok (resp_headers r) \<and> number_text (float_repr py (resp_elapsed_ms r))"
  shows "transcript_ok py (scrubbed py known sid pid req resp err now)"
proof -
  have "map fst (scrub_headers hs) = map fst hs" for hs by (simp add: scrub_headers_def case_prod_beta comp_def)
  then show ?thesis using assms by (cases resp) (simp_all add: transcript_ok_def scrubbed_def dict_ok_def)
qed

section \<open>Property\<close>

text \<open>
  C30. Evidence is read back as it was recorded: whatever transcripts either store already holds and gets
  afterwards, \<^verbatim>\<open>load\<close> of the id that \<^verbatim>\<open>record\<close> returned gives the document of the scrubbed request
  and response, with its keys in order; neither control characters, quotation marks and non-ASCII text in bodies and
  headers nor binary bodies break the format. (The hash has no collision among the contents in play.)
\<close>

theorem recorded_transcript_loads:
  assumes "dict_ok (req_headers req)" and "\<And>r. resp = Some r \<Longrightarrow> dict_ok (resp_headers r) \<and> number_text (float_repr py (resp_elapsed_ms r))"
    and "tr = scrubbed py known sid pid req resp err now"
    and "record_transcript (local_put sha) py known sid pid req resp err now fs = (tid, fs')"
    and "record_transcript (s3_put sha pfx) py known sid pid req resp err now objs = (tid', objs')"
    and "inj_on sha U" and "serialise py tr \<in> U" and "set later \<subseteq> U"
    and "addressed_by sha path_for U fs" and "addressed_by sha (s3_key_for pfx) U objs"
  shows "load_transcript foreign local_get tid (fold (\<lambda>c s. snd (local_put sha c s)) later fs') = Inr (sort_keys (transcript_doc py tr)) \<and>
         load_transcript foreign (s3_get pfx) tid' (fold (\<lambda>c s. snd (s3_put sha pfx c s)) later objs') = Inr (sort_keys (transcript_doc py tr))"
proof -
  let ?c = "serialise py tr"
  have ids: "tid = sha ?c" "tid' = sha ?c" and st: "fs' = snd (local_put sha ?c fs)" "objs' = snd (s3_put sha pfx ?c objs)"
    using assms(4,5) by (auto simp: record_transcript_def assms(3) local_put_def s3_put_def Let_def)
  have sub: "set (?c # later) \<subseteq> U" and mem: "?c \<in> set (?c # later)" using assms(7,8) by simp_all
  have "local_get tid (fold (\<lambda>c s. snd (local_put sha c s)) later fs') = Inr ?c"
    using local_store.evidence_kept [OF assms(9) sub assms(6) mem] by (simp add: ids st)
  moreover have "s3_get pfx tid' (fold (\<lambda>c s. snd (s3_put sha pfx c s)) later objs') = Inr ?c"
    using s3_store.evidence_kept [OF assms(10) sub assms(6) mem] by (simp add: ids st)
  moreover have "transcript_ok py tr" unfolding assms(3) by (rule scrubbed_ok) (use assms(1,2) in auto)
  ultimately show ?thesis by (simp add: load_transcript_def loads_serialise)
qed


theorem recorded_transcript_loads_witness:
  "\<exists>req. req_body req = Some [0x22, 0xFF] \<and> req_headers req = [(''Cookie'', ''a=1'')] \<and>
     load_transcript (\<lambda>_. Inl Unicode_Error) local_get ''id''
       (snd (record_transcript (local_put (\<lambda>_. ''id'')) no_lib [] ''s1'' None req None (Some ''timeout'') ''now'' (\<lambda>_. None))) =
     Inr (sort_keys (transcript_doc no_lib (scrubbed no_lib [] ''s1'' None req None (Some ''timeout'') ''now'')))"
proof -
  let ?req = "\<lparr>req_method = ''GET'', req_url = ''https://shop.io/'', req_headers = [(''Cookie'', ''a=1'')], req_body = Some [0x22, 0xFF]\<rparr>"
  let ?tr = "scrubbed no_lib [] ''s1'' None ?req None (Some ''timeout'') ''now''"
  let ?sha = "\<lambda>c :: bytes. ''id''"
  let ?fs = "(\<lambda>_. None) :: files"
  have put: "record_transcript (local_put ?sha) no_lib [] ''s1'' None ?req None (Some ''timeout'') ''now'' ?fs = (''id'', ?fs(path_for ''id'' \<mapsto> serialise no_lib ?tr))"
    by (simp add: record_transcript_def local_put_def Let_def)
  have s3: "record_transcript (s3_put ?sha ''t'') no_lib [] ''s1'' None ?req None (Some ''timeout'') ''now'' ?fs = (''id'', ?fs(s3_key_for ''t'' ''id'' \<mapsto> serialise no_lib ?tr))"
    by (simp add: record_transcript_def s3_put_def Let_def)
  have emp: "addressed_by ?sha p U (\<lambda>_. None)" for p U by (simp add: addressed_by_def)
  have "dict_ok (req_headers ?req)" by (simp add: dict_ok_def)
  from recorded_transcript_loads [OF this _ refl put s3, of "{serialise no_lib ?tr}" "[]" "\<lambda>_. Inl Unicode_Error", OF _ _ _ _ emp emp]
  have "load_transcript (\<lambda>_. Inl Unicode_Error) local_get ''id'' (?fs(path_for ''id'' \<mapsto> serialise no_lib ?tr)) = Inr (sort_keys (transcript_doc no_lib ?tr))"
    by simp
  then show ?thesis by (intro exI [of _ ?req]) (simp add: put)
qed

end
