(* ===== verification/Ai_Client.thy ===== *)
theory Ai_Client
  imports Complex_Main Json
begin

text \<open>
  The language-model client: \<^verbatim>\<open>packages/ai/src/sentinel_ai/\<close> with \<^verbatim>\<open>models.py\<close>, \<^verbatim>\<open>routing.py\<close>,
  \<^verbatim>\<open>budget.py\<close>, \<^verbatim>\<open>client.py\<close> and \<^verbatim>\<open>factory.py\<close>. The provider's API is a parameter, a function from
  a request and the provider's state to a response or an exception; the requests given to it are kept
  in a ghost log. The fraction of the budget is a rational where the code divides floats: below
  \<open>2 ^ 50\<close> tokens the comparison with the threshold is the same. The dash in an exception's text is written
  as a hyphen.
\<close>

section \<open>Tiers and usage\<close>

datatype model_tier = TIER_HIGH | TIER_MID | TIER_LOW

record token_usage =
  tu_input_tokens :: int
  tu_output_tokens :: int

definition usage_total :: "token_usage \<Rightarrow> int" where
  "usage_total u = tu_input_tokens u + tu_output_tokens u"

record structured_call_result =
  scr_data :: "(ptext \<times> json) list"
  scr_usage :: token_usage
  scr_model_used :: string
  scr_requested_tier :: model_tier
  scr_effective_tier :: model_tier

definition scr_degraded :: "structured_call_result \<Rightarrow> bool" where
  "scr_degraded r \<longleftrightarrow> scr_effective_tier r \<noteq> scr_requested_tier r"

fun DEFAULT_MODEL_IDS :: "model_tier \<Rightarrow> string" where
  "DEFAULT_MODEL_IDS TIER_HIGH = ''claude-opus-5''"
| "DEFAULT_MODEL_IDS TIER_MID = ''claude-sonnet-5''"
| "DEFAULT_MODEL_IDS TIER_LOW = ''claude-haiku-4-5-20251001''"

fun DEGRADE_TIER :: "model_tier \<Rightarrow> model_tier" where
  "DEGRADE_TIER TIER_HIGH = TIER_MID"
| "DEGRADE_TIER TIER_MID = TIER_LOW"
| "DEGRADE_TIER TIER_LOW = TIER_LOW"

section \<open>The budget\<close>

record token_budget =
  tb_limit :: int
  tb_used :: int

definition DEGRADE_THRESHOLD :: rat where
  "DEGRADE_THRESHOLD = 4 / 5"

definition remaining :: "token_budget \<Rightarrow> int" where
  "remaining b = max 0 (tb_limit b - tb_used b)"

definition fraction_used :: "token_budget \<Rightarrow> rat" where
  "fraction_used b = (if tb_limit b \<le> 0 then 1 else min 1 (of_int (tb_used b) / of_int (tb_limit b)))"

definition is_exhausted :: "token_budget \<Rightarrow> bool" where
  "is_exhausted b \<longleftrightarrow> tb_limit b \<le> tb_used b"

definition is_under_pressure :: "token_budget \<Rightarrow> bool" where
  "is_under_pressure b \<longleftrightarrow> DEGRADE_THRESHOLD \<le> fraction_used b"

definition record_usage :: "token_usage \<Rightarrow> token_budget \<Rightarrow> token_budget" where
  "record_usage u b = b\<lparr>tb_used := tb_used b + usage_total u\<rparr>"

section \<open>The client\<close>

definition RESULT_TOOL_NAME :: string where
  "RESULT_TOOL_NAME = ''emit_result''"

text \<open>A request offers one tool, with the caller's schema, and forces its use.\<close>

record llm_request =
  lq_model :: string
  lq_max_tokens :: int
  lq_system :: ptext
  lq_prompt :: ptext
  lq_tool :: string
  lq_schema :: json
  lq_tool_choice :: string

datatype llm_block = Tool_Use string "(ptext \<times> json) list" | Other_Block

record llm_response =
  lp_content :: "llm_block list"
  lp_usage :: token_usage

datatype llm_error = Budget_Exhausted token_budget | Llm_Exn exn

record 'n llm_state =
  ll_budget :: token_budget
  ll_api :: 'n
  ll_sent :: "llm_request list"

type_synonym 'n messages_api = "llm_request \<Rightarrow> 'n \<Rightarrow> llm_response res \<times> 'n"

definition no_tool_text :: string where
  "no_tool_text = ''Model response contained no '' @ [CHR 0x27] @ RESULT_TOOL_NAME @ [CHR 0x27] @
     '' tool_use block - forced tool_choice should make this impossible; treat as a provider-side error, not a '' @
     ''parseable-prose fallback (ADR-0001).''"

fun extract_tool_input :: "llm_block list \<Rightarrow> string \<Rightarrow> (ptext \<times> json) list res" where
  "extract_tool_input [] tool = Inl (Value_Error no_tool_text)"
| "extract_tool_input (Tool_Use n d # bs) tool = (if n = tool then Inr d else extract_tool_input bs tool)"
| "extract_tool_input (Other_Block # bs) tool = extract_tool_input bs tool"

record llm_call =
  lc_tier :: model_tier
  lc_system :: ptext
  lc_prompt :: ptext
  lc_schema :: json
  lc_max_tokens :: int

definition effective_tier :: "token_budget \<Rightarrow> model_tier \<Rightarrow> model_tier" where
  "effective_tier b tier = (if is_under_pressure b then DEGRADE_TIER tier else tier)"

definition complete_structured ::
  "'n messages_api \<Rightarrow> (model_tier \<Rightarrow> string) \<Rightarrow> llm_call \<Rightarrow> 'n llm_state \<Rightarrow>
     (llm_error + structured_call_result) \<times> 'n llm_state" where
  "complete_structured api model_ids call st =
     (if is_exhausted (ll_budget st) then (Inl (Budget_Exhausted (ll_budget st)), st)
      else
        let eff = effective_tier (ll_budget st) (lc_tier call);
            rq = \<lparr>lq_model = model_ids eff, lq_max_tokens = lc_max_tokens call, lq_system = lc_system call,
                  lq_prompt = lc_prompt call, lq_tool = RESULT_TOOL_NAME, lq_schema = lc_schema call,
                  lq_tool_choice = RESULT_TOOL_NAME\<rparr>;
            (answer, n) = api rq (ll_api st);
            st = st\<lparr>ll_api := n, ll_sent := rq # ll_sent st\<rparr>
        in case answer of
             Inl x \<Rightarrow> (Inl (Llm_Exn x), st)
           | Inr resp \<Rightarrow>
               let st = st\<lparr>ll_budget := record_usage (lp_usage resp) (ll_budget st)\<rparr>
               in case extract_tool_input (lp_content resp) RESULT_TOOL_NAME of
                    Inl x \<Rightarrow> (Inl (Llm_Exn x), st)
                  | Inr d \<Rightarrow>
                      (Inr \<lparr>scr_data = d, scr_usage = lp_usage resp, scr_model_used = model_ids eff,
                            scr_requested_tier = lc_tier call, scr_effective_tier = eff\<rparr>, st))"

definition api_key_missing_text :: string where
  "api_key_missing_text = ''ANTHROPIC_API_KEY is not configured. AI-assisted phases cannot run without it - '' @
     ''the scan should mark them skipped/degraded rather than fail outright (docs/01 '' @ [CHR 0xA7] @ ''3.4).''"

text \<open>The budget of a new client; an empty key counts as none.\<close>

definition make_llm_client :: "string option \<Rightarrow> string option \<Rightarrow> int \<Rightarrow> token_budget res" where
  "make_llm_client api_key env_key limit =
     (if (case api_key of None \<Rightarrow> True | Some k \<Rightarrow> k = []) \<and> (case env_key of None \<Rightarrow> True | Some k \<Rightarrow> k = [])
      then Inl (Runtime_Error api_key_missing_text)
      else Inr \<lparr>tb_limit = limit, tb_used = 0\<rparr>)"

text \<open>Calls in sequence, whatever each returns or raises.\<close>

definition run_calls :: "'n messages_api \<Rightarrow> (model_tier \<Rightarrow> string) \<Rightarrow> llm_call list \<Rightarrow> 'n llm_state \<Rightarrow> 'n llm_state" where
  "run_calls api model_ids calls st = fold (\<lambda>c st. snd (complete_structured api model_ids c st)) calls st"

text \<open>What one response costs is at most \<open>M\<close> tokens.\<close>

definition charges_at_most :: "int \<Rightarrow> 'n messages_api \<Rightarrow> bool" where
  "charges_at_most M api \<longleftrightarrow> (\<forall>rq n resp n'. api rq n = (Inr resp, n') \<longrightarrow> usage_total (lp_usage resp) \<le> M)"

section \<open>Facts\<close>

lemma complete_structured_state:
  fixes api :: "'n messages_api" and ids c st
  assumes "charges_at_most M api"
  defines "st' \<equiv> snd (complete_structured api ids c st)"
  shows "tb_limit (ll_budget st') = tb_limit (ll_budget st)"
    and "tb_used (ll_budget st') \<le> max (tb_used (ll_budget st)) (tb_limit (ll_budget st) - 1 + M)"
    and "is_exhausted (ll_budget st) \<Longrightarrow> st' = st"
proof -
  show "is_exhausted (ll_budget st) \<Longrightarrow> st' = st" by (simp add: st'_def complete_structured_def)
  let ?eff = "effective_tier (ll_budget st) (lc_tier c)"
  let ?rq = "\<lparr>lq_model = ids ?eff, lq_max_tokens = lc_max_tokens c, lq_system = lc_system c, lq_prompt = lc_prompt c,
      lq_tool = RESULT_TOOL_NAME, lq_schema = lc_schema c, lq_tool_choice = RESULT_TOOL_NAME\<rparr>"
  obtain answer n where a: "api ?rq (ll_api st) = (answer, n)" by fastforce
  have "\<not> is_exhausted (ll_budget st) \<Longrightarrow>
      ll_budget st' = (case answer of Inl _ \<Rightarrow> ll_budget st | Inr resp \<Rightarrow> record_usage (lp_usage resp) (ll_budget st))"
    using a by (simp add: st'_def complete_structured_def Let_def split: sum.split)
  moreover have "answer = Inr resp \<Longrightarrow> usage_total (lp_usage resp) \<le> M" for resp
    using assms(1) a unfolding charges_at_most_def by blast
  moreover have "is_exhausted (ll_budget st) \<Longrightarrow> ll_budget st' = ll_budget st"
    by (simp add: st'_def complete_structured_def)
  ultimately have "tb_limit (ll_budget st') = tb_limit (ll_budget st) \<and>
      tb_used (ll_budget st') \<le> max (tb_used (ll_budget st)) (tb_limit (ll_budget st) - 1 + M)"
    by (cases "is_exhausted (ll_budget st)"; cases answer) (simp_all add: record_usage_def is_exhausted_def)
  then show "tb_limit (ll_budget st') = tb_limit (ll_budget st)"
    "tb_used (ll_budget st') \<le> max (tb_used (ll_budget st)) (tb_limit (ll_budget st) - 1 + M)" by blast+
qed

lemma run_calls_exhausted: "is_exhausted (ll_budget st) \<Longrightarrow> run_calls api ids calls st = st"
  unfolding run_calls_def by (induction calls) (simp_all add: complete_structured_def)

lemma run_calls_bound:
  fixes st :: "'n llm_state"
  assumes "charges_at_most M api"
  shows "tb_limit (ll_budget (run_calls api ids calls st)) = tb_limit (ll_budget st) \<and>
     tb_used (ll_budget (run_calls api ids calls st)) \<le> max (tb_used (ll_budget st)) (tb_limit (ll_budget st) - 1 + M)"
  unfolding run_calls_def
proof (induction calls arbitrary: st)
  case (Cons c calls)
  from Cons.IH [of "snd (complete_structured api ids c st)"] complete_structured_state(1,2) [OF assms, of ids c st]
  show ?case by (simp add: le_max_iff_disj) linarith
qed simp

section \<open>Properties\<close>


text \<open>A provider that answers every request with the tool, for 600 tokens.\<close>

definition demo_provider :: "unit messages_api" where
  "demo_provider rq n = (Inr \<lparr>lp_content = [Tool_Use RESULT_TOOL_NAME []], lp_usage = \<lparr>tu_input_tokens = 500, tu_output_tokens = 100\<rparr>\<rparr>, n)"

definition demo_call :: llm_call where
  "demo_call = \<lparr>lc_tier = TIER_HIGH, lc_system = [], lc_prompt = [], lc_schema = JNull, lc_max_tokens = 1024\<rparr>"


text \<open>
  A result says so if it came from a cheaper model than was asked for: it is degraded exactly if four
  fifths of the budget were spent before the call and a cheaper tier exists.
\<close>

lemma degraded_iff_under_pressure:
  assumes "complete_structured api ids c st = (Inr r, st')"
  shows "scr_degraded r \<longleftrightarrow> is_under_pressure (ll_budget st) \<and> lc_tier c \<noteq> TIER_LOW"
  using assms
  by (cases "lc_tier c")
    (auto simp: complete_structured_def effective_tier_def scr_degraded_def Let_def split: if_splits sum.splits prod.splits)

end
