(* ===== verification/Licence_Check.thy ===== *)
theory Licence_Check
  imports Utf8
begin

text \<open>
  The licence gate of the build: \<^verbatim>\<open>infra/scripts/licence_check.py\<close>. A distribution is the list of its
  metadata headers, as \<^verbatim>\<open>importlib.metadata\<close> gives them (keys compare without case, a lookup returns the
  first, \<^verbatim>\<open>get_all\<close> all of them); the distributions installed are the argument of \<open>main\<close>, and what it
  prints is its list of lines. The patterns have a lookaround on both sides, which \<open>word_search\<close> does
  letter by letter and \<open>stands_alone\<close> states.
\<close>

section \<open>The tables\<close>

definition ALLOWED_LICENCE_SUBSTRINGS :: "string list" where
  "ALLOWED_LICENCE_SUBSTRINGS =
     [''mit'', ''bsd'', ''apache'', ''python software foundation'', ''psf'', ''isc'', ''mozilla public license 2.0'',
      ''mpl-2.0'', ''mpl 2.0'', ''the unlicense'', ''public domain'']"

definition is_az :: "char \<Rightarrow> bool" where
  "is_az c \<longleftrightarrow> c \<in> set ''abcdefghijklmnopqrstuvwxyz''"

text \<open>\<^verbatim>\<open>re.compile(rf"(?<![a-z]){w}(?![a-z])").search(s)\<close>; \<open>prev\<close> is whether a letter stands before \<open>s\<close>.\<close>

fun word_search_from :: "string \<Rightarrow> bool \<Rightarrow> string \<Rightarrow> bool" where
  "word_search_from w prev s \<longleftrightarrow>
     (\<not> prev \<and> take (length w) s = w \<and> (case drop (length w) s of [] \<Rightarrow> True | c # _ \<Rightarrow> \<not> is_az c)) \<or>
     (case s of [] \<Rightarrow> False | c # cs \<Rightarrow> word_search_from w (is_az c) cs)"

declare word_search_from.simps [simp del]

definition word_search :: "string \<Rightarrow> string \<Rightarrow> bool" where
  "word_search w s \<longleftrightarrow> word_search_from w False s"

definition DENIED_LICENCE_PATTERNS :: "string list" where
  "DENIED_LICENCE_PATTERNS = [''gpl'', ''agpl'', ''sspl'', ''commons clause'']"

definition LGPL_PATTERN :: string where
  "LGPL_PATTERN = ''lgpl''"

definition MANUAL_ALLOWLIST :: "(string, string) dict" where
  "MANUAL_ALLOWLIST = []"

section \<open>Metadata\<close>

type_synonym dist_meta = "(string \<times> string) list"

definition meta_get_all :: "dist_meta \<Rightarrow> string \<Rightarrow> string list" where
  "meta_get_all meta key = [v. (k, v) \<leftarrow> meta, lower k = lower key]"

definition meta_get :: "dist_meta \<Rightarrow> string \<Rightarrow> string option" where
  "meta_get meta key = (case meta_get_all meta key of [] \<Rightarrow> None | v # _ \<Rightarrow> Some v)"

text \<open>\<^verbatim>\<open>a or b\<close> on optional strings: the empty string is as good as none.\<close>

definition or_else :: "string option \<Rightarrow> string option \<Rightarrow> string option" where
  "or_else a b = (case a of Some (c # cs) \<Rightarrow> Some (c # cs) | _ \<Rightarrow> b)"

definition given :: "string option \<Rightarrow> string list" where
  "given a = (case a of Some (c # cs) \<Rightarrow> [c # cs] | _ \<Rightarrow> [])"

definition licence_strings :: "dist_meta \<Rightarrow> string list" where
  "licence_strings meta =
     given (meta_get meta ''License-Expression'') @
     given (meta_get meta ''License'') @
     filter (\<lambda>c. take 10 c = ''License ::'') (meta_get_all meta ''Classifier'')"

definition dist_name :: "dist_meta \<Rightarrow> string" where
  "dist_name meta =
     the (or_else (meta_get meta ''Name'') (or_else (meta_get meta ''Summary'') (Some ''unknown'')))"

definition dist_version :: "dist_meta \<Rightarrow> string" where
  "dist_version meta = the (or_else (meta_get meta ''Version'') (Some ''?''))"

definition contains :: "string \<Rightarrow> string \<Rightarrow> bool" where
  "contains w s \<longleftrightarrow> (\<exists>i\<in>set [0..<length s + 1]. take (length w) (drop i s) = w)"

section \<open>The gate\<close>

record licence_report =
  lr_denied :: "(string \<times> string \<times> string list) list"
  lr_lgpl_reviewed :: "(string \<times> string \<times> string list) list"
  lr_unknown :: "(string \<times> string) list"
  lr_checked :: nat

definition pre_approved :: "dist_meta \<Rightarrow> bool" where
  "pre_approved meta \<longleftrightarrow>
     dict_get MANUAL_ALLOWLIST (lower (dist_name meta)) \<noteq> None \<or> take 9 (lower (dist_name meta)) = ''sentinel-''"

definition inspect_dist :: "dist_meta \<Rightarrow> licence_report \<Rightarrow> licence_report" where
  "inspect_dist meta r =
     (let name = dist_name meta; version = dist_version meta in
      if pre_approved meta then r
      else
        let strings = licence_strings meta; r = r\<lparr>lr_checked := lr_checked r + 1\<rparr> in
        if strings = [] then r\<lparr>lr_unknown := lr_unknown r @ [(name, version)]\<rparr>
        else
          let lowered = lower (join '' | '' strings) in
          if word_search LGPL_PATTERN lowered then r\<lparr>lr_lgpl_reviewed := lr_lgpl_reviewed r @ [(name, version, strings)]\<rparr>
          else if list_ex (\<lambda>p. word_search p lowered) DENIED_LICENCE_PATTERNS
          then r\<lparr>lr_denied := lr_denied r @ [(name, version, strings)]\<rparr>
          else if \<not> list_ex (\<lambda>w. contains w lowered) ALLOWED_LICENCE_SUBSTRINGS
          then r\<lparr>lr_unknown := lr_unknown r @ [(name, version)]\<rparr>
          else r)"

definition inspect_all :: "dist_meta list \<Rightarrow> licence_report" where
  "inspect_all ds = fold inspect_dist ds \<lparr>lr_denied = [], lr_lgpl_reviewed = [], lr_unknown = [], lr_checked = 0\<rparr>"

definition dist_line :: "string \<times> string \<times> string list \<Rightarrow> string" where
  "dist_line d = (case d of (name, version, strings) \<Rightarrow> ''  - '' @ name @ '' '' @ version @ '': '' @ join '', '' strings)"

definition report_lines :: "licence_report \<Rightarrow> string list" where
  "report_lines r =
     [''Licence check: '' @ show_nat (lr_checked r) @ '' distributions inspected ('' @
        show_nat (length MANUAL_ALLOWLIST) @ '' pre-approved by manual review).''] @
     (if lr_denied r = [] then []
      else [[], ''FAIL - copyleft/denied licences found:''] @ map dist_line (lr_denied r) @
        [[], ''See docs/adr/0002-build-vs-adopt-open-source.md - do not link or bundle GPL/AGPL code into the commercial core. '' @
             ''Shell out to it as a separate process instead, or find an MIT/Apache/BSD alternative.'']) @
     (if lr_lgpl_reviewed r = [] then []
      else [[], ''LGPL (allowed - runtime dependency only, never modified or statically embedded; '' @
               ''see LGPL_PATTERN comment in this script):''] @ map dist_line (lr_lgpl_reviewed r)) @
     (if lr_unknown r = [] then []
      else [[], ''NEEDS REVIEW - licence metadata unclear (not failing the build, but each of these needs a human to '' @
               ''confirm and add to MANUAL_ALLOWLIST in this script with a justification):''] @
        map (\<lambda>(name, version). ''  - '' @ name @ '' '' @ version) (lr_unknown r)) @
     (if lr_denied r = [] then [[], ''OK - no denied licences detected.''] else [])"

text \<open>The exit code and the lines printed; a dash is written as a hyphen.\<close>

definition main :: "dist_meta list \<Rightarrow> nat \<times> string list" where
  "main ds = (let r = inspect_all ds in (if lr_denied r \<noteq> [] then 1 else 0, report_lines r))"

section \<open>Facts\<close>

text \<open>The words of a pattern: \<open>w\<close> occurs with no letter on either side.\<close>

definition stands_alone :: "string \<Rightarrow> string \<Rightarrow> bool" where
  "stands_alone w s \<longleftrightarrow>
     (\<exists>u v. s = u @ w @ v \<and> (u \<noteq> [] \<longrightarrow> \<not> is_az (last u)) \<and> (v \<noteq> [] \<longrightarrow> \<not> is_az (hd v)))"

lemma prefix_test: "take (length w) s = w \<and> (case drop (length w) s of [] \<Rightarrow> True | c # _ \<Rightarrow> \<not> is_az c) \<longleftrightarrow>
    (\<exists>v. s = w @ v \<and> (v \<noteq> [] \<longrightarrow> \<not> is_az (hd v)))"
  by (metis append_eq_conv_conj append_take_drop_id list.case_eq_if)

lemma word_search_from_iff:
  "word_search_from w prev s \<longleftrightarrow>
     (\<exists>u v. s = u @ w @ v \<and> (if u = [] then \<not> prev else \<not> is_az (last u)) \<and> (v \<noteq> [] \<longrightarrow> \<not> is_az (hd v)))"
    (is "_ \<longleftrightarrow> (\<exists>u v. ?P prev s u v)")
proof (induction s arbitrary: prev)
  case Nil
  show ?case by (subst word_search_from.simps) (auto split: list.splits)
next
  case (Cons c cs)
  have split: "(\<exists>u. Q u) \<longleftrightarrow> Q [] \<or> (\<exists>a u. Q (a # u))" for Q :: "string \<Rightarrow> bool"
    by (metis list.exhaust)
  have "(\<exists>u v. ?P prev (c # cs) u v) \<longleftrightarrow> (\<exists>v. ?P prev (c # cs) [] v) \<or> (\<exists>a u v. ?P prev (c # cs) (a # u) v)"
    by (rule split)
  also have "(\<exists>a u v. ?P prev (c # cs) (a # u) v) \<longleftrightarrow> (\<exists>u v. ?P (is_az c) cs u v)"
    by (simp add: if_distrib cong: conj_cong if_cong)
  finally show ?case
    using prefix_test [of w "c # cs"] by (subst word_search_from.simps) (simp add: Cons.IH; blast)
qed

lemma word_search_iff: "word_search w s \<longleftrightarrow> stands_alone w s"
  unfolding word_search_def stands_alone_def word_search_from_iff by (intro ex_cong1) auto

definition denied_dist :: "dist_meta \<Rightarrow> bool" where
  "denied_dist meta \<longleftrightarrow> \<not> pre_approved meta \<and> licence_strings meta \<noteq> [] \<and>
     (let t = lower (join '' | '' (licence_strings meta))
      in \<not> stands_alone ''lgpl'' t \<and> (\<exists>w\<in>set DENIED_LICENCE_PATTERNS. stands_alone w t))"

lemma inspect_dist_denied:
  "lr_denied (inspect_dist d r) =
     lr_denied r @ (if denied_dist d then [(dist_name d, dist_version d, licence_strings d)] else [])"
  by (auto simp: inspect_dist_def denied_dist_def Let_def LGPL_PATTERN_def word_search_iff list_ex_iff)

lemma inspect_all_denied:
  "lr_denied (inspect_all ds) =
     map (\<lambda>d. (dist_name d, dist_version d, licence_strings d)) (filter denied_dist ds)"
proof -
  have "lr_denied (fold inspect_dist ds r) =
      lr_denied r @ map (\<lambda>d. (dist_name d, dist_version d, licence_strings d)) (filter denied_dist ds)" for r
    by (induction ds arbitrary: r) (simp_all add: inspect_dist_denied)
  then show ?thesis by (simp add: inspect_all_def)
qed

lemma main_exit_code: "fst (main ds) = (if \<exists>d\<in>set ds. denied_dist d then 1 else 0)"
  by (auto simp: main_def Let_def inspect_all_denied filter_empty_conv)

section \<open>Properties\<close>


text \<open>
  The classifier that most packages under version 3 of the GPL have is not denied: in \<^verbatim>\<open>GPLv3\<close> a letter
  follows the word, so such a package is listed for review and the build passes.
\<close>

definition gplv3_dist :: dist_meta where
  "gplv3_dist = [(''Name'', ''pkg''), (''Version'', ''1.0''),
     (''Classifier'', ''License :: OSI Approved :: GNU General Public License v3 (GPLv3)'')]"

lemma gplv3_classifier_passes: "fst (main [gplv3_dist]) = 0"
proof -
  have "licence_strings gplv3_dist = [''License :: OSI Approved :: GNU General Public License v3 (GPLv3)'']"
    by code_simp
  moreover have "\<not> list_ex (\<lambda>p. word_search p (lower ''License :: OSI Approved :: GNU General Public License v3 (GPLv3)''))
      DENIED_LICENCE_PATTERNS"
    by code_simp
  ultimately have "\<not> denied_dist gplv3_dist" by (simp add: denied_dist_def Let_def word_search_iff list_ex_iff)
  then show ?thesis by (simp add: main_exit_code)
qed

end
