(* ===== verification/Spec2Isabelle.thy ===== *)
theory Spec2Isabelle
  imports Scan_Columns Scan_Faults Db_Session Transcript_Load Ai_Client Licence_Check
begin

text \<open>
  A verification library for the Sentinel scanner, a service that scans web applications for their owners.
  A customer registers a target through the API (\<^verbatim>\<open>apps/api\<close>), proves that it owns the domain, accepts the
  authorization and starts a scan; a worker (\<^verbatim>\<open>apps/worker\<close>) takes the scan through its phases:
  reconnaissance (\<^verbatim>\<open>packages/recon\<close>), login of the customer's personas (\<^verbatim>\<open>packages/auth\<close>), crawling
  (\<^verbatim>\<open>packages/crawler\<close>) and merging of what was found into the tables (\<^verbatim>\<open>packages/db\<close>). All of it rests on
  \<^verbatim>\<open>packages/core\<close>: the scope guard, the destructive-action guard, the rate limiter, the HTTP engine, the
  evidence transcripts, the encryption of secrets and the state machine of a scan. The client of the language
  model (\<^verbatim>\<open>packages/ai\<close>) and the licence gate of the build (\<^verbatim>\<open>infra/scripts\<close>) stand beside it.

  \<^bold>\<open>Ground.\<close>
  \<^item> \<open>Prelude\<close>: exceptions as values of \<open>exn\<close> and results \<open>'a res\<close>, dictionaries as association lists, and the two
    interfaces most components use: \<open>invariant_system\<close> (reachable states of a step relation and an inductive
    invariant) and \<open>find_or_create\<close> (tables filled by look-up-or-insert).
  \<^item> \<open>Py_Strings\<close>, \<open>Utf8\<close>, \<open>Regex\<close>, \<open>Urls\<close>, \<open>Json\<close>, \<open>Json_Reader\<close>: what the sources use of Python's strings, codecs, regular
    expressions, \<^verbatim>\<open>urlsplit\<close> and \<^verbatim>\<open>json\<close>. Strings of Latin-1 characters are \<open>string\<close>, other texts are lists of code
    points (\<open>ptext\<close>).

  \<^bold>\<open>Core.\<close>
  \<^item> \<open>State_Machine\<close> (\<^verbatim>\<open>state_machine/\<close>): states, transitions, pause and resume; the lifecycle of every reachable machine.
  \<^item> \<open>Scope_Guard\<close> (\<^verbatim>\<open>scope_guard/guard.py\<close>): \<open>evaluate\<close> with its reasons; it decides exactly the declarative \<open>in_scope\<close>.
  \<^item> \<open>Destructive_Guard\<close> (\<^verbatim>\<open>scope_guard/destructive.py\<close>): \<open>check\<close> and its patterns.
  \<^item> \<open>Rate_Limiter\<close> (\<^verbatim>\<open>rate_limiter/limiter.py\<close>): optimistic transactions on a model of Redis in which other workers act
    between any two commands; it refines an atomic token bucket, its grants are bounded, and \<open>acquire\<close> returns.
  \<^item> \<open>Transcript\<close>, \<open>Transcript_Load\<close> (\<^verbatim>\<open>transcript/\<close>): scrubbing, content-addressed stores, and the round trip of a record.
  \<^item> \<open>Envelope_Crypto\<close> (\<^verbatim>\<open>crypto/envelope.py\<close>): key wrapping and rotation over Fernet as a parameter.
  \<^item> \<open>Http_Engine\<close> (\<^verbatim>\<open>http_engine/\<close>): \<open>request\<close>, the guarded, rate-limited and recorded request with its retries.

  \<^bold>\<open>Phases and tables.\<close>
  \<^item> \<open>Auth\<close> (\<^verbatim>\<open>packages/auth\<close>): login replay as a sequence of browser commands, session oracles, cookies of a persona.
  \<^item> \<open>Crawler\<close> (\<^verbatim>\<open>packages/crawler\<close>): the crawl loop, its bounds and that it ends; \<open>Recon\<close> (\<^verbatim>\<open>packages/recon\<close>).
  \<^item> \<open>Db_Models\<close> (\<^verbatim>\<open>packages/db\<close>): the tables as records, and the hook that refuses unsupported confirmed findings;
    \<open>Recipe_Store\<close>: a login recipe as a stored document and back (\<^verbatim>\<open>build_login_recipe\<close>).
  \<^item> \<open>Db_Schema\<close>, \<open>Migrations\<close> (\<^verbatim>\<open>packages/db/migrations\<close>): the statements of migrations on schemas, with the general fact that a
    run of creating statements is undone by the opposite one; the two revisions; and every table as the models declare it, which
    is what the revisions build. \<open>Db_Session\<close>: settings, the default engine and the kinds of session.

  \<^bold>\<open>The API.\<close>
  \<^item> \<open>Ownership\<close>, \<open>Api\<close> (\<^verbatim>\<open>services/ownership.py\<close>, \<^verbatim>\<open>deps.py\<close>, \<^verbatim>\<open>routers/\<close>): every route as a handler that takes the
    database and returns a reply or an HTTP error with the new database; \<open>serve\<close> dispatches a request.
  \<^item> \<open>Api_Http\<close> (\<^verbatim>\<open>main.py\<close>, \<^verbatim>\<open>schemas/\<close>): a request from its dependencies over the validation of its body to its answer, and
    what of the validated bodies the columns hold.
  \<^item> \<open>Api_Isolation\<close>: what a tenant sees and changes; \<open>Api_History\<close>: the requests behind the flags of a target.

  \<^bold>\<open>The worker.\<close>
  \<^item> \<open>Surface_Adapter\<close> (\<^verbatim>\<open>surface_adapter.py\<close>): the merge of a surface map, equal to the merge without its cache.
  \<^item> \<open>Worker_World\<close> (\<^verbatim>\<open>substrate.py\<close>, \<^verbatim>\<open>auth_adapter.py\<close>): the state of a run (the session's tables, the committed tables, the
    engine, the browser, and logs of what left the worker) and the commands of a run, which return, raise or do not end.
  \<^item> \<open>Scan_Runner\<close> (\<^verbatim>\<open>scan_runner.py\<close>): \<open>run_scan\<close> phase by phase with every flush and commit, each of which
    the database may refuse.
  \<^item> \<open>Run_Frames\<close>: the interfaces \<open>work_frame\<close> and \<open>scan_frame\<close>, in which every phase is shown once to respect a relation or an
    invariant of worlds, and their interpretations.
  \<^item> \<open>Scan_Properties\<close> (with \<^verbatim>\<open>tasks.py\<close>): what runs do and do not do; \<open>Scan_Faults\<close>: a stored rule that stops every run.
  \<^item> \<open>Shared_Database\<close>: requests and runs on one database in any order, and what its tables keep.
  \<^item> \<open>Scan_Columns\<close>: runs on a database that takes no value that does not fit its declared column: what it ever holds, that a
    login that works and a long link end a scan.

  \<^bold>\<open>Beside them.\<close> \<open>Ai_Client\<close> (\<^verbatim>\<open>packages/ai\<close>) and \<open>Licence_Check\<close> (\<^verbatim>\<open>infra/scripts/licence_check.py\<close>). This theory has the
  properties that go from the API to the network.

  \<^bold>\<open>Correspondence.\<close> A class is a record, an enumeration a datatype, an exception a value. A database is a record
  of lists of rows, ids are drawn from one counter; a transaction that raises leaves the committed tables. The
  browser, the HTTP client, DNS, processes, clocks, random tokens, Fernet, regular expressions of customers and
  the model provider are parameters, and so is what the database refuses, with what is assumed of them as hypotheses that the witnesses discharge on
  concrete instances. Times, rates and fractions are rationals where the code has floats.

  \<^bold>\<open>Loops.\<close> \<open>acquire\<close> and \<open>crawl_loop\<close> are partial functions into \<open>option\<close>, in which None is a loop that does not end; that
  they end is proved. \<open>try_acquire\<close> has the ten attempts of the source as its recursion, the retries of a request those of the
  engine. No fuel is used.

  \<^bold>\<open>Not modelled.\<close> How pydantic reads JSON as the types of a payload, and the routing of FastAPI and Celery; the offline mode
  of the migrations; deletions, which nothing does; the columns of rows that no operation reads or writes, which are in the
  declared tables only; the schemas of scan policies, which no route uses; log lines; requests that are served while a run is
  under way; that reading from the database may raise. The packages \<^verbatim>\<open>checks\<close>, \<^verbatim>\<open>integrations\<close>, \<^verbatim>\<open>nuclei\<close>, \<^verbatim>\<open>reporter\<close>, \<^verbatim>\<open>triage\<close> and \<^verbatim>\<open>verifier\<close> are empty in the
  source.
\<close>

section \<open>From the API to the network\<close>

lemma reach_backed:
  assumes "reach system_start system_step s" and "get_target i (rw_saved (sys_run s)) = Some t"
  shows "row_backed (sys_steps s) t"
proof -
  from shared.reach_inv [OF assms(1)] have ok: "system_ok s" .
  have "t \<in> set (db_targets (rw_saved (sys_run s)))"
    using find_SomeD [OF assms(2) [unfolded get_target_def]] by simp
  with ok show ?thesis by (simp add: system_ok_def history_ok_def)
qed

text \<open>
  C2. End to end, nothing is touched without its owner's proof: however API requests and runs of scans
  have followed each other, if a run then sends a request, loads a page, drives the login browser or does reconnaissance,
  the organization of the scan's target had been given a token, had shown it published at the target's
  domain, and had accepted the authorization.
\<close>

theorem nothing_touched_without_proof:
  assumes "reach system_start system_step s" and "w = sys_run s" and "run_scan env sid w = Some (r, w')"
    and "\<not> (rw_engine w' = rw_engine w \<and> rw_goto w' = rw_goto w \<and> rw_browser w' = rw_browser w \<and> rw_recon w' = rw_recon w)"
  shows "\<exists>i sc t. re_uuid env sid = Some i \<and> get_scan_row i (rw_saved w) = Some sc \<and>
     get_target (sc_target_id sc) (rw_saved w) = Some t \<and> owner_proved (sys_steps s) t \<and> owner_authorized (sys_steps s) t"
  using run_scan_cases [of env sid w]
proof (elim disjE exE conjE)
  fix i sc t
  assume rows: "re_uuid env sid = Some i" "get_scan_row i (rw_saved w) = Some sc" "get_target (sc_target_id sc) (rw_saved w) = Some t"
  have "row_backed (sys_steps s) t" using reach_backed [OF assms(1)] rows(3) assms(2) by simp
  moreover have "is_scannable t"
  proof (rule ccontr)
    assume no: "\<not> is_scannable t"
    show False
    proof (cases "sc_state sc = QUEUED")
      case True
      from blocked_run [OF rows(1,2) True rows(3) no] assms(3,4) show False by (auto simp: untouched_def)
    next
      case False
      from rerun_raises [OF rows False] assms(3,4) show False by auto
    qed
  qed
  ultimately have "owner_proved (sys_steps s) t" "owner_authorized (sys_steps s) t" by (simp_all add: row_backed_def is_scannable_def)
  with rows show ?thesis by blast
next
  fix r'
  assume "run_scan env sid w = Some (r', w\<lparr>rw_db := rw_saved w\<rparr>)"
  with assms(3,4) show ?thesis by auto
qed

lemma secret_survives:
  assumes "fernet_ok lib" and "env_encrypt lib key n (utf8_encode secret) = Inr c" and "list_all scalar secret"
  shows "decrypted_secret lib key c = Inr secret"
proof -
  have "fernet_key lib key" "c = fernet_encrypt lib key n (utf8_encode secret)"
    using assms(2) by (auto simp: env_encrypt_def with_key_def split: if_splits)
  moreover from this have "fernet_decrypt lib key c = Some (utf8_encode secret)" using assms(1) by (simp add: fernet_ok_def)
  ultimately show ?thesis
    using utf8_decode_encode [OF assms(3)] by (simp add: decrypted_secret_def env_decrypt_def with_key_def)
qed

text \<open>
  C19. The secret and the login recipe that a customer stores through the API are the ones that the worker
  replays: after a persona with both has been created, its row has a credential whose ciphertext the worker,
  with the same master key, decrypts to exactly that secret, and a document that the worker takes for a recipe and
  rebuilds exactly, if it reads the numbers in it as they were printed; and the answer of the API is built from the row
  without the secret.
\<close>

theorem stored_secret_reaches_worker:
  assumes "fernet_ok (api_fernet env)" and "db_ok (aw_db w)"
    and "create_persona env h i payload w = (Inr (R_Persona out), w')"
    and "pc_credential payload = Some (kind, secret)"
    and "get_current_org env h (aw_db w) = Inr org"
    and "pc_login_recipe payload = Some recipe" and "\<forall>q\<in>set (recipe_numbers recipe). rd (api_number env q) = q"
  shows "\<exists>p c crypto key. p \<in> set (db_personas (aw_db w')) \<and> out = persona_out_of p \<and>
     persona_credential p (aw_db w') = Some c \<and>
     new_local_provider (api_fernet env) [utf8_encode (code_points (api_kms_master_key env))] = Inr crypto \<and>
     unwrap (api_fernet env) crypto (org_wrapped_data_key org) = Inr key \<and>
     decrypted_secret (api_fernet env) key (cred_ciphertext c) = Inr secret \<and>
     has_recipe p \<and> build_login_recipe rd (or_default (pe_login_recipe p) JNull) = Inr recipe"
proof -
  let ?lib = "api_fernet env" and ?db = "aw_db w"
  obtain t crypto cid db where
    t: "get_owned_target env h i ?db = Inr t" and crypto: "get_crypto env = Inr crypto"
    and cred: "add_credential env crypto org (Some (kind, secret)) ?db = Inr (cid, db)"
    and p: "R_Persona out = R_Persona (persona_out_of (last (db_personas (aw_db w'))))"
      "db_personas (aw_db w') \<noteq> []" "pe_credential_id (last (db_personas (aw_db w'))) = cid"
      "db_credentials (aw_db w') = db_credentials db"
      "pe_login_recipe (last (db_personas (aw_db w'))) = Some (recipe_dump (api_number env) recipe)"
    using assms(3-6)
    by (auto simp: create_persona_def handled_def server_res_def Let_def split: sum.splits)
  obtain key c where key: "unwrap ?lib crypto (org_wrapped_data_key org) = Inr key" and sc: "list_all scalar secret"
    and c: "env_encrypt ?lib key (api_seed_cipher env) (utf8_encode secret) = Inr c"
    and db: "cid = Some (db_next ?db)"
      "db_credentials db = db_credentials ?db @ [\<lparr>cred_id = db_next ?db, cred_kind = kind, cred_ciphertext = c\<rparr>]"
    using cred by (auto simp: add_credential_def encrypt_secret_def bind_res_Inr_iff split: if_splits)
  have "new_local_provider ?lib [utf8_encode (code_points (api_kms_master_key env))] = Inr crypto"
    using crypto by (auto simp: get_crypto_def server_res_def local_provider_of_def split: sum.splits if_splits)
  moreover have "find (\<lambda>c. cred_id c = db_next ?db) (db_credentials ?db) = None"
    using assms(2) by (auto simp: find_None_iff db_ok_def)
  then have "persona_credential (last (db_personas (aw_db w'))) (aw_db w') =
      Some \<lparr>cred_id = db_next ?db, cred_kind = kind, cred_ciphertext = c\<rparr>"
    using p(3,4) db by (simp add: persona_credential_def find_append)
  moreover have "has_recipe (last (db_personas (aw_db w'))) \<and>
      build_login_recipe rd (or_default (pe_login_recipe (last (db_personas (aw_db w')))) JNull) = Inr recipe"
    using p(5) truthy_dump build_dump [OF assms(7)] by (simp add: has_recipe_def or_default_def)
  ultimately show ?thesis
    using p(1,2) key secret_survives [OF assms(1) c sc] by (intro exI conjI) (auto simp: last_in_set)
qed

text \<open>A worker whose name server fails during reconnaissance.\<close>

definition no_dns_env :: "(files, net_outcome list, unit, unit) run_env" where
  "no_dns_env = demo_run_env\<lparr>re_uuid := (\<lambda>s. if s = ''three'' then Some 3 else None),
     re_recon := bare_lib\<lparr>rl_dns_a := (\<lambda>_. Raises (Other_Error ''OSError''))\<rparr>\<rparr>"

definition served_run_world :: "(files, net_outcome list, unit, unit) run_world" where
  "served_run_world = (demo_run_world True QUEUED)\<lparr>rw_saved := aw_db (served demo_steps demo_api_world)\<rparr>"

lemma no_dns_unrefused: "re_refuse no_dns_env k old new = None"
  by (simp add: no_dns_env_def)

lemma no_dns_recon: "\<exists>x. run_recon (re_recon no_dns_env) d = Inl x"
  by (simp add: run_recon_def no_dns_env_def bare_lib_def looks_like_projectdiscovery_tool_def tool_available_def detect_wildcard_dns_def
      resolve_a_def)

lemma served_run:
  "\<exists>x w'. run_scan no_dns_env ''three'' served_run_world = Some (Inl (Run_Exn x), w') \<and> rw_recon w' \<noteq> []"
proof -
  obtain s t where rows: "db_scans (aw_db (served demo_steps demo_api_world)) = [s]" "db_targets (aw_db (served demo_steps demo_api_world)) = [t]"
    "sc_id s = 3" "sc_target_id s = 2" "sc_state s = QUEUED" "tg_id t = 2" "is_scannable t"
    using demo_served_rows by (elim exE conjE)
  obtain x where x: "run_recon (re_recon no_dns_env) (code_points (tg_root_domain t)) = Inl x" using no_dns_recon by blast
  have u: "re_uuid no_dns_env ''three'' = Some 3" by (simp add: no_dns_env_def)
  have "run_scan no_dns_env ''three'' served_run_world = scan_body no_dns_env 3 t
      \<lparr>current = QUEUED, paused_from = sc_paused_from s, fail_reason = None\<rparr> (served_run_world\<lparr>rw_db := rw_saved served_run_world\<rparr>)"
    using run_scan_body [OF u, of served_run_world s t] rows by (simp add: served_run_world_def get_scan_row_def get_target_def)
  then show ?thesis
    using rows(7) x
    by (simp add: scan_body_def scope_phase_def recon_phase_def rbind_def enter_state_def transition_def can_transition_def is_terminal_def
        TERMINAL_STATES_def start_phase_def finish_phase_def rtick_def rdb_def rcommit_def rflush_def rreturn_def no_dns_unrefused do_recon_def
        get_or_create_phase_cases Let_def split: option.split)
qed

theorem nothing_touched_without_proof_witness:
  "\<exists>t. owner_proved demo_steps t \<and> owner_authorized demo_steps t"
proof -
  obtain x w' where r: "run_scan no_dns_env ''three'' served_run_world = Some (Inl (Run_Exn x), w')" "rw_recon w' \<noteq> []"
    using served_run by blast
  have "rw_recon served_run_world = []" by (simp add: served_run_world_def)
  moreover have "sys_run (after_requests demo_steps demo_system) = served_run_world" "sys_steps (after_requests demo_steps demo_system) = demo_steps"
    by (simp_all add: after_requests_def demo_system_def served_run_world_def)
  ultimately show ?thesis using nothing_touched_without_proof [OF demo_system_reach _ r(1)] r(2) by auto
qed

theorem stored_secret_reaches_worker_witness:
  "\<exists>out w' p c key. create_persona demo_api_env (Some ''a'') 2 demo_payload (served demo_steps demo_api_world) = (Inr (R_Persona out), w') \<and>
     persona_credential p (aw_db w') = Some c \<and> decrypted_secret toy_lib key (cred_ciphertext c) = Inr [0x70, 0xE9, 0x2014] \<and>
     build_login_recipe (re_number demo_run_env) (or_default (pe_login_recipe p) JNull) = Inr demo_recipe"
proof -
  let ?w = "served demo_steps demo_api_world" and ?p = "\<lparr>provider_keys = [utf8_encode (code_points ''key1'')]\<rparr>"
  obtain t g where t: "db_targets (aw_db ?w) = [t]" "tg_id t = 2" "tg_organization_id t = 0"
    and g: "get_org 0 (aw_db ?w) = Some g" "org_id g = 0" "org_wrapped_data_key g = wrap toy_lib ?p 4 (generate_data_key toy_lib 3)"
    using demo_served_rows by (elim exE conjE)
  obtain out w' p where cp: "create_persona demo_api_env (Some ''a'') 2 demo_payload ?w = (Inr (R_Persona out), w')"
    using demo_persona_created by (elim exE conjE)
  have org: "get_current_org demo_api_env (Some ''a'') (aw_db ?w) = Inr g" by (simp add: get_current_org_def g(1))
  have lib: "api_fernet demo_api_env = toy_lib" by (simp add: demo_api_env_def)
  have "history_ok [] (aw_db demo_api_world)" by (simp add: demo_api_world_def history_ok_def empty_database_def db_ok_def)
  from history_served [OF this, of demo_steps] have ok: "db_ok (aw_db ?w)" by (simp add: history_ok_def)
  have cred: "pc_credential demo_payload = Some (CK_PASSWORD, [0x70, 0xE9, 0x2014])" by (simp add: demo_payload_def)
  have rec: "pc_login_recipe demo_payload = Some demo_recipe" by (simp add: demo_payload_def)
  have num: "\<forall>q\<in>set (recipe_numbers demo_recipe). re_number demo_run_env (api_number demo_api_env q) = q"
    by (simp add: recipe_numbers_def demo_recipe_def demo_run_env_def demo_api_env_def)
  from stored_secret_reaches_worker [OF _ ok cp cred org rec num] toy_lib_ok cp show ?thesis unfolding lib by blast
qed

end
